(* ===== verification/CanonicalJson.thy ===== *)
theory CanonicalJson
  imports Prelude "HOL-Library.List_Lexorder" "HOL-Library.Multiset"
begin

text \<open>
  Canonical JSON (\<open>src/src/shared/stable-id.ts\<close>), the text that every content hash of the
  program is computed from: validation of an arbitrary JavaScript value into the JSON domain and
  the emitter with sorted keys. Strings are UTF-16 code units.
\<close>

section \<open>JavaScript values\<close>

text \<open>
  A finite non-integer number is represented by the text \<open>Number.prototype.toString\<close> gives for
  it, which determines the number.
\<close>

datatype js_number = Nan | Infinite bool | Neg_zero | Int_num int | Frac_num code_units

text \<open>An own property slot: absent, not enumerable, with accessors, or a data property.\<close>

datatype 'a js_slot = Hole | Hidden | Accessor_slot | Data 'a

text \<open>Own keys of an array besides \<open>length\<close> and its elements.\<close>

datatype array_extra = Extra_key | Index_key nat

text \<open>
  A value is the tree a traversal unfolds: \<open>V_ancestor\<close> is a reference to an object the
  traversal is inside of, which is how a cycle shows. The flags of arrays and objects say whether
  the prototype is the plain one, and whether the object has symbol keys.
\<close>

datatype js_value =
    V_undefined
  | V_null
  | V_bool bool
  | V_number js_number
  | V_string code_units
  | V_exotic
  | V_ancestor
  | V_array bool "array_extra list" "js_value js_slot list"
  | V_object bool bool "(code_units \<times> js_value js_slot) list"

datatype canonical_json =
    C_null
  | C_bool bool
  | C_int int
  | C_frac code_units
  | C_string code_units
  | C_array "canonical_json list"
  | C_object "(code_units \<times> canonical_json) list"

section \<open>Errors\<close>

datatype json_problem =
    Lone_surrogate | Non_finite | Unsafe_integer | Undefined_value | Unsupported_type | Cyclic
  | Not_plain_array | Extra_array_property | Invalid_array_index | Sparse_array | Array_accessor
  | Not_plain_object | Symbol_keys | Non_enumerable | Accessor_property

datatype path_segment = At_index nat | At_key code_units

text \<open>
  An error carries the path from the value it is reported for; the caller puts its own segment in
  front, so at the root this is the path the code threads through the recursion.
\<close>

type_synonym json_error = "json_problem \<times> path_segment list"

definition under :: "path_segment \<Rightarrow> (json_error, 'a) result \<Rightarrow> (json_error, 'a) result" where
  "under seg r = map_sum (map_prod id (Cons seg)) id r"

section \<open>Validation\<close>

definition high_surrogate :: "nat \<Rightarrow> bool" where
  "high_surrogate c \<longleftrightarrow> 55296 \<le> c \<and> c \<le> 56319"

definition low_surrogate :: "nat \<Rightarrow> bool" where
  "low_surrogate c \<longleftrightarrow> 56320 \<le> c \<and> c \<le> 57343"

text \<open>\<open>assertValidUnicode\<close>: a high surrogate must be followed by a low one, which is skipped.\<close>

fun valid_unicode :: "code_units \<Rightarrow> bool" where
  "valid_unicode [] = True"
| "valid_unicode [c] = (\<not> high_surrogate c \<and> \<not> low_surrogate c)"
| "valid_unicode (c # d # cs) =
     (if high_surrogate c then low_surrogate d \<and> valid_unicode cs
      else \<not> low_surrogate c \<and> valid_unicode (d # cs))"

definition assert_valid_unicode :: "code_units \<Rightarrow> (json_error, unit) result" where
  "assert_valid_unicode s = guard_res (valid_unicode s) (Lone_surrogate, [])"

definition max_safe_integer :: int where
  "max_safe_integer = 9007199254740991"

fun canonicalize_number :: "js_number \<Rightarrow> (json_error, canonical_json) result" where
  "canonicalize_number Nan = Inl (Non_finite, [])"
| "canonicalize_number (Infinite _) = Inl (Non_finite, [])"
| "canonicalize_number Neg_zero = Inr (C_int 0)"
| "canonicalize_number (Int_num i) =
     (if \<bar>i\<bar> > max_safe_integer then Inl (Unsafe_integer, []) else Inr (C_int i))"
| "canonicalize_number (Frac_num t) = Inr (C_frac t)"

text \<open>The loop over the array's own keys: anything that is not an element index is refused.\<close>

fun check_array_keys :: "nat \<Rightarrow> array_extra list \<Rightarrow> (json_error, unit) result" where
  "check_array_keys n [] = Inr ()"
| "check_array_keys n (Extra_key # es) = Inl (Extra_array_property, [])"
| "check_array_keys n (Index_key i # es) =
     (if int i > max_safe_integer \<or> i \<ge> n then Inl (Invalid_array_index, [At_key (units (show_nat i))])
      else check_array_keys n es)"

text \<open>The loop over the elements, each already validated, stopping at the first error.\<close>

fun collect_elements ::
    "nat \<Rightarrow> (json_error, canonical_json) result js_slot list \<Rightarrow>
     (json_error, canonical_json list) result" where
  "collect_elements i [] = Inr []"
| "collect_elements i (Data r # ss) =
     bind_res (under (At_index i) r) (\<lambda>v.
       bind_res (collect_elements (Suc i) ss) (\<lambda>vs. Inr (v # vs)))"
| "collect_elements i (Hole # ss) = Inl (Sparse_array, [At_index i])"
| "collect_elements i (_ # ss) = Inl (Array_accessor, [At_index i])"

text \<open>The loop over the sorted keys of an object.\<close>

fun property_value ::
    "(json_error, canonical_json) result js_slot \<Rightarrow> (json_error, canonical_json) result" where
  "property_value (Data r) = r"
| "property_value Accessor_slot = Inl (Accessor_property, [])"
| "property_value _ = Inl (Non_enumerable, [])"

fun collect_properties ::
    "(code_units \<times> (json_error, canonical_json) result js_slot) list \<Rightarrow>
     (json_error, (code_units \<times> canonical_json) list) result" where
  "collect_properties [] = Inr []"
| "collect_properties ((k, s) # ps) =
     bind_res (under (At_key k) (assert_valid_unicode k)) (\<lambda>_.
       bind_res (under (At_key k) (property_value s)) (\<lambda>v.
         bind_res (collect_properties ps) (\<lambda>vs. Inr ((k, v) # vs))))"

text \<open>\<open>canonicalizeJson\<close>; keys are sorted by code units, as \<open>Array.prototype.sort\<close> does.\<close>

primrec canonicalize_json :: "js_value \<Rightarrow> (json_error, canonical_json) result" where
  "canonicalize_json V_undefined = Inl (Undefined_value, [])"
| "canonicalize_json V_null = Inr C_null"
| "canonicalize_json (V_bool b) = Inr (C_bool b)"
| "canonicalize_json (V_number n) = canonicalize_number n"
| "canonicalize_json (V_string s) =
     bind_res (assert_valid_unicode s) (\<lambda>_. Inr (C_string s))"
| "canonicalize_json V_exotic = Inl (Unsupported_type, [])"
| "canonicalize_json V_ancestor = Inl (Cyclic, [])"
| "canonicalize_json (V_array plain extra slots) =
     (if \<not> plain then Inl (Not_plain_array, [])
      else bind_res (check_array_keys (length slots) extra) (\<lambda>_.
        bind_res (collect_elements 0 (map (map_js_slot canonicalize_json) slots)) (\<lambda>vs.
          Inr (C_array vs))))"
| "canonicalize_json (V_object plain symbols props) =
     (if \<not> plain then Inl (Not_plain_object, [])
      else if symbols then Inl (Symbol_keys, [])
      else bind_res
        (collect_properties
           (sort_key fst (map (map_prod id (map_js_slot canonicalize_json)) props)))
        (\<lambda>vs. Inr (C_object vs)))"

section \<open>The emitter\<close>

definition hex_lower :: "nat \<Rightarrow> nat" where
  "hex_lower d = (if d < 10 then 48 + d else 87 + d)"

definition unicode_escape :: "nat \<Rightarrow> code_units" where
  "unicode_escape c =
     [92, 117, hex_lower (c div 4096), hex_lower (c div 256 mod 16), hex_lower (c div 16 mod 16),
      hex_lower (c mod 16)]"

text \<open>\<open>JSON.stringify\<close> of a string: escapes, control characters, lone surrogates.\<close>

definition escape_unit :: "nat \<Rightarrow> code_units" where
  "escape_unit c =
     (if c = 34 then [92, 34] else if c = 92 then [92, 92]
      else if c = 8 then [92, 98] else if c = 9 then [92, 116] else if c = 10 then [92, 110]
      else if c = 12 then [92, 102] else if c = 13 then [92, 114]
      else if c < 32 then unicode_escape c
      else [c])"

fun quote_body :: "code_units \<Rightarrow> code_units" where
  "quote_body [] = []"
| "quote_body [c] =
     (if high_surrogate c \<or> low_surrogate c then unicode_escape c else escape_unit c)"
| "quote_body (c # d # cs) =
     (if high_surrogate c \<and> low_surrogate d then c # d # quote_body cs
      else if high_surrogate c \<or> low_surrogate c then unicode_escape c @ quote_body (d # cs)
      else escape_unit c @ quote_body (d # cs))"

definition json_quote :: "code_units \<Rightarrow> code_units" where
  "json_quote s = 34 # quote_body s @ [34]"

definition show_int_units :: "int \<Rightarrow> code_units" where
  "show_int_units i = (if i < 0 then 45 # units (show_nat (nat (- i))) else units (show_nat (nat i)))"

definition repeat_space :: "nat \<Rightarrow> code_units" where
  "repeat_space n = replicate n 32"

fun serialize_canonical_json :: "canonical_json \<Rightarrow> nat \<Rightarrow> nat \<Rightarrow> code_units" where
  "serialize_canonical_json C_null indent depth = units ''null''"
| "serialize_canonical_json (C_bool b) indent depth = units (if b then ''true'' else ''false'')"
| "serialize_canonical_json (C_int i) indent depth = show_int_units i"
| "serialize_canonical_json (C_frac t) indent depth = t"
| "serialize_canonical_json (C_string s) indent depth = json_quote s"
| "serialize_canonical_json (C_array vs) indent depth =
     (if vs = [] then units ''[]''
      else let serialized = map (\<lambda>v. serialize_canonical_json v indent (depth + 1)) vs;
               current = repeat_space (indent * depth);
               child = repeat_space (indent * (depth + 1))
        in if indent = 0 then [91] @ join [44] serialized @ [93]
           else [91, 10] @ child @ join ([44, 10] @ child) serialized @ [10] @ current @ [93])"
| "serialize_canonical_json (C_object ps) indent depth =
     (if ps = [] then units ''{}''
      else let separator = (if indent = 0 then [58] else [58, 32]);
               serialized = map (\<lambda>p. json_quote (fst p) @ separator @
                 serialize_canonical_json (snd p) indent (depth + 1)) (sort_key fst ps);
               current = repeat_space (indent * depth);
               child = repeat_space (indent * (depth + 1))
        in if indent = 0 then [123] @ join [44] serialized @ [125]
           else [123, 10] @ child @ join ([44, 10] @ child) serialized @ [10] @ current @ [125])"

definition canonical_json_stringify :: "js_value \<Rightarrow> (json_error, code_units) result" where
  "canonical_json_stringify v =
     bind_res (canonicalize_json v) (\<lambda>c. Inr (serialize_canonical_json c 0 0))"

datatype file_string_error = Bad_indent | Bad_json json_error

definition canonical_json_file_string ::
    "js_value \<Rightarrow> int \<Rightarrow> (file_string_error, code_units) result" where
  "canonical_json_file_string v indent =
     (if indent < 0 \<or> indent > 10 then Inl Bad_indent
      else map_sum Bad_json (\<lambda>c. serialize_canonical_json c (nat indent) 0 @ [10])
             (canonicalize_json v))"


section \<open>Well-formed values\<close>

text \<open>
  The text of a non-integer number uses digits, a sign, a point and an exponent, starts with a
  digit or the sign, and is not the text of an integer. An object's keys are distinct.
\<close>

definition number_unit :: "nat \<Rightarrow> bool" where
  "number_unit c \<longleftrightarrow> (48 \<le> c \<and> c \<le> 57) \<or> c \<in> {43, 45, 46, 101}"

definition fraction_text :: "code_units \<Rightarrow> bool" where
  "fraction_text t \<longleftrightarrow> t \<noteq> [] \<and> list_all number_unit t \<and> (46 \<in> set t \<or> 101 \<in> set t) \<and>
     ((48 \<le> hd t \<and> hd t \<le> 57) \<or> hd t = 45)"

primrec well_formed :: "js_value \<Rightarrow> bool" where
  "well_formed V_undefined = True"
| "well_formed V_null = True"
| "well_formed (V_bool b) = True"
| "well_formed (V_number n) = (case n of Frac_num t \<Rightarrow> fraction_text t | _ \<Rightarrow> True)"
| "well_formed (V_string s) = True"
| "well_formed V_exotic = True"
| "well_formed V_ancestor = True"
| "well_formed (V_array plain extra slots) =
     list_all (pred_js_slot id) (map (map_js_slot well_formed) slots)"
| "well_formed (V_object plain symbols props) =
     (distinct (map fst props) \<and>
      list_all (\<lambda>p. pred_js_slot id (snd p)) (map (map_prod id (map_js_slot well_formed)) props))"

fun canonical_ok :: "canonical_json \<Rightarrow> bool" where
  "canonical_ok (C_frac t) = fraction_text t"
| "canonical_ok (C_string s) = valid_unicode s"
| "canonical_ok (C_array vs) = (\<forall>v \<in> set vs. canonical_ok v)"
| "canonical_ok (C_object ps) =
     (sorted (map fst ps) \<and> distinct (map fst ps) \<and>
      (\<forall>p \<in> set ps. valid_unicode (fst p) \<and> canonical_ok (snd p)))"
| "canonical_ok _ = True"

lemma under_Inr [simp]: "under seg r = Inr a \<longleftrightarrow> r = Inr a"
  by (cases r) (auto simp: under_def)

lemma map_js_slot_Data: "map_js_slot f s = Data r \<longleftrightarrow> (\<exists>u. s = Data u \<and> r = f u)"
  "Data r = map_js_slot f s \<longleftrightarrow> (\<exists>u. s = Data u \<and> r = f u)"
  by (cases s; auto)+

lemma collect_elements_ok:
  assumes "collect_elements i ss = Inr vs"
    and "\<And>r c. Data r \<in> set ss \<Longrightarrow> r = Inr c \<Longrightarrow> P c"
  shows "\<forall>v \<in> set vs. P v"
  using assms
proof (induction i ss arbitrary: vs rule: collect_elements.induct)
  case (2 i r ss)
  then show ?case by (auto simp: bind_res_Inr_iff)
qed auto

lemma collect_properties_ok:
  assumes "collect_properties ps = Inr vs"
    and "\<And>k r c. (k, Data r) \<in> set ps \<Longrightarrow> r = Inr c \<Longrightarrow> P c"
  shows "map fst vs = map fst ps \<and> (\<forall>p \<in> set vs. valid_unicode (fst p) \<and> P (snd p))"
  using assms
proof (induction ps arbitrary: vs)
  case (Cons p ps)
  obtain k s where p: "p = (k, s)" by (cases p)
  from Cons.prems(1) obtain v ws where v: "property_value s = Inr v"
    and ws: "collect_properties ps = Inr ws" and vs: "vs = (k, v) # ws" and k: "valid_unicode k"
    by (auto simp: p bind_res_Inr_iff assert_valid_unicode_def)
  from v have "s = Data (Inr v)"
    by (cases s) auto
  with Cons.prems(2) p have "P v" by auto
  moreover have "map fst ws = map fst ps \<and> (\<forall>p \<in> set ws. valid_unicode (fst p) \<and> P (snd p))"
    using Cons.IH [OF ws] Cons.prems(2) by auto
  ultimately show ?case by (simp add: vs k p)
qed simp

text \<open>Whatever the validation accepts is a canonical value: sorted distinct keys, valid strings.\<close>

lemma canonicalize_ok: "well_formed v \<Longrightarrow> canonicalize_json v = Inr c \<Longrightarrow> canonical_ok c"
proof (induction v arbitrary: c)
  case (V_number n)
  then show ?case by (cases n) (auto split: if_splits)
next
  case (V_string s)
  then show ?case by (auto simp: assert_valid_unicode_def bind_res_Inr_iff)
next
  case (V_array plain extra slots)
  from V_array.prems(2) obtain vs where vs: "c = C_array vs"
    "collect_elements 0 (map (map_js_slot canonicalize_json) slots) = Inr vs"
    by (auto simp: bind_res_Inr_iff split: if_splits)
  have "\<forall>v \<in> set vs. canonical_ok v"
  proof (rule collect_elements_ok [OF vs(2)])
    fix r d assume "Data r \<in> set (map (map_js_slot canonicalize_json) slots)" and "r = Inr d"
    then obtain u where u: "Data u \<in> set slots" "canonicalize_json u = Inr d"
      by (auto simp: map_js_slot_Data)
    moreover have "well_formed u"
      using V_array.prems(1) u(1) by (auto simp: list_all_iff)
    ultimately show "canonical_ok d"
      using V_array.IH [of "Data u" u d] by simp
  qed
  with vs(1) show ?case by simp
next
  case (V_object plain symbols props)
  from V_object.prems(2) obtain vs where vs: "c = C_object vs"
    "collect_properties (sort_key fst (map (map_prod id (map_js_slot canonicalize_json)) props)) = Inr vs"
    by (auto simp: bind_res_Inr_iff split: if_splits)
  have *: "map fst vs = map fst (sort_key fst (map (map_prod id (map_js_slot canonicalize_json)) props)) \<and>
    (\<forall>p \<in> set vs. valid_unicode (fst p) \<and> canonical_ok (snd p))"
  proof (rule collect_properties_ok [OF vs(2)])
    fix k r d
    assume "(k, Data r) \<in> set (sort_key fst (map (map_prod id (map_js_slot canonicalize_json)) props))"
      and "r = Inr d"
    then obtain u where u: "(k, Data u) \<in> set props" "canonicalize_json u = Inr d"
      by (auto simp: map_js_slot_Data)
    moreover have "well_formed u"
      using V_object.prems(1) u(1) by (force simp: list_all_iff)
    ultimately show "canonical_ok d"
      using V_object.IH [of "(k, Data u)" "Data u" u d] by simp
  qed
  have "distinct (map fst (sort_key fst (map (map_prod id (map_js_slot canonicalize_json)) props)))"
  proof -
    have "mset (map fst (sort_key fst (map (map_prod id (map_js_slot canonicalize_json)) props)))
      = mset (map fst props)"
      by (simp add: image_mset.compositionality comp_def)
    then show ?thesis
      using V_object.prems(1) by (metis mset_eq_imp_distinct_iff well_formed.simps(9))
  qed
  with * vs(1) show ?case by simp
qed auto


section \<open>The compact text determines the value\<close>

text \<open>What may follow a value inside a document: nothing, a comma, or a closing bracket.\<close>

definition delimiter :: "code_units \<Rightarrow> bool" where
  "delimiter r \<longleftrightarrow> r = [] \<or> hd r \<in> {44, 93, 125}"

lemma delimiter_simps [simp]:
  "delimiter []" "delimiter (44 # r)" "delimiter (93 # r)" "delimiter (125 # r)"
  by (simp_all add: delimiter_def)

abbreviation compact :: "canonical_json \<Rightarrow> code_units" where
  "compact v \<equiv> serialize_canonical_json v 0 0"

lemma serialize_depth: "serialize_canonical_json v 0 d = serialize_canonical_json v 0 e"
proof (induction v arbitrary: d e)
  case (C_array vs)
  have "map (\<lambda>v. serialize_canonical_json v 0 (d + 1)) vs =
      map (\<lambda>v. serialize_canonical_json v 0 (e + 1)) vs"
    by (rule map_cong [OF refl], rule C_array.IH)
  then show ?case by (simp add: Let_def del: map_eq_conv)
next
  case (C_object ps)
  have "map (\<lambda>p. json_quote (fst p) @ [58] @ serialize_canonical_json (snd p) 0 (d + 1)) (sort_key fst ps) =
      map (\<lambda>p. json_quote (fst p) @ [58] @ serialize_canonical_json (snd p) 0 (e + 1)) (sort_key fst ps)"
  proof (rule map_cong [OF refl])
    fix p assume "p \<in> set (sort_key fst ps)"
    then have "p \<in> set ps" by simp
    moreover have "snd p \<in> Basic_BNFs.snds p" by (cases p) simp
    ultimately show "json_quote (fst p) @ [58] @ serialize_canonical_json (snd p) 0 (d + 1) =
        json_quote (fst p) @ [58] @ serialize_canonical_json (snd p) 0 (e + 1)"
      using C_object.IH [of p "snd p" "d + 1" "e + 1"] by simp
  qed
  then show ?case by (simp add: Let_def del: map_eq_conv)
qed auto

lemma hex_lower_inj: "a < 16 \<Longrightarrow> b < 16 \<Longrightarrow> hex_lower a = hex_lower b \<longleftrightarrow> a = b"
  by (auto simp: hex_lower_def)

lemma escape_unit_cases:
  obtains (raw) "escape_unit c = [c]" "c \<noteq> 34" "c \<noteq> 92"
  | (short) t where "escape_unit c = [92, t]" "t \<noteq> 117"
      "(c, t) \<in> {(34, 34), (92, 92), (8, 98), (9, 116), (10, 110), (12, 102), (13, 114)}"
  | (long) "escape_unit c = [92, 117, 48, 48, hex_lower (c div 16), hex_lower (c mod 16)]" "c < 32"
proof -
  have long: "escape_unit c = [92, 117, 48, 48, hex_lower (c div 16), hex_lower (c mod 16)]"
    if "c < 32" "c \<notin> {8, 9, 10, 12, 13}"
  proof -
    have "c div 4096 = 0" "c div 256 = 0" "c div 16 < 2"
      using that(1) by auto
    then show ?thesis
      using that by (auto simp: escape_unit_def unicode_escape_def hex_lower_def)
  qed
  show thesis
  proof (cases "c < 32 \<and> c \<notin> {8, 9, 10, 12, 13}")
    case True
    then show thesis using long that(3) by blast
  next
    case False
    show thesis
    proof (cases "c \<in> {34, 92, 8, 9, 10, 12, 13}")
      case True
      then show thesis using that(2) by (auto simp: escape_unit_def)
    next
      case no: False
      with False show thesis using that(1) by (auto simp: escape_unit_def)
    qed
  qed
qed

lemma div_mod_16_eq: "c div 16 = d div 16 \<Longrightarrow> c mod 16 = d mod 16 \<Longrightarrow> c = (d :: nat)"
  by (metis div_mult_mod_eq)

lemma escape_unit_prefix:
  assumes "escape_unit c @ x = escape_unit d @ y"
  shows "c = d \<and> x = y"
proof (cases c rule: escape_unit_cases)
  case raw
  with assms show ?thesis by (cases d rule: escape_unit_cases) auto
next
  case (short t)
  with assms show ?thesis by (cases d rule: escape_unit_cases) auto
next
  case long
  then have c: "c div 16 < 16" "c mod 16 < 16" by auto
  show ?thesis
  proof (cases d rule: escape_unit_cases)
    case long': long
    then have "d div 16 < 16" "d mod 16 < 16" by auto
    with assms long long' c have "c div 16 = d div 16 \<and> c mod 16 = d mod 16 \<and> x = y"
      by (simp add: hex_lower_inj)
    then show ?thesis using div_mod_16_eq by blast
  qed (use assms long in auto)
qed

lemma escape_unit_not_quote: "escape_unit c @ x \<noteq> 34 # y" "34 # y \<noteq> escape_unit c @ x"
  by (cases c rule: escape_unit_cases; auto)+

lemma escape_surrogate: "high_surrogate c \<or> low_surrogate c \<Longrightarrow> escape_unit c = [c]"
  by (auto simp: escape_unit_def high_surrogate_def low_surrogate_def)

lemma high_low_disjoint: "high_surrogate c \<Longrightarrow> \<not> low_surrogate c"
  by (simp add: high_surrogate_def low_surrogate_def)

lemma quote_body_escapes: "valid_unicode s \<Longrightarrow> quote_body s = concat (map escape_unit s)"
proof (induction s rule: quote_body.induct)
  case (3 c d cs)
  show ?case
  proof (cases "high_surrogate c")
    case True
    with "3.prems" have "low_surrogate d" "valid_unicode cs" by simp_all
    with True "3.IH"(1) show ?thesis by (simp add: escape_surrogate)
  next
    case False
    with "3.prems" have "\<not> low_surrogate c" "valid_unicode (d # cs)" by simp_all
    with False "3.IH"(3) show ?thesis by simp
  qed
qed simp_all

lemma escapes_prefix:
  "concat (map escape_unit s) @ 34 # r = concat (map escape_unit t) @ 34 # r' \<Longrightarrow> s = t \<and> r = r'"
proof (induction s arbitrary: t)
  case Nil
  then show ?case
    by (cases t) (auto simp: escape_unit_not_quote)
next
  case (Cons c s)
  then obtain d t' where t: "t = d # t'"
    by (cases t) (auto simp: escape_unit_not_quote)
  from Cons.prems have "escape_unit c @ (concat (map escape_unit s) @ 34 # r) =
      escape_unit d @ (concat (map escape_unit t') @ 34 # r')"
    by (simp add: t)
  then have "c = d \<and> concat (map escape_unit s) @ 34 # r = concat (map escape_unit t') @ 34 # r'"
    by (rule escape_unit_prefix)
  with Cons.IH show ?case unfolding t by blast
qed

lemma json_quote_prefix:
  assumes "valid_unicode s" and "valid_unicode t" and "json_quote s @ r = json_quote t @ r'"
  shows "s = t \<and> r = r'"
  using assms(3) unfolding json_quote_def quote_body_escapes [OF assms(1)] quote_body_escapes [OF assms(2)]
  by (intro escapes_prefix) simp

text \<open>Numbers: the maximal run of number units is the number's text.\<close>

lemma show_nat_units: "\<forall>c \<in> set (units (show_nat n)). 48 \<le> c \<and> c \<le> 57"
  using show_nat_digits [of n] by (auto simp: units_def list_all_iff is_digit_def)

lemma show_int_number_units: "list_all number_unit (show_int_units i)"
  using show_nat_units [of "nat i"] show_nat_units [of "nat (- i)"]
  by (auto simp: show_int_units_def number_unit_def list_all_iff)

lemma show_int_no_point: "46 \<notin> set (show_int_units i) \<and> 101 \<notin> set (show_int_units i)"
  using show_nat_units [of "nat i"] show_nat_units [of "nat (- i)"]
  by (auto simp: show_int_units_def)

lemma show_int_inj: "show_int_units i = show_int_units j \<Longrightarrow> i = j"
proof -
  have "45 \<notin> set (units (show_nat n))" for n
    using show_nat_units [of n] by auto
  moreover assume "show_int_units i = show_int_units j"
  ultimately show "i = j"
    by (auto simp: show_int_units_def split: if_splits) (metis list.set_intros(1))+
qed

lemma run_prefix:
  assumes "list_all P t" and "list_all P u" and "t @ r = u @ r'"
    and "r = [] \<or> \<not> P (hd r)" and "r' = [] \<or> \<not> P (hd r')"
  shows "t = u \<and> r = r'"
proof -
  have "takeWhile P r = []" and "takeWhile P r' = []"
    using assms(4,5) by (auto simp: takeWhile_eq_Nil_iff)
  then have "takeWhile P (t @ r) = t" and "takeWhile P (u @ r') = u"
    using assms(1,2) by (simp_all add: takeWhile_append2 list_all_iff)
  then have "t = u" using assms(3) by simp
  with assms(3) show ?thesis by simp
qed

lemma delimiter_not_number: "delimiter r \<Longrightarrow> r = [] \<or> \<not> number_unit (hd r)"
  by (auto simp: delimiter_def number_unit_def)

text \<open>Sequences of members, each with a leading comma, up to a closing bracket.\<close>

lemma members_prefix:
  assumes "\<And>x y r r'. x \<in> set xs \<Longrightarrow> y \<in> set ys \<Longrightarrow> delimiter r \<Longrightarrow> delimiter r' \<Longrightarrow>
      enc x @ r = enc y @ r' \<Longrightarrow> x = y \<and> r = r'"
    and "close \<in> {93, 125}"
    and "concat (map (\<lambda>x. 44 # enc x) xs) @ close # r = concat (map (\<lambda>x. 44 # enc x) ys) @ close # r'"
  shows "xs = ys \<and> r = r'"
  using assms(1,3)
proof (induction xs arbitrary: ys)
  case Nil
  then show ?case using assms(2) by (cases ys) auto
next
  case (Cons x xs)
  then obtain y ys' where ys: "ys = y # ys'"
    using assms(2) by (cases ys) auto
  let ?rest = "\<lambda>zs r. concat (map (\<lambda>x. 44 # enc x) zs) @ close # r"
  have d: "delimiter (?rest zs q)" for zs q
    using assms(2) by (cases zs) (auto simp: delimiter_def)
  have "enc x @ ?rest xs r = enc y @ ?rest ys' r'"
    using Cons.prems(2) by (simp add: ys)
  with Cons.prems(1) [of x y "?rest xs r" "?rest ys' r'"] d
  have "x = y" and "?rest xs r = ?rest ys' r'" by (auto simp: ys)
  moreover from this(2) have "xs = ys' \<and> r = r'"
    by (intro Cons.IH) (use Cons.prems(1) in \<open>auto simp: ys\<close>)
  ultimately show ?case by (simp add: ys)
qed

lemma bracketed_prefix:
  assumes "\<And>x y r r'. x \<in> set xs \<Longrightarrow> y \<in> set ys \<Longrightarrow> delimiter r \<Longrightarrow> delimiter r' \<Longrightarrow>
      enc x @ r = enc y @ r' \<Longrightarrow> x = y \<and> r = r'"
    and "\<And>x r q. x \<in> set xs \<union> set ys \<Longrightarrow> enc x @ r \<noteq> close # q"
    and "close \<in> {93, 125}"
    and eq: "join [44] (map enc xs) @ close # r = join [44] (map enc ys) @ close # r'"
  shows "xs = ys \<and> r = r'"
proof -
  have j: "44 # join [44] (map enc zs) = concat (map (\<lambda>x. 44 # enc x) zs)" if "zs \<noteq> []" for zs
    using that by (cases zs) (auto simp: join_Cons comp_def)
  have ne: "join [44] (map enc zs) @ q \<noteq> close # q'" if "zs \<noteq> []" "set zs \<subseteq> set xs \<union> set ys" for zs q q'
    using that assms(2) by (cases zs) (auto simp: join_Cons)
  consider "xs = []" "ys = []" | "xs = []" "ys \<noteq> []" | "xs \<noteq> []" "ys = []" | "xs \<noteq> []" "ys \<noteq> []"
    by blast
  then show ?thesis
  proof cases
    case 1
    with eq show ?thesis by simp
  next
    case 2
    with eq ne [of ys "close # r'" r] show ?thesis by simp
  next
    case 3
    with eq ne [of xs "close # r" r'] show ?thesis by simp
  next
    case 4
    with eq have "concat (map (\<lambda>x. 44 # enc x) xs) @ close # r =
        concat (map (\<lambda>x. 44 # enc x) ys) @ close # r'"
      by (simp flip: j)
    with members_prefix [of xs ys enc close r r'] assms(1,3) show ?thesis by blast
  qed
qed

text \<open>The first unit of a value tells which kind of value it is.\<close>

definition kind_of_unit :: "nat \<Rightarrow> nat" where
  "kind_of_unit c = (if c = 45 \<or> (48 \<le> c \<and> c \<le> 57) then 0 else c)"

fun kind :: "canonical_json \<Rightarrow> nat" where
  "kind C_null = 110"
| "kind (C_bool b) = (if b then 116 else 102)"
| "kind (C_int i) = 0"
| "kind (C_frac t) = 0"
| "kind (C_string s) = 34"
| "kind (C_array vs) = 91"
| "kind (C_object ps) = 123"

lemma units_head:
  "hd (units (c # cs)) = code c" "units (c # cs) = code c # units cs" "units [] = []"
  by (simp_all add: units_def)

lemma code_literals:
  "code CHR ''n'' = 110" "code CHR ''t'' = 116" "code CHR ''f'' = 102" "code CHR ''['' = 91"
  "code CHR ''{'' = 123"
  by (simp_all add: code_def)

lemma compact_head:
  assumes "canonical_ok v"
  shows "compact v \<noteq> [] \<and> kind_of_unit (hd (compact v)) = kind v"
proof (cases v)
  case (C_bool b)
  then show ?thesis by (cases b) (simp_all add: kind_of_unit_def units_head code_literals)
next
  case (C_int i)
  have ne: "units (show_nat n) \<noteq> []" for n
    by (simp add: units_def)
  have "48 \<le> hd (units (show_nat n)) \<and> hd (units (show_nat n)) \<le> 57" for n
    using show_nat_units [of n] hd_in_set [OF ne [of n]] by blast
  with C_int ne show ?thesis by (simp add: kind_of_unit_def show_int_units_def)
next
  case (C_array vs)
  then show ?thesis by (simp add: kind_of_unit_def Let_def units_head code_literals)
next
  case (C_object ps)
  then show ?thesis by (simp add: kind_of_unit_def Let_def units_head code_literals)
qed (use assms in \<open>auto simp: kind_of_unit_def fraction_text_def json_quote_def units_head code_literals\<close>)

lemma compact_array: "compact (C_array vs) = 91 # join [44] (map compact vs) @ [93]"
  using serialize_depth [of _ 1 0] by (simp add: Let_def units_def code_def)

lemma compact_object:
  assumes "canonical_ok (C_object ps)"
  shows "compact (C_object ps) =
    123 # join [44] (map (\<lambda>p. json_quote (fst p) @ 58 # compact (snd p)) ps) @ [125]"
proof -
  have "sort_key fst ps = ps"
    using assms by (simp add: sort_key_id_if_sorted)
  then show ?thesis
    using serialize_depth [of _ 1 0] by (simp add: Let_def units_def code_def)
qed

lemma same_kind:
  assumes "canonical_ok v" and "canonical_ok w" and "compact v @ r = compact w @ r'"
  shows "kind v = kind w"
  using compact_head [OF assms(1)] compact_head [OF assms(2)] assms(3)
  by (metis hd_append2)

lemma number_prefix:
  assumes "canonical_ok v" and "canonical_ok w" and "kind v = 0" and "kind w = 0"
    and "delimiter r" and "delimiter r'" and "compact v @ r = compact w @ r'"
  shows "v = w \<and> r = r'"
proof -
  have num: "list_all number_unit (compact u)" if "canonical_ok u" "kind u = 0" for u
    using that show_int_number_units by (cases u) (auto simp: fraction_text_def split: if_splits)
  have "compact v = compact w \<and> r = r'"
    by (rule run_prefix [OF num num assms(7) delimiter_not_number delimiter_not_number])
      (use assms in simp_all)
  moreover have "v = w" if "compact v = compact w"
    using that assms(1-4) show_int_no_point show_int_inj
    by (cases v; cases w) (auto simp: fraction_text_def split: if_splits)
  ultimately show ?thesis by blast
qed

lemma compact_not_bracket: "canonical_ok v \<Longrightarrow> compact v @ r \<noteq> 93 # q"
proof
  assume "canonical_ok v" and eq: "compact v @ r = 93 # q"
  from compact_head [OF this(1)] have "compact v \<noteq> []" "kind_of_unit (hd (compact v)) = kind v"
    by simp_all
  moreover from eq this(1) have "hd (compact v) = 93" by (cases "compact v") auto
  ultimately have "kind v = 93" by (simp add: kind_of_unit_def)
  then show False by (cases v) (auto split: if_splits)
qed

text \<open>Reading a value off the front of a text is unambiguous.\<close>

theorem compact_prefix:
  assumes "canonical_ok v" and "canonical_ok w" and "delimiter r" and "delimiter r'"
    and "compact v @ r = compact w @ r'"
  shows "v = w \<and> r = r'"
  using assms
proof (induction v arbitrary: w r r')
  case C_null
  have "w = C_null"
    using same_kind [OF C_null.prems(1,2,5)] by (cases w) (auto split: if_splits)
  with C_null.prems(5) show ?case by simp
next
  case (C_bool b)
  have "w = C_bool b"
    using same_kind [OF C_bool.prems(1,2,5)] by (cases w) (auto split: if_splits)
  with C_bool.prems(5) show ?case by simp
next
  case (C_int i)
  have "kind w = 0"
    using same_kind [OF C_int.prems(1,2,5)] by simp
  with number_prefix [OF C_int.prems(1,2) _ _ C_int.prems(3-5)] show ?case by simp
next
  case (C_frac t)
  have "kind w = 0"
    using same_kind [OF C_frac.prems(1,2,5)] by simp
  with number_prefix [OF C_frac.prems(1,2) _ _ C_frac.prems(3-5)] show ?case by simp
next
  case (C_string s)
  then obtain t where w: "w = C_string t"
    using same_kind [OF C_string.prems(1,2,5)] by (cases w) (auto split: if_splits)
  then show ?case using C_string.prems json_quote_prefix [of s t r r'] by simp
next
  case (C_array vs)
  then obtain ws where w: "w = C_array ws"
    using same_kind [OF C_array.prems(1,2,5)] by (cases w) (auto split: if_splits)
  have ok: "\<forall>v \<in> set vs. canonical_ok v" "\<forall>v \<in> set ws. canonical_ok v"
    using C_array.prems(1,2) by (simp_all add: w)
  have "join [44] (map compact vs) @ 93 # r = join [44] (map compact ws) @ 93 # r'"
    using C_array.prems(5) by (simp add: w compact_array del: serialize_canonical_json.simps)
  then have "vs = ws \<and> r = r'"
    by (intro bracketed_prefix [of vs ws compact 93]) (use C_array.IH ok compact_not_bracket in auto)
  then show ?case by (simp add: w)
next
  case (C_object ps)
  then obtain qs where w: "w = C_object qs"
    using same_kind [OF C_object.prems(1,2,5)] by (cases w) (auto split: if_splits)
  let ?enc = "\<lambda>p. json_quote (fst p) @ 58 # compact (snd p)"
  have ok: "\<forall>p \<in> set ps. valid_unicode (fst p) \<and> canonical_ok (snd p)"
    "\<forall>p \<in> set qs. valid_unicode (fst p) \<and> canonical_ok (snd p)"
    using C_object.prems(1,2) by (simp_all add: w)
  have "join [44] (map ?enc ps) @ 125 # r = join [44] (map ?enc qs) @ 125 # r'"
    using C_object.prems(5)
    by (simp add: w compact_object [OF C_object.prems(1)] compact_object [OF C_object.prems(2) [unfolded w]]
        del: serialize_canonical_json.simps)
  then have "ps = qs \<and> r = r'"
  proof (rule bracketed_prefix [of ps qs ?enc 125, rotated 3])
    fix x y s s'
    assume xy: "x \<in> set ps" "y \<in> set qs" "delimiter s" "delimiter s'" "?enc x @ s = ?enc y @ s'"
    then have "fst x = fst y \<and> compact (snd x) @ s = compact (snd y) @ s'"
      using json_quote_prefix [of "fst x" "fst y" "58 # compact (snd x) @ s" "58 # compact (snd y) @ s'"] ok
      by auto
    moreover have "snd x \<in> Basic_BNFs.snds x" by (cases x) simp
    ultimately show "x = y \<and> s = s'"
      using C_object.IH [of x "snd x" "snd y" s s'] xy ok by (auto simp: prod_eq_iff)
  qed (auto simp: json_quote_def)
  then show ?case by (simp add: w)
qed


section \<open>Properties\<close>

text \<open>
  The canonical text identifies the value: two values that both pass validation have the same
  compact text, the bytes every content hash is computed from, exactly when validation maps them
  to the same canonical value. No two different canonical values share a text, whatever strings,
  numbers, nesting and key sets they hold.
\<close>

theorem canonical_text_injective:
  assumes "well_formed u" and "well_formed v"
    and "canonicalize_json u = Inr c" and "canonicalize_json v = Inr d"
  shows "canonical_json_stringify u = canonical_json_stringify v \<longleftrightarrow> c = d"
  using compact_prefix [of c d "[]" "[]"] canonicalize_ok assms
  by (auto simp: canonical_json_stringify_def)

theorem canonical_text_injective_witness:
  "canonical_json_stringify (V_array True [] [Data (V_number (Int_num 12)), Data (V_string [34])]) \<noteq>
   canonical_json_stringify (V_array True [] [Data (V_number (Int_num 1)), Data (V_number (Int_num 2))])"
  (is "canonical_json_stringify ?u \<noteq> canonical_json_stringify ?v")
proof -
  have "canonicalize_json ?u = Inr (C_array [C_int 12, C_string [34]])"
    and "canonicalize_json ?v = Inr (C_array [C_int 1, C_int 2])"
    by (simp_all add: max_safe_integer_def assert_valid_unicode_def under_def high_surrogate_def
        low_surrogate_def)
  from canonical_text_injective [OF _ _ this] show ?thesis by simp
qed

text \<open>
  Key order does not matter: permuting the properties of an object changes neither the
  canonical value, nor which error is reported, nor the text that is hashed.
\<close>

theorem key_order_irrelevant:
  assumes "mset qs = mset ps" and "distinct (map fst ps)"
  shows "canonicalize_json (V_object plain symbols qs) = canonicalize_json (V_object plain symbols ps) \<and>
    canonical_json_stringify (V_object plain symbols qs) = canonical_json_stringify (V_object plain symbols ps)"
proof -
  let ?g = "map_prod id (map_js_slot canonicalize_json)"
  have "inj_on fst (set (map ?g ps))"
  proof -
    have "map fst (map ?g ps) = map fst ps" by simp
    with assms(2) have "distinct (map fst (map ?g ps))" by simp
    then show ?thesis unfolding distinct_map by (rule conjunct2)
  qed
  moreover have "mset (map ?g qs) = mset (map ?g ps)"
    using assms(1) by simp
  ultimately have "sort_key fst (map ?g ps) = sort_key fst (map ?g qs)"
    by (intro sort_key_inj_key_eq) (simp_all only: mset_sort sorted_sort_key)
  then have "canonicalize_json (V_object plain symbols qs) = canonicalize_json (V_object plain symbols ps)"
    by (simp only: canonicalize_json.simps)
  then show ?thesis by (simp add: canonical_json_stringify_def)
qed

theorem key_order_irrelevant_witness:
  "canonical_json_stringify (V_object True False [([98], Data V_null), ([97], Data (V_bool True))]) =
   canonical_json_stringify (V_object True False [([97], Data (V_bool True)), ([98], Data V_null)])"
proof -
  have "mset [([98::nat], Data V_null), ([97], Data (V_bool True))] =
    mset [([97], Data (V_bool True)), ([98], Data V_null)]"
    by simp
  from key_order_irrelevant [OF this, of True False] show ?thesis by simp
qed

end
