(* ===== verification/UnitText.thy ===== *)
theory UnitText
  imports CanonicalJson
begin

text \<open>
  The JavaScript string operations the onboarding read model uses, on UTF-16 code units: labels
  and operator text contain characters above Latin-1. Case mapping covers the ASCII and Latin-1
  letters; other units are left as they are.
\<close>

definition is_space_unit :: "nat \<Rightarrow> bool" where
  "is_space_unit c \<longleftrightarrow>
     (9 \<le> c \<and> c \<le> 13) \<or> (0x2000 \<le> c \<and> c \<le> 0x200A) \<or>
     c \<in> {32, 160, 0x1680, 0x2028, 0x2029, 0x202F, 0x205F, 0x3000, 0xFEFF}"

definition trim_units :: "code_units \<Rightarrow> code_units" where
  "trim_units s = rev (dropWhile is_space_unit (rev (dropWhile is_space_unit s)))"

definition lower_unit :: "nat \<Rightarrow> nat" where
  "lower_unit c =
     (if (65 \<le> c \<and> c \<le> 90) \<or> (192 \<le> c \<and> c \<le> 222 \<and> c \<noteq> 215) then c + 32 else c)"

definition lower_units :: "code_units \<Rightarrow> code_units" where
  "lower_units s = map lower_unit s"

lemma lower_unit_idem [simp]: "lower_unit (lower_unit c) = lower_unit c"
  by (auto simp: lower_unit_def)

lemma lower_units_idem [simp]: "lower_units (lower_units s) = lower_units s"
  by (simp add: lower_units_def)

text \<open>\<open>hay.includes(needle)\<close>.\<close>

fun has_part :: "'a list \<Rightarrow> 'a list \<Rightarrow> bool" where
  "has_part [] n \<longleftrightarrow> n = []"
| "has_part (x # xs) n \<longleftrightarrow> starts_with (x # xs) n \<or> has_part xs n"

lemma includes_iff: "has_part h n \<longleftrightarrow> (\<exists>p q. h = p @ n @ q)"
proof (induction h)
  case (Cons x xs)
  show ?case
  proof
    assume "has_part (x # xs) n"
    then show "\<exists>p q. x # xs = p @ n @ q"
      using Cons by (auto simp: starts_with_iff) (metis append_Cons append_Nil)+
  next
    assume "\<exists>p q. x # xs = p @ n @ q"
    then obtain p q where "x # xs = p @ n @ q" by blast
    then have "starts_with (x # xs) n \<or> (\<exists>p q. xs = p @ n @ q)"
      by (cases p) (auto simp: starts_with_iff)
    then show "has_part (x # xs) n"
      using Cons by auto
  qed
qed (auto simp: starts_with_def)

text \<open>A string that is null or empty is falsy.\<close>

definition present :: "code_units option \<Rightarrow> bool" where
  "present s \<longleftrightarrow> (case s of None \<Rightarrow> False | Some t \<Rightarrow> t \<noteq> [])"

lemma present_simps [simp]: "present None = False" "present (Some t) = (t \<noteq> [])"
  by (simp_all add: present_def)

text \<open>\<open>a ?? b ?? \<dots>\<close> over nullable values.\<close>

fun first_some :: "'a option list \<Rightarrow> 'a option" where
  "first_some [] = None"
| "first_some (Some a # vs) = Some a"
| "first_some (None # vs) = first_some vs"

section \<open>Reading parsed JSON\<close>

text \<open>
  Property access on a parsed JSON value with optional chaining: \<^term>\<open>None\<close> is \<open>undefined\<close>.
  Calling \<open>find\<close> on a value that is not an array throws.
\<close>

datatype type_error = Not_a_function

definition jget :: "code_units \<Rightarrow> canonical_json option \<Rightarrow> canonical_json option" where
  "jget k v = (case v of Some (C_object ps) \<Rightarrow> map_of ps k | _ \<Rightarrow> None)"

definition jstring :: "canonical_json option \<Rightarrow> code_units option" where
  "jstring v = (case v of Some (C_string s) \<Rightarrow> Some s | _ \<Rightarrow> None)"

text \<open>\<open>typeof v === 'string' && v.trim().length > 0 ? v.trim() : null\<close>.\<close>

definition jtext :: "canonical_json option \<Rightarrow> code_units option" where
  "jtext v =
     (case jstring v of
        Some s \<Rightarrow> if trim_units s = [] then None else Some (trim_units s)
      | None \<Rightarrow> None)"

definition jarray :: "canonical_json option \<Rightarrow> (type_error, canonical_json list) result" where
  "jarray v =
     (case v of
        None \<Rightarrow> Inr []
      | Some C_null \<Rightarrow> Inr []
      | Some (C_array xs) \<Rightarrow> Inr xs
      | Some _ \<Rightarrow> Inl Not_a_function)"

text \<open>\<open>String(v)\<close> of a string or a number.\<close>

definition jscalar_text :: "canonical_json option \<Rightarrow> code_units option" where
  "jscalar_text v =
     (case v of
        Some (C_string s) \<Rightarrow> Some s
      | Some (C_int i) \<Rightarrow> Some (show_int_units i)
      | Some (C_frac t) \<Rightarrow> Some t
      | _ \<Rightarrow> None)"

end
