(* ===== verification/ControlledValues.thy ===== *)
theory ControlledValues
  imports UnitText
begin

text \<open>
  Controlled-value identity (\<open>src/src/classification/controlled-value-identity.ts\<close>): the exact
  canonical string of a controlled value, the key candidates are compared by, the collisions that
  make an allowed set ambiguous, and the resolution of candidates and aliases. Unicode
  normalization to form C is the parameter \<open>nfc\<close>; nothing is assumed of it.
\<close>

definition comparison_key :: "(code_units \<Rightarrow> code_units) \<Rightarrow> code_units \<Rightarrow> code_units" where
  "comparison_key nfc v = lower_units (trim_units (nfc v))"

definition canonical_form :: "(code_units \<Rightarrow> code_units) \<Rightarrow> code_units \<Rightarrow> code_units" where
  "canonical_form nfc v = trim_units (nfc v)"

datatype canonical_reason = Empty_value | Control_character | Non_nfc | Not_trimmed

definition control_unit :: "nat \<Rightarrow> bool" where
  "control_unit c \<longleftrightarrow> c < 32 \<or> c = 127"

text \<open>The reason a configured value is not canonical, or \<^term>\<open>None\<close> when it is.\<close>

definition validate_canonical_value ::
    "(code_units \<Rightarrow> code_units) \<Rightarrow> code_units \<Rightarrow> canonical_reason option" where
  "validate_canonical_value nfc v =
     (if v = [] \<or> trim_units v = [] then Some Empty_value
      else if list_ex control_unit v then Some Control_character
      else if v \<noteq> nfc v then Some Non_nfc
      else if v \<noteq> trim_units v then Some Not_trimmed
      else None)"

datatype collision_kind = Exact | Normalized | Case_fold

record canonical_collision =
  cc_a :: code_units
  cc_b :: code_units
  cc_kind :: collision_kind

text \<open>One step of the scan: the two maps seen so far and the collisions of this value.\<close>

definition exact_collision ::
    "(code_units \<times> code_units) list \<Rightarrow> code_units \<Rightarrow> code_units \<Rightarrow>
     canonical_collision list \<times> (code_units \<times> code_units) list" where
  "exact_collision seen form v =
     (case map_of seen form of
        Some prior \<Rightarrow>
          ([\<lparr>cc_a = prior, cc_b = v, cc_kind = (if prior = v then Exact else Normalized)\<rparr>], seen)
      | None \<Rightarrow> ([], (form, v) # seen))"

definition case_fold_collision ::
    "(code_units \<times> code_units) list \<Rightarrow> code_units \<Rightarrow> code_units \<Rightarrow>
     canonical_collision list \<times> (code_units \<times> code_units) list" where
  "case_fold_collision seen key v =
     (case map_of seen key of
        Some prior \<Rightarrow>
          if prior \<noteq> v then ([\<lparr>cc_a = prior, cc_b = v, cc_kind = Case_fold\<rparr>], seen)
          else ([], (key, v) # seen)
      | None \<Rightarrow> ([], (key, v) # seen))"

fun collision_loop ::
    "(code_units \<Rightarrow> code_units) \<Rightarrow> (code_units \<times> code_units) list \<Rightarrow> (code_units \<times> code_units) list \<Rightarrow>
     code_units list \<Rightarrow> canonical_collision list" where
  "collision_loop nfc exact folded [] = []"
| "collision_loop nfc exact folded (v # vs) =
     (let (c1, exact') = exact_collision exact (canonical_form nfc v) v;
          (c2, folded') = case_fold_collision folded (comparison_key nfc v) v
      in c1 @ c2 @ collision_loop nfc exact' folded' vs)"

definition find_canonical_collisions ::
    "(code_units \<Rightarrow> code_units) \<Rightarrow> code_units list \<Rightarrow> canonical_collision list" where
  "find_canonical_collisions nfc vs = collision_loop nfc [] [] vs"

definition match_canonical_value ::
    "(code_units \<Rightarrow> code_units) \<Rightarrow> code_units option \<Rightarrow> code_units list \<Rightarrow> code_units option" where
  "match_canonical_value nfc candidate allowed =
     (let raw = trim_units (case candidate of Some c \<Rightarrow> c | None \<Rightarrow> [])
      in if raw = [] then None
         else let key = comparison_key nfc raw
              in case filter (\<lambda>v. comparison_key nfc v = key) allowed of
                   [v] \<Rightarrow> Some v
                 | _ \<Rightarrow> None)"

record value_alias =
  va_alias :: code_units
  va_maps_to :: code_units

definition resolve_alias ::
    "(code_units \<Rightarrow> code_units) \<Rightarrow> code_units option \<Rightarrow> value_alias list \<Rightarrow> code_units list \<Rightarrow>
     code_units option" where
  "resolve_alias nfc candidate aliases allowed =
     (let raw = (case candidate of Some c \<Rightarrow> c | None \<Rightarrow> [])
      in if raw = [] then None
         else let key = comparison_key nfc raw
              in case filter (\<lambda>e. comparison_key nfc (va_alias e) = key) aliases of
                   [e] \<Rightarrow> if va_maps_to e \<in> set allowed then Some (va_maps_to e) else None
                 | _ \<Rightarrow> None)"

record value_option =
  vo_value :: code_units
  vo_label :: code_units

definition canonical_option :: "code_units \<Rightarrow> value_option" where
  "canonical_option i = \<lparr>vo_value = i, vo_label = i\<rparr>"

definition canonical_options :: "code_units list \<Rightarrow> value_option list" where
  "canonical_options ids = map canonical_option ids"


section \<open>Collisions and resolution\<close>

lemma comparison_key_form: "comparison_key nfc v = lower_units (canonical_form nfc v)"
  by (simp add: comparison_key_def canonical_form_def)

text \<open>
  The maps seen so far record, for every value already scanned, its form and its key; the scan of
  the rest finds nothing exactly when no key repeats.
\<close>

lemma collision_loop_none:
  assumes "map_of exact = map_of (map (\<lambda>v. (canonical_form nfc v, v)) seen)"
    and "map_of folded = map_of (map (\<lambda>v. (comparison_key nfc v, v)) seen)"
    and "distinct (map (comparison_key nfc) seen)"
  shows "collision_loop nfc exact folded vs = [] \<longleftrightarrow> distinct (map (comparison_key nfc) (seen @ vs))"
  using assms
proof (induction vs arbitrary: exact folded seen)
  case (Cons v vs)
  have form: "map_of exact (canonical_form nfc v) = None \<longleftrightarrow> canonical_form nfc v \<notin> canonical_form nfc ` set seen"
    unfolding Cons.prems(1) by (force simp: map_of_eq_None_iff)
  have key: "map_of folded (comparison_key nfc v) = None \<longleftrightarrow> comparison_key nfc v \<notin> comparison_key nfc ` set seen"
    unfolding Cons.prems(2) by (force simp: map_of_eq_None_iff)
  show ?case
  proof (cases "comparison_key nfc v \<in> comparison_key nfc ` set seen")
    case True
    obtain w where w: "map_of folded (comparison_key nfc v) = Some w"
      using True key by (cases "map_of folded (comparison_key nfc v)") auto
    then have "w \<in> set seen" and "comparison_key nfc w = comparison_key nfc v"
      unfolding Cons.prems(2) by (auto dest!: map_of_SomeD)
    moreover have "map_of exact (canonical_form nfc v) \<noteq> None" if "w = v"
      using that \<open>w \<in> set seen\<close> form by blast
    ultimately have "collision_loop nfc exact folded (v # vs) \<noteq> []"
      using w by (cases "w = v") (auto simp: exact_collision_def case_fold_collision_def split: option.splits)
    with True show ?thesis by auto
  next
    case False
    then have "canonical_form nfc v \<notin> canonical_form nfc ` set seen"
      by (auto simp: comparison_key_form image_iff)
    with False form key have
      "exact_collision exact (canonical_form nfc v) v = ([], (canonical_form nfc v, v) # exact)"
      "case_fold_collision folded (comparison_key nfc v) v = ([], (comparison_key nfc v, v) # folded)"
      by (simp_all add: exact_collision_def case_fold_collision_def)
    moreover have "map_of ((canonical_form nfc v, v) # exact) = map_of (map (\<lambda>v. (canonical_form nfc v, v)) (v # seen))"
      "map_of ((comparison_key nfc v, v) # folded) = map_of (map (\<lambda>v. (comparison_key nfc v, v)) (v # seen))"
      using Cons.prems(1,2) by auto
    ultimately show ?thesis
      using Cons.IH [of "(canonical_form nfc v, v) # exact" "v # seen" "(comparison_key nfc v, v) # folded"] Cons.prems(3) False
      by auto
  qed
qed simp

lemma no_collisions_iff:
  "find_canonical_collisions nfc vs = [] \<longleftrightarrow> distinct (map (comparison_key nfc) vs)"
  using collision_loop_none [of "[]" nfc "[]" "[]" vs] by (simp add: find_canonical_collisions_def)

lemma filter_key_unique:
  "distinct (map f vs) \<Longrightarrow> filter (\<lambda>v. f v = k) vs = [w] \<longleftrightarrow> w \<in> set vs \<and> f w = k"
proof (induction vs)
  case (Cons v vs)
  have "filter (\<lambda>u. f u = k) vs = []" if "f v = k"
    using that Cons.prems by (auto simp: filter_empty_conv image_iff)
  with Cons show ?case by (auto simp: image_iff)
qed simp

text \<open>
  In an allowed set without collisions a candidate resolves to a value exactly when the value
  is allowed and has the candidate's key; so no candidate is ambiguous, and every canonical value
  of the set resolves to itself.
\<close>

theorem collision_free_set_resolves:
  assumes "find_canonical_collisions nfc allowed = []"
  shows "(match_canonical_value nfc (Some c) allowed = Some v \<longleftrightarrow>
      trim_units c \<noteq> [] \<and> v \<in> set allowed \<and> comparison_key nfc v = comparison_key nfc (trim_units c)) \<and>
    (v \<in> set allowed \<and> validate_canonical_value nfc v = None \<longrightarrow>
      match_canonical_value nfc (Some v) allowed = Some v)"
proof -
  have d: "distinct (map (comparison_key nfc) allowed)"
    using assms by (simp add: no_collisions_iff)
  have one: "(case m of [w] \<Rightarrow> Some w | _ \<Rightarrow> None) = Some v \<longleftrightarrow> m = [v]" for m :: "code_units list" and v
    by (auto split: list.splits)
  have iff: "match_canonical_value nfc (Some c) allowed = Some v \<longleftrightarrow>
      trim_units c \<noteq> [] \<and> v \<in> set allowed \<and> comparison_key nfc v = comparison_key nfc (trim_units c)" for c v
    by (simp add: match_canonical_value_def Let_def one filter_key_unique [OF d])
  then show ?thesis by (auto simp: validate_canonical_value_def split: if_splits)
qed

text \<open>The two spellings of one name, and a set that leaves them ambiguous.\<close>

theorem collision_free_set_resolves_witness:
  "find_canonical_collisions id [[68, 114, 121], [87, 101, 116]] = [] \<and>
   match_canonical_value id (Some [32, 100, 114, 121]) [[68, 114, 121], [87, 101, 116]] = Some [68, 114, 121] \<and>
   find_canonical_collisions id [[68, 114, 121], [68, 82, 89]] \<noteq> []"
proof -
  note defs = comparison_key_def canonical_form_def trim_units_def lower_units_def is_space_unit_def lower_unit_def
  have f: "find_canonical_collisions id [[68, 114, 121], [87, 101, 116]] = []"
    and c: "find_canonical_collisions id [[68, 114, 121], [68, 82, 89]] \<noteq> []"
    by (simp_all add: no_collisions_iff defs)
  have "trim_units [32, 100, 114, 121] \<noteq> []"
    "comparison_key id [68, 114, 121] = comparison_key id (trim_units [32, 100, 114, 121])"
    by (simp_all add: defs)
  with collision_free_set_resolves [OF f, of "[32, 100, 114, 121]" "[68, 114, 121]"] f c show ?thesis by simp
qed

end
