(* ===== verification/CatalogProduct.thy ===== *)
theory CatalogProduct
  imports UnitText
begin

text \<open>
  The catalog product (\<open>src/src/shared/schemas/product.ts\<close>): the record types the schemas infer and
  the operations on a product's Category Page assignments. A \<open>Record<string, v>\<close> is an association
  list in insertion order; a value of unknown type is a parsed JSON value. Tags that name a member
  of \<open>Object.prototype\<close> are outside the model.
\<close>

section \<open>The product\<close>

record media =
  md_primary :: "code_units option"
  md_additional :: "code_units list"

record inventory =
  iv_quantity :: "int option"
  iv_low_stock :: "int option"
  iv_out_of_stock :: "int option"

record seo =
  se_file_name :: "code_units option"
  se_search_keywords :: "code_units option"
  se_google_category :: "code_units option"

record core_product =
  co_name :: code_units
  co_price :: "code_units option"
  co_sale_price :: "code_units option"
  co_description :: "code_units option"
  co_inventory :: inventory
  co_availability :: "code_units option"
  co_weight :: "code_units option"
  co_taxable :: bool
  co_media :: media
  co_seo :: seo
  co_pages :: "code_units list"

record product_source =
  ps_dbname :: code_units
  ps_unique_name :: code_units

record preserved_fields =
  pf_unknown :: "(code_units \<times> canonical_json) list"
  pf_blocks :: "(code_units \<times> code_units) list"
  pf_attributes :: "(code_units \<times> code_units) list"

record shopsite_meta =
  sm_product_id :: "code_units option"
  sm_product_guid :: "code_units option"
  sm_xml_version :: code_units
  sm_last_pulled_at :: "code_units option"
  sm_last_remote_hash :: "code_units option"
  sm_last_synced_at :: "code_units option"
  sm_source :: product_source
  sm_preserved :: preserved_fields

record image_provenance =
  ip_local_path :: code_units
  ip_source_url :: code_units
  ip_content_hash :: code_units
  ip_asset_id :: "code_units option"
  ip_rights_approval :: code_units
  ip_rights_hash :: code_units

record product_metadata =
  pm_created_at :: code_units
  pm_updated_at :: code_units
  pm_archived_at :: "code_units option"
  pm_provenance :: "image_provenance list option"

datatype product_status = Active_product | Draft_product | Archived_product

record product =
  pr_id :: code_units
  pr_sku :: code_units
  pr_status :: product_status
  pr_core :: core_product
  pr_custom :: "(code_units \<times> code_units) list"
  pr_shopsite :: shopsite_meta
  pr_metadata :: product_metadata

fun status_text :: "product_status \<Rightarrow> code_units" where
  "status_text Active_product = units ''active''"
| "status_text Draft_product = units ''draft''"
| "status_text Archived_product = units ''archived''"

text \<open>\<open>String(v)\<close> of a parsed JSON value.\<close>

fun js_text :: "canonical_json \<Rightarrow> code_units" where
  "js_text C_null = units ''null''"
| "js_text (C_bool b) = units (if b then ''true'' else ''false'')"
| "js_text (C_int i) = show_int_units i"
| "js_text (C_frac t) = t"
| "js_text (C_string s) = s"
| "js_text (C_array vs) =
     join [44] (map (\<lambda>v. case v of C_null \<Rightarrow> [] | _ \<Rightarrow> js_text v) vs)"
| "js_text (C_object ps) = units ''[object Object]''"

section \<open>Page assignments\<close>

text \<open>\<open>Array.from(new Set(xs))\<close>: the first occurrence of each element, in order.\<close>

definition first_occurrences :: "'a list \<Rightarrow> 'a list" where
  "first_occurrences xs = rev (remdups (rev xs))"

definition trimmed_names :: "code_units list \<Rightarrow> code_units list" where
  "trimmed_names ps = filter (\<lambda>p. p \<noteq> []) (map trim_units ps)"

definition get_product_pages :: "product \<Rightarrow> code_units list" where
  "get_product_pages p = first_occurrences (trimmed_names (co_pages (pr_core p)))"

definition add_product_pages :: "product \<Rightarrow> code_units list \<Rightarrow> product" where
  "add_product_pages p new =
     p\<lparr>pr_core := pr_core p\<lparr>co_pages := first_occurrences (get_product_pages p @ trimmed_names new)\<rparr>\<rparr>"

definition remove_product_pages :: "product \<Rightarrow> code_units list \<Rightarrow> product" where
  "remove_product_pages p gone =
     p\<lparr>pr_core := pr_core p\<lparr>co_pages :=
       (let to_remove = map (\<lambda>q. lower_units (trim_units q)) gone
        in filter (\<lambda>q. lower_units q \<notin> set to_remove) (get_product_pages p))\<rparr>\<rparr>"

definition set_product_pages :: "product \<Rightarrow> code_units list \<Rightarrow> product" where
  "set_product_pages p pages =
     p\<lparr>pr_core := pr_core p\<lparr>co_pages := first_occurrences (trimmed_names pages)\<rparr>\<rparr>"

definition has_product_page :: "product \<Rightarrow> code_units \<Rightarrow> bool" where
  "has_product_page p name =
     (if name = [] then False
      else list_ex (\<lambda>q. lower_units q = lower_units (trim_units name)) (get_product_pages p))"

section \<open>Lemmas\<close>

lemma set_first_occurrences [simp]: "set (first_occurrences xs) = set xs"
  by (simp add: first_occurrences_def)

lemma distinct_first_occurrences [simp]: "distinct (first_occurrences xs)"
  by (simp add: first_occurrences_def)

lemma dropWhile_trim_units: "dropWhile is_space_unit (trim_units s) = trim_units s"
proof (cases "dropWhile is_space_unit s")
  case (Cons c cs)
  then have c: "\<not> is_space_unit c"
    by (metis hd_dropWhile list.distinct(1) list.sel(1))
  then have "\<exists>ys. dropWhile is_space_unit (rev (c # cs)) = ys @ [c]"
    by (simp add: dropWhile_append)
  then obtain ys where "dropWhile is_space_unit (rev (c # cs)) = ys @ [c]" ..
  with Cons c show ?thesis by (simp add: trim_units_def)
next
  case Nil
  then show ?thesis unfolding trim_units_def Nil by simp
qed

lemma trim_units_idem [simp]: "trim_units (trim_units s) = trim_units s"
proof -
  let ?t = "trim_units s"
  have "dropWhile is_space_unit (rev ?t) = rev ?t"
    by (simp add: trim_units_def dropWhile_idem)
  then show ?thesis
    by (simp add: trim_units_def [of ?t] dropWhile_trim_units)
qed

lemma trim_units_lower: "is_space_unit (lower_unit c) = is_space_unit c"
  by (auto simp: is_space_unit_def lower_unit_def)

lemma set_trimmed_names: "set (trimmed_names ps) = trim_units ` set ps - {[]}"
  by (auto simp: trimmed_names_def)

lemma bex_trimmed_names:
  "(\<exists>q \<in> set (trimmed_names ps). P q) \<longleftrightarrow> (\<exists>q \<in> set ps. trim_units q \<noteq> [] \<and> P (trim_units q))"
  unfolding set_trimmed_names by blast

lemma lower_units_Nil [simp]: "lower_units s = [] \<longleftrightarrow> s = []"
  by (simp add: lower_units_def)

lemma set_get_pages: "q \<in> set (get_product_pages p) \<longleftrightarrow> q \<in> set (trimmed_names (co_pages (pr_core p)))"
  by (simp add: get_product_pages_def)

lemma has_page_iff:
  "has_product_page p name \<longleftrightarrow>
     name \<noteq> [] \<and> (\<exists>q \<in> set (trimmed_names (co_pages (pr_core p))). lower_units q = lower_units (trim_units name))"
  by (auto simp: has_product_page_def list_ex_iff set_get_pages)

text \<open>The list names the page, up to case and surrounding space.\<close>

definition names_page :: "code_units list \<Rightarrow> code_units \<Rightarrow> bool" where
  "names_page ps n \<longleftrightarrow>
     list_ex (\<lambda>q. trim_units q \<noteq> [] \<and> lower_units (trim_units q) = lower_units (trim_units n)) ps"

lemma has_page_names: "has_product_page p n \<longleftrightarrow> n \<noteq> [] \<and> names_page (co_pages (pr_core p)) n"
  by (simp add: has_page_iff names_page_def list_ex_iff bex_trimmed_names)

lemma trimmed_names_fix:
  "(\<And>x. x \<in> set xs \<Longrightarrow> x \<noteq> [] \<and> trim_units x = x) \<Longrightarrow> trimmed_names xs = xs"
  unfolding trimmed_names_def by (subst map_idI) (auto simp: filter_id_conv)

lemma names_page_first [simp]: "names_page (first_occurrences xs) n = names_page xs n"
  by (simp add: names_page_def list_ex_iff)

lemma names_page_append [simp]: "names_page (xs @ ys) n \<longleftrightarrow> names_page xs n \<or> names_page ys n"
  by (simp add: names_page_def)

lemma names_page_trimmed [simp]: "names_page (trimmed_names xs) n = names_page xs n"
  by (simp add: names_page_def list_ex_iff bex_trimmed_names)

lemma names_page_get [simp]: "names_page (get_product_pages p) n = names_page (co_pages (pr_core p)) n"
  by (simp add: get_product_pages_def)

text \<open>
  Page membership is decided up to case and surrounding space: adding pages assigns exactly
  them beside the old ones, removing takes away exactly the named ones whatever their case, and
  setting assigns exactly the non-blank names given. No list of assignments repeats a name, and
  nothing but the assignments changes.
\<close>

theorem page_assignment_operations:
  "has_product_page (add_product_pages p ps) n = (has_product_page p n \<or> n \<noteq> [] \<and> names_page ps n) \<and>
   has_product_page (remove_product_pages p ps) n = (has_product_page p n \<and> \<not> names_page ps n) \<and>
   has_product_page (set_product_pages p ps) n = (n \<noteq> [] \<and> names_page ps n) \<and>
   distinct (co_pages (pr_core (add_product_pages p ps))) \<and>
   (add_product_pages p ps)\<lparr>pr_core := pr_core (add_product_pages p ps)\<lparr>co_pages := co_pages (pr_core p)\<rparr>\<rparr> = p"
proof -
  have "names_page (co_pages (pr_core (remove_product_pages p ps))) n \<longleftrightarrow>
      (\<exists>q \<in> set (trimmed_names (co_pages (pr_core p))). lower_units q \<notin> (\<lambda>q. lower_units (trim_units q)) ` set ps \<and>
         trim_units q \<noteq> [] \<and> lower_units (trim_units q) = lower_units (trim_units n))"
    by (auto simp: remove_product_pages_def Let_def names_page_def list_ex_iff set_get_pages)
  also have "\<dots> \<longleftrightarrow> names_page (co_pages (pr_core p)) n \<and> \<not> names_page ps n"
    by (auto simp: bex_trimmed_names names_page_def list_ex_iff image_iff) (metis lower_units_Nil)+
  finally have "names_page (co_pages (pr_core (remove_product_pages p ps))) n \<longleftrightarrow>
      names_page (co_pages (pr_core p)) n \<and> \<not> names_page ps n" .
  then show ?thesis
    by (auto simp: has_page_names add_product_pages_def set_product_pages_def)
qed

end
