(* ===== verification/FileNames.thy ===== *)
theory FileNames
  imports CatalogProduct "HOL-Library.AList" "HOL-Library.Multiset"
begin

text \<open>
  File names of the products' detail pages (\<open>src/src/shopsite/file-name.ts\<close>): the slug, the stored
  form, the precedence of sources, the re-import disposition, the assignment of distinct names and
  the duplicate report. The counter loop of the assignment has no bound in the code; here it is a
  function whose termination is proved from the finiteness of the names in use.
\<close>

section \<open>One name\<close>

definition file_name_stem_limit :: nat where
  "file_name_stem_limit = 80"

definition file_name_extension :: code_units where
  "file_name_extension = [46, 104, 116, 109, 108]"

definition slug_unit :: "nat \<Rightarrow> bool" where
  "slug_unit c \<longleftrightarrow> (97 \<le> c \<and> c \<le> 122) \<or> (48 \<le> c \<and> c \<le> 57)"

text \<open>\<open>replace(/[^a-z0-9]+/g, '-')\<close>.\<close>

function dash_runs :: "code_units \<Rightarrow> code_units" where
  "dash_runs [] = []"
| "dash_runs (c # cs) =
     (if slug_unit c then c # dash_runs cs
      else 45 # dash_runs (dropWhile (\<lambda>d. \<not> slug_unit d) cs))"
  by pat_completeness auto
termination
  by (relation "measure length") (auto simp: le_imp_less_Suc length_dropWhile_le)

definition strip_trailing_dashes :: "code_units \<Rightarrow> code_units" where
  "strip_trailing_dashes s = rev (dropWhile (\<lambda>c. c = 45) (rev s))"

definition slugify_file_name :: "code_units \<Rightarrow> code_units" where
  "slugify_file_name name =
     take file_name_stem_limit
       (strip_trailing_dashes (dropWhile (\<lambda>c. c = 45) (dash_runs (lower_units name)))) @ file_name_extension"

text \<open>The argument is the text of the stored value, \<^term>\<open>None\<close> for null and undefined.\<close>

definition normalize_file_name :: "code_units option \<Rightarrow> code_units option" where
  "normalize_file_name value =
     (case value of
        None \<Rightarrow> None
      | Some v \<Rightarrow>
          let trimmed = trim_units v
          in if trimmed = [] then None
             else if lower_units trimmed = file_name_extension then None
             else if ends_with (lower_units trimmed) file_name_extension then Some trimmed
             else Some (trimmed @ file_name_extension))"

text \<open>The text of a value of unknown type; null reads as no value.\<close>

definition unknown_text :: "canonical_json option \<Rightarrow> code_units option" where
  "unknown_text v = (case v of None \<Rightarrow> None | Some C_null \<Rightarrow> None | Some j \<Rightarrow> Some (js_text j))"

definition file_name_tag :: code_units where
  "file_name_tag = units ''FileName''"

definition custom_file_name :: "product \<Rightarrow> code_units option" where
  "custom_file_name p = map_of (pr_custom p) file_name_tag"

definition preserved_file_name :: "product \<Rightarrow> code_units option" where
  "preserved_file_name p = unknown_text (map_of (pf_unknown (sm_preserved (pr_shopsite p))) file_name_tag)"

datatype base_file_name_source = Explicit_name | Preserved_name | Seo_name | Derived_name

definition classify_base_file_name_source :: "product \<Rightarrow> base_file_name_source" where
  "classify_base_file_name_source p =
     (if normalize_file_name (custom_file_name p) \<noteq> None then Explicit_name
      else if normalize_file_name (preserved_file_name p) \<noteq> None then Preserved_name
      else if normalize_file_name (se_file_name (co_seo (pr_core p))) \<noteq> None then Seo_name
      else Derived_name)"

definition resolve_base_file_name :: "product \<Rightarrow> code_units" where
  "resolve_base_file_name p =
     (case normalize_file_name (custom_file_name p) of Some n \<Rightarrow> n | None \<Rightarrow>
      case normalize_file_name (preserved_file_name p) of Some n \<Rightarrow> n | None \<Rightarrow>
      case normalize_file_name (se_file_name (co_seo (pr_core p))) of Some n \<Rightarrow> n | None \<Rightarrow>
        let slug = slugify_file_name (co_name (pr_core p))
        in if slug \<noteq> file_name_extension then slug else slugify_file_name (pr_sku p))"

datatype reimport_disposition =
    Preserve code_units | Allocate_free | Hold_collision code_units code_units

definition resolve_reimport_filename ::
    "code_units option \<Rightarrow> code_units \<Rightarrow> (code_units \<times> code_units) list \<Rightarrow> reimport_disposition" where
  "resolve_reimport_filename pulled sku owners =
     (case normalize_file_name pulled of
        None \<Rightarrow> Allocate_free
      | Some name \<Rightarrow>
          (case map_of owners (lower_units name) of
             None \<Rightarrow> Preserve name
           | Some owner \<Rightarrow> if owner = [] \<or> owner = sku then Preserve name else Hold_collision name owner))"

section \<open>Distinct names\<close>

record file_name_entry =
  fe_key :: code_units
  fe_name :: code_units

definition effective_name :: "file_name_entry \<Rightarrow> code_units" where
  "effective_name e =
     (case normalize_file_name (Some (fe_name e)) of Some n \<Rightarrow> n | None \<Rightarrow> slugify_file_name (fe_key e))"

text \<open>The stem and the extension, split at the last dot.\<close>

definition split_name :: "code_units \<Rightarrow> code_units \<times> code_units" where
  "split_name s =
     (if 46 \<in> set s
      then (rev (tl (dropWhile (\<lambda>c. c \<noteq> 46) (rev s))), 46 # rev (takeWhile (\<lambda>c. c \<noteq> 46) (rev s)))
      else (s, file_name_extension))"

text \<open>\<open>s.slice(0, n)\<close>: a negative bound counts from the end.\<close>

definition slice_to :: "int \<Rightarrow> 'a list \<Rightarrow> 'a list" where
  "slice_to n s = (if 0 \<le> n then take (nat n) s else take (nat (int (length s) + n)) s)"

definition suffixed_name :: "code_units \<Rightarrow> code_units \<Rightarrow> nat \<Rightarrow> code_units" where
  "suffixed_name stem ext counter =
     (let suffix = 45 # units (show_nat counter);
          room = int file_name_stem_limit - int (length suffix)
      in strip_trailing_dashes (slice_to room stem) @ suffix @ ext)"

lemma lower_show_nat [simp]: "lower_units (units (show_nat n)) = units (show_nat n)"
proof -
  have "lower_unit c = c" if "c \<in> set (units (show_nat n))" for c
    using that show_nat_digits [of n] by (auto simp: units_def list_all_iff is_digit_def lower_unit_def)
  then show ?thesis by (simp add: lower_units_def map_idI)
qed

lemma lower_units_append [simp]: "lower_units (s @ t) = lower_units s @ lower_units t"
  by (simp add: lower_units_def)

lemma lower_units_Cons [simp]: "lower_units (c # s) = lower_unit c # lower_units s"
  by (simp add: lower_units_def)

lemma lower_units_empty [simp]: "lower_units [] = []"
  by (simp add: lower_units_def)

lemma lower_unit_dash [simp]: "lower_unit 45 = 45"
  by (simp add: lower_unit_def)

lemma split_at_dash:
  assumes "a @ 45 # p = b @ 45 # (q :: nat list)" and "45 \<notin> set a" and "45 \<notin> set b"
  shows "a = b"
proof -
  have "takeWhile (\<lambda>c. c \<noteq> 45) (a @ 45 # p) = a" and "takeWhile (\<lambda>c. c \<noteq> 45) (b @ 45 # q) = b"
    using assms(2,3) by (auto simp: takeWhile_append)
  with assms(1) show ?thesis by simp
qed

text \<open>Different counters give different names, so only finitely many counters are taken.\<close>

lemma suffixed_name_inj: "inj (\<lambda>n. lower_units (suffixed_name stem ext n))"
proof (rule injI)
  fix m n
  let ?d = "\<lambda>n. rev (units (show_nat n))"
  assume "lower_units (suffixed_name stem ext m) = lower_units (suffixed_name stem ext n)"
  then have eq: "rev (lower_units (suffixed_name stem ext m)) = rev (lower_units (suffixed_name stem ext n))"
    by simp
  have form: "\<exists>p. rev (lower_units (suffixed_name stem ext k)) = rev (lower_units ext) @ ?d k @ 45 # p" for k
    by (simp add: suffixed_name_def Let_def)
  obtain p q where "?d m @ 45 # p = ?d n @ 45 # q"
    using eq form [of m] form [of n] by (metis same_append_eq)
  moreover have "45 \<notin> set (?d k)" for k
    using show_nat_digits [of k] by (auto simp: units_def list_all_iff is_digit_def)
  ultimately have "?d m = ?d n"
    using split_at_dash by blast
  then show "m = n" by simp
qed

lemma finite_taken_counters: "finite {n. lower_units (suffixed_name stem ext n) \<in> set used}"
proof -
  have "finite ((\<lambda>n. lower_units (suffixed_name stem ext n)) -` set used)"
    by (rule finite_vimageI [OF _ suffixed_name_inj]) simp
  then show ?thesis by (simp add: vimage_def)
qed

function free_suffix :: "code_units list \<Rightarrow> code_units \<Rightarrow> code_units \<Rightarrow> nat \<Rightarrow> code_units" where
  "free_suffix used stem ext counter =
     (let candidate = suffixed_name stem ext counter
      in if lower_units candidate \<notin> set used then candidate
         else free_suffix used stem ext (counter + 1))"
  by auto
termination
proof (relation "measure (\<lambda>(used, stem, ext, counter).
    card {n. n \<ge> counter \<and> lower_units (suffixed_name stem ext n) \<in> set used})")
  fix used stem ext counter candidate
  assume "candidate = suffixed_name stem ext counter" "\<not> lower_units candidate \<notin> set used"
  then have "counter \<in> {n. n \<ge> counter \<and> lower_units (suffixed_name stem ext n) \<in> set used}" by simp
  moreover have "finite {n. n \<ge> counter \<and> lower_units (suffixed_name stem ext n) \<in> set used}"
    by (rule finite_subset [OF _ finite_taken_counters [of stem ext used]]) auto
  moreover have "{n. n \<ge> counter + 1 \<and> lower_units (suffixed_name stem ext n) \<in> set used} \<subseteq>
      {n. n \<ge> counter \<and> lower_units (suffixed_name stem ext n) \<in> set used} - {counter}"
    by auto
  ultimately show "((used, stem, ext, counter + 1), used, stem, ext, counter) \<in>
      measure (\<lambda>(used, stem, ext, counter).
        card {n. n \<ge> counter \<and> lower_units (suffixed_name stem ext n) \<in> set used})"
    by (auto intro!: psubset_card_mono)
qed simp

declare free_suffix.simps [simp del]

fun assign_names ::
    "file_name_entry list \<Rightarrow> code_units list \<Rightarrow> (code_units \<times> code_units) list \<Rightarrow>
     (code_units \<times> code_units) list" where
  "assign_names [] used assigned = assigned"
| "assign_names (e # es) used assigned =
     (let normalized = effective_name e;
          name = (if lower_units normalized \<notin> set used then normalized
                  else case split_name normalized of (stem, ext) \<Rightarrow> free_suffix used stem ext 2)
      in assign_names es (lower_units name # used) (AList.update (fe_key e) name assigned))"

definition uniquify_file_names ::
    "file_name_entry list \<Rightarrow> code_units list \<Rightarrow> (code_units \<times> code_units) list" where
  "uniquify_file_names entries taken =
     assign_names (sort_key fe_key entries) (map lower_units taken) []"

record duplicate_file_name_group =
  dg_file_name :: code_units
  dg_keys :: "code_units list"

fun group_names ::
    "file_name_entry list \<Rightarrow> (code_units \<times> duplicate_file_name_group) list \<Rightarrow>
     (code_units \<times> duplicate_file_name_group) list" where
  "group_names [] groups = groups"
| "group_names (e # es) groups =
     (let normalized = effective_name e;
          group = (case map_of groups (lower_units normalized) of
                     Some g \<Rightarrow> g\<lparr>dg_keys := dg_keys g @ [fe_key e]\<rparr>
                   | None \<Rightarrow> \<lparr>dg_file_name = normalized, dg_keys = [fe_key e]\<rparr>)
      in group_names es (AList.update (lower_units normalized) group groups))"

definition find_duplicate_file_names :: "file_name_entry list \<Rightarrow> duplicate_file_name_group list" where
  "find_duplicate_file_names entries =
     filter (\<lambda>g. length (dg_keys g) > 1) (map snd (group_names entries []))"


section \<open>The assignment\<close>

lemma free_suffix_fresh: "lower_units (free_suffix used stem ext n) \<notin> set used"
proof (induction used stem ext n rule: free_suffix.induct)
  case (1 used stem ext n)
  then show ?case
    by (subst free_suffix.simps) (simp add: Let_def)
qed

lemma free_suffix_form: "\<exists>m \<ge> n. free_suffix used stem ext n = suffixed_name stem ext m"
proof (induction used stem ext n rule: free_suffix.induct)
  case (1 used stem ext n)
  show ?case
  proof (cases "lower_units (suffixed_name stem ext n) \<in> set used")
    case True
    then obtain m where "m \<ge> n + 1" "free_suffix used stem ext (n + 1) = suffixed_name stem ext m"
      using "1" by auto
    with True show ?thesis
      by (subst free_suffix.simps) (auto simp: Let_def intro: exI [of _ m])
  qed (subst free_suffix.simps, auto simp: Let_def)
qed

text \<open>The name one entry receives; it is never one in use.\<close>

definition claimed_name :: "code_units list \<Rightarrow> file_name_entry \<Rightarrow> code_units" where
  "claimed_name used e =
     (if lower_units (effective_name e) \<notin> set used then effective_name e
      else case split_name (effective_name e) of (stem, ext) \<Rightarrow> free_suffix used stem ext 2)"

lemma claimed_name_fresh: "lower_units (claimed_name used e) \<notin> set used"
  by (simp add: claimed_name_def free_suffix_fresh split: prod.split)

lemma assign_names_Cons:
  "assign_names (e # es) used assigned =
     assign_names es (lower_units (claimed_name used e) # used) (AList.update (fe_key e) (claimed_name used e) assigned)"
  by (simp add: claimed_name_def Let_def)

declare assign_names.simps(2) [simp del]

text \<open>
  What the loop maintains: the assigned names are in use, differ up to case, and belong to the
  entries already processed.
\<close>

lemma assign_names_invariant:
  assumes "distinct (map fe_key es)" and "fe_key ` set es \<inter> fst ` set assigned = {}"
    and "distinct (map fst assigned)" and "distinct (map (lower_units \<circ> snd) assigned)"
    and "(lower_units \<circ> snd) ` set assigned \<subseteq> set used"
    and "(lower_units \<circ> snd) ` set assigned \<inter> base = {}" and "base \<subseteq> set used"
  shows "let r = assign_names es used assigned in
    map fst r = map fst assigned @ map fe_key es \<and>
    distinct (map (lower_units \<circ> snd) r) \<and> (lower_units \<circ> snd) ` set r \<inter> base = {}"
  using assms
proof (induction es arbitrary: used assigned)
  case (Cons e es)
  let ?n = "claimed_name used e"
  have new: "AList.update (fe_key e) ?n assigned = assigned @ [(fe_key e, ?n)]"
    using Cons.prems(2) by (induction assigned) auto
  have fresh: "lower_units ?n \<notin> set used" by (rule claimed_name_fresh)
  then have "lower_units ?n \<notin> (lower_units \<circ> snd) ` set assigned" and "lower_units ?n \<notin> base"
    using Cons.prems(5,7) by auto
  with Cons.prems have "let r = assign_names es (lower_units ?n # used) (assigned @ [(fe_key e, ?n)]) in
    map fst r = map fst (assigned @ [(fe_key e, ?n)]) @ map fe_key es \<and>
    distinct (map (lower_units \<circ> snd) r) \<and> (lower_units \<circ> snd) ` set r \<inter> base = {}"
    by (intro Cons.IH) auto
  then show ?case
    unfolding assign_names_Cons new by (simp add: Let_def comp_def)
qed simp

lemma distinct_map_sort_key [simp]: "distinct (map f (sort_key f xs)) = distinct (map f xs)"
  by (metis mset_eq_imp_distinct_iff mset_map mset_sort)

lemma uniquify_facts:
  assumes "distinct (map fe_key entries)"
  shows "map fst (uniquify_file_names entries taken) = map fe_key (sort_key fe_key entries)"
    and "distinct (map (lower_units \<circ> snd) (uniquify_file_names entries taken))"
    and "(lower_units \<circ> snd) ` set (uniquify_file_names entries taken) \<inter> lower_units ` set taken = {}"
  using assms assign_names_invariant [of "sort_key fe_key entries" "[]" "map lower_units taken" "lower_units ` set taken"]
  by (simp_all add: uniquify_file_names_def Let_def)

lemma sort_key_mset:
  assumes "mset xs = mset ys" and "distinct (map f xs)"
  shows "sort_key f xs = sort_key f ys"
proof (rule map_sorted_distinct_set_unique)
  show "inj_on f (set (sort_key f xs) \<union> set (sort_key f ys))"
    using assms by (auto simp: distinct_map dest: mset_eq_setD)
  show "distinct (map f (sort_key f ys))"
    using assms by (metis distinct_map_sort_key mset_eq_imp_distinct_iff mset_map)
qed (use assms in \<open>auto dest: mset_eq_setD\<close>)


section \<open>The duplicate report\<close>

definition shared_name :: "file_name_entry \<Rightarrow> code_units" where
  "shared_name e = lower_units (effective_name e)"

definition group_for :: "file_name_entry list \<Rightarrow> code_units \<Rightarrow> duplicate_file_name_group option" where
  "group_for es k =
     (case filter (\<lambda>e. shared_name e = k) es of
        [] \<Rightarrow> None
      | e # gs \<Rightarrow> Some \<lparr>dg_file_name = effective_name e, dg_keys = map fe_key (e # gs)\<rparr>)"

lemma group_for_snoc:
  "group_for (es @ [e]) =
     (group_for es)(shared_name e \<mapsto>
        (case group_for es (shared_name e) of
           Some g \<Rightarrow> g\<lparr>dg_keys := dg_keys g @ [fe_key e]\<rparr>
         | None \<Rightarrow> \<lparr>dg_file_name = effective_name e, dg_keys = [fe_key e]\<rparr>))"
  by (rule ext) (simp add: group_for_def split: list.split)

lemma group_for_Nil: "group_for [] = Map.empty"
  by (rule ext) (simp add: group_for_def)

lemma group_names_correct:
  assumes "map_of groups = group_for seen" and "distinct (map fst groups)"
  shows "map_of (group_names es groups) = group_for (seen @ es) \<and> distinct (map fst (group_names es groups))"
  using assms
proof (induction es arbitrary: groups seen)
  case (Cons e es)
  show ?case
    using Cons.IH [of _ "seen @ [e]"] Cons.prems
    by (simp add: Let_def AList.update_conv' AList.distinct_update group_for_snoc flip: shared_name_def)
qed simp

lemma find_duplicates_set:
  "set (find_duplicate_file_names es) = {g. \<exists>k. group_for es k = Some g \<and> 1 < length (dg_keys g)}"
proof -
  have m: "map_of (group_names es []) = group_for es" and d: "distinct (map fst (group_names es []))"
    using group_names_correct [of "[]" "[]" es] by (auto simp: group_for_Nil)
  have "snd ` set (group_names es []) = {g. \<exists>k. group_for es k = Some g}"
    unfolding m [symmetric] using d by (force simp: map_of_eq_Some_iff)
  then show ?thesis by (auto simp: find_duplicate_file_names_def)
qed

lemma group_for_Some:
  "group_for es k = Some g \<Longrightarrow>
     lower_units (dg_file_name g) = k \<and> dg_keys g = map fe_key (filter (\<lambda>e. shared_name e = k) es)"
  by (auto simp: group_for_def shared_name_def split: list.splits dest!: filter_eq_ConsD)

lemma group_for_shared:
  "(\<exists>g. group_for es k = Some g \<and> 1 < length (dg_keys g)) \<longleftrightarrow> 1 < length (filter (\<lambda>e. shared_name e = k) es)"
  by (cases "filter (\<lambda>e. shared_name e = k) es") (simp_all add: group_for_def)

lemma distinct_map_filter_iff:
  "distinct (map f xs) \<longleftrightarrow> (\<forall>k. length (filter (\<lambda>x. f x = k) xs) \<le> 1)"
proof (induction xs)
  case (Cons x xs)
  have "length (filter (\<lambda>y. f y = f x) xs) = 0 \<longleftrightarrow> f x \<notin> f ` set xs"
    by (auto simp: filter_empty_conv image_iff)
  with Cons show ?case
    by (auto simp: le_Suc_eq split: if_splits)
qed simp

lemma no_duplicates_iff: "find_duplicate_file_names es = [] \<longleftrightarrow> distinct (map shared_name es)"
proof -
  have "find_duplicate_file_names es = [] \<longleftrightarrow>
      (\<forall>k. \<not> (\<exists>g. group_for es k = Some g \<and> 1 < length (dg_keys g)))"
    unfolding set_empty [symmetric] find_duplicates_set by blast
  then show ?thesis
    unfolding group_for_shared distinct_map_filter_iff by (simp add: not_less)
qed

section \<open>Assigned names are stored as they are\<close>

lemma trim_units_fix:
  assumes "\<not> is_space_unit (hd s)" and "\<not> is_space_unit (last s)" and "s \<noteq> []"
  shows "trim_units s = s"
proof -
  have "dropWhile is_space_unit s = s" and "dropWhile is_space_unit (rev s) = rev s"
    using assms by (auto simp: dropWhile_eq_self_iff hd_rev)
  then show ?thesis by (simp add: trim_units_def)
qed

lemma trim_units_ends:
  assumes "trim_units s \<noteq> []"
  shows "\<not> is_space_unit (hd (trim_units s))" and "\<not> is_space_unit (last (trim_units s))"
proof -
  have hd: "\<not> is_space_unit (hd (dropWhile is_space_unit xs))" if "dropWhile is_space_unit xs \<noteq> []" for xs
    using that by (rule hd_dropWhile)
  show "\<not> is_space_unit (last (trim_units s))"
    using assms hd by (simp add: trim_units_def last_rev)
  show "\<not> is_space_unit (hd (trim_units s))"
    using assms hd [of "trim_units s"] by (simp add: dropWhile_trim_units)
qed


text \<open>A name ending in \<open>.html\<close> splits before that ending, whatever its case.\<close>

lemma split_name_html:
  assumes "ends_with (lower_units n) file_name_extension"
  obtains a b where "n = a @ b" and "lower_units b = file_name_extension" and "split_name n = (a, b)"
proof -
  let ?k = "length n - length file_name_extension"
  define a where "a = take ?k n"
  define b where "b = drop ?k n"
  have n: "n = a @ b" by (simp add: a_def b_def)
  have low: "lower_units b = file_name_extension"
    using assms by (simp add: ends_with_def b_def lower_units_def drop_map)
  then obtain c ds where b: "b = c # ds" and "lower_unit c = 46"
    and ds: "lower_units ds = [104, 116, 109, 108]"
    by (cases b) (auto simp: file_name_extension_def)
  then have "c = 46" by (auto simp: lower_unit_def split: if_splits)
  have "46 \<notin> set ds"
  proof
    assume "46 \<in> set ds"
    then have "lower_unit 46 \<in> set (lower_units ds)" by (simp add: lower_units_def)
    then show False unfolding ds by (simp add: lower_unit_def)
  qed
  then have "split_name n = (a, b)"
    unfolding n b \<open>c = 46\<close> by (simp add: split_name_def takeWhile_append dropWhile_append)
  with n low that show thesis by blast
qed

lemma lower_space [simp]: "is_space_unit (lower_unit c) = is_space_unit c"
  by (rule trim_units_lower)

lemma last_lower: "b \<noteq> [] \<Longrightarrow> last (lower_units b) = lower_unit (last b)"
  by (simp add: lower_units_def last_map)

lemma html_end_not_space:
  assumes "lower_units b = file_name_extension"
  shows "b \<noteq> []" and "\<not> is_space_unit (last b)"
proof -
  show "b \<noteq> []" using assms by (auto simp: file_name_extension_def)
  then have "lower_unit (last b) = 108"
    using assms last_lower [of b] by (simp add: file_name_extension_def)
  then show "\<not> is_space_unit (last b)"
    using lower_space [of "last b"] by (simp add: is_space_unit_def)
qed

definition settled :: "code_units \<Rightarrow> bool" where
  "settled n \<longleftrightarrow> normalize_file_name (Some n) = Some n"

lemma settledI:
  assumes "n = a @ b" and "lower_units b = file_name_extension" and "a \<noteq> []" and "\<not> is_space_unit (hd a)"
  shows "settled n"
proof -
  have "trim_units n = n"
    using assms html_end_not_space [OF assms(2)] by (intro trim_units_fix) auto
  moreover have "lower_units n \<noteq> file_name_extension"
    using assms(1-3) by (cases a) (auto simp: file_name_extension_def dest: arg_cong [of _ _ length])
  moreover have "ends_with (lower_units n) file_name_extension"
    unfolding assms(1) by (simp add: assms(2) ends_with_iff)
  ultimately show ?thesis
    using assms(1,3) by (auto simp: settled_def normalize_file_name_def Let_def)
qed

lemma hd_strip_trailing: "strip_trailing_dashes s \<noteq> [] \<Longrightarrow> hd (strip_trailing_dashes s) = hd s"
  unfolding strip_trailing_dashes_def
  by (metis append_Nil hd_append2 rev_append rev_is_Nil_conv rev_rev_ident takeWhile_dropWhile_id)

lemma hd_slice: "slice_to n s \<noteq> [] \<Longrightarrow> hd (slice_to n s) = hd s"
  by (cases s) (auto simp: slice_to_def take_Cons' split: if_splits)

lemma strip_Nil [simp]: "strip_trailing_dashes [] = []" and slice_Nil [simp]: "slice_to n [] = []"
  by (simp_all add: strip_trailing_dashes_def slice_to_def)

lemma suffixed_settled:
  assumes "lower_units b = file_name_extension" and "a \<noteq> [] \<Longrightarrow> \<not> is_space_unit (hd a)"
  shows "settled (suffixed_name a b n)"
proof -
  define s where "s = strip_trailing_dashes (slice_to (int file_name_stem_limit - int (length (45 # units (show_nat n)))) a)"
  have name: "suffixed_name a b n = (s @ 45 # units (show_nat n)) @ b"
    by (simp add: suffixed_name_def s_def Let_def)
  have "\<not> is_space_unit (hd (s @ 45 # units (show_nat n)))"
  proof (cases "s = []")
    case False
    then have "hd s = hd a" "a \<noteq> []"
      unfolding s_def using hd_strip_trailing hd_slice by (metis strip_Nil, metis strip_Nil slice_Nil)
    with False assms(2) show ?thesis by simp
  qed (simp add: is_space_unit_def)
  with assms(1) show ?thesis
    unfolding name by (intro settledI [OF refl]) auto
qed


lemma html_lower [simp]: "lower_units file_name_extension = file_name_extension"
  by (simp add: file_name_extension_def lower_unit_def)

lemma normalized_settled: "normalize_file_name v = Some n \<Longrightarrow> settled n"
proof (cases v)
  case (Some t)
  assume "normalize_file_name v = Some n"
  with Some consider
      "trim_units t \<noteq> []" "n = trim_units t" "lower_units n \<noteq> file_name_extension" "ends_with (lower_units n) file_name_extension"
    | "trim_units t \<noteq> []" "n = trim_units t @ file_name_extension"
    by (auto simp: normalize_file_name_def Let_def split: if_splits)
  then show ?thesis
  proof cases
    case 1
    then show ?thesis by (simp add: settled_def normalize_file_name_def Let_def)
  next
    case 2
    show ?thesis
      by (rule settledI [OF "2"(2) html_lower "2"(1) trim_units_ends(1) [OF "2"(1)]])
  qed
qed (simp add: normalize_file_name_def)

lemma settled_facts:
  assumes "settled n"
  shows "n \<noteq> []" and "\<not> is_space_unit (hd n)" and "ends_with (lower_units n) file_name_extension"
proof -
  have "trim_units n @ file_name_extension \<noteq> n" if "trim_units n \<noteq> []"
  proof
    assume n: "trim_units n @ file_name_extension = n"
    have "hd n = hd (trim_units n)" and "last n = last file_name_extension"
      using that hd_append2 [of "trim_units n" file_name_extension] last_appendR [of file_name_extension "trim_units n"]
      by (simp_all add: n) (simp add: file_name_extension_def)
    then have "trim_units n = n"
      using that trim_units_ends(1) [OF that] html_end_not_space [OF html_lower] n by (intro trim_units_fix) auto
    with n show False by (simp add: file_name_extension_def)
  qed
  with assms have n: "trim_units n = n" "n \<noteq> []" "ends_with (lower_units n) file_name_extension"
    by (auto simp: settled_def normalize_file_name_def Let_def split: if_splits)
  then show "n \<noteq> []" and "ends_with (lower_units n) file_name_extension" by simp_all
  show "\<not> is_space_unit (hd n)"
    using trim_units_ends(1) [of n] n by simp
qed

lemma dash_runs_units: "c \<in> set (dash_runs s) \<Longrightarrow> slug_unit c \<or> c = 45"
  by (induction s rule: dash_runs.induct) (auto split: if_splits)

lemma slugify_form:
  obtains st where "slugify_file_name k = st @ file_name_extension"
    and "\<And>c. c \<in> set st \<Longrightarrow> \<not> is_space_unit c"
proof
  let ?st = "take file_name_stem_limit (strip_trailing_dashes (dropWhile (\<lambda>c. c = 45) (dash_runs (lower_units k))))"
  show "slugify_file_name k = ?st @ file_name_extension"
    by (simp add: slugify_file_name_def)
  fix c assume "c \<in> set ?st"
  then have "c \<in> set (dash_runs (lower_units k))"
    by (auto simp: strip_trailing_dashes_def dest!: in_set_takeD set_dropWhileD)
  then show "\<not> is_space_unit c"
    by (auto dest!: dash_runs_units simp: slug_unit_def is_space_unit_def)
qed

lemma slugify_settled: "slugify_file_name k = file_name_extension \<or> settled (slugify_file_name k)"
proof -
  obtain st where st: "slugify_file_name k = st @ file_name_extension"
    and units: "\<And>c. c \<in> set st \<Longrightarrow> \<not> is_space_unit c"
    using slugify_form [of k] by blast
  show ?thesis
  proof (cases "st = []")
    case False
    then have "\<not> is_space_unit (hd st)" using units [of "hd st"] by simp
    then show ?thesis using settledI [OF st html_lower False] by simp
  qed (simp add: st)
qed

lemma effective_cases:
  "settled (effective_name e) \<or>
   effective_name e = file_name_extension \<and> slugify_file_name (fe_key e) = file_name_extension"
  using slugify_settled [of "fe_key e"] normalized_settled
  by (auto simp: effective_name_def split: option.splits)

lemma claimed_name_stored: "effective_name \<lparr>fe_key = fe_key e, fe_name = claimed_name used e\<rparr> = claimed_name used e"
proof (cases "settled (claimed_name used e)")
  case True
  then show ?thesis by (simp add: effective_name_def settled_def)
next
  case False
  have "lower_units (effective_name e) \<notin> set used"
  proof (rule ccontr)
    assume used: "\<not> lower_units (effective_name e) \<notin> set used"
    have ends: "ends_with (lower_units (effective_name e)) file_name_extension"
      and hd: "\<not> is_space_unit (hd (effective_name e))"
      using effective_cases [of e] settled_facts
      by (auto simp: ends_with_def) (auto simp: file_name_extension_def is_space_unit_def)
    obtain a b where ab: "effective_name e = a @ b" "lower_units b = file_name_extension"
      "split_name (effective_name e) = (a, b)"
      by (rule split_name_html [OF ends])
    obtain m where "claimed_name used e = suffixed_name a b m"
      using free_suffix_form [of 2 used a b] used ab(3) by (auto simp: claimed_name_def)
    moreover have "a \<noteq> [] \<Longrightarrow> \<not> is_space_unit (hd a)" using hd ab(1) by simp
    ultimately show False using False suffixed_settled [OF ab(2)] by metis
  qed
  then have "claimed_name used e = effective_name e" by (simp add: claimed_name_def)
  with False effective_cases [of e] have "claimed_name used e = file_name_extension"
    "slugify_file_name (fe_key e) = file_name_extension" by auto
  moreover have "normalize_file_name (Some file_name_extension) = None"
    by (simp add: normalize_file_name_def Let_def) (simp add: file_name_extension_def trim_units_def is_space_unit_def lower_unit_def)
  ultimately show ?thesis by (simp add: effective_name_def)
qed

lemma assign_names_stored:
  assumes "\<And>k n. (k, n) \<in> set assigned \<Longrightarrow> effective_name \<lparr>fe_key = k, fe_name = n\<rparr> = n"
    and "(k, n) \<in> set (assign_names es used assigned)"
  shows "effective_name \<lparr>fe_key = k, fe_name = n\<rparr> = n"
  using assms
proof (induction es arbitrary: used assigned)
  case (Cons e es)
  have "set (AList.update (fe_key e) (claimed_name used e) assigned) \<subseteq>
      insert (fe_key e, claimed_name used e) (set assigned)"
    by (induction assigned) auto
  with Cons.prems show ?case
    using Cons.IH [of "AList.update (fe_key e) (claimed_name used e) assigned" "lower_units (claimed_name used e) # used"]
      claimed_name_stored [of e used]
    by (auto simp: assign_names_Cons)
qed simp

text \<open>
  C26. Over entries with distinct keys, every entry receives a name; the names differ from each
  other and from the taken ones up to case; they do not depend on the order of the entries; and
  the entries stored with their names pass the duplicate check of the pre-sync validation.
\<close>

theorem assigned_names_are_unique:
  assumes "distinct (map fe_key entries)"
  shows "set (map fst (uniquify_file_names entries taken)) = fe_key ` set entries \<and>
    distinct (map (lower_units \<circ> snd) (uniquify_file_names entries taken)) \<and>
    (lower_units \<circ> snd) ` set (uniquify_file_names entries taken) \<inter> lower_units ` set taken = {} \<and>
    (mset entries' = mset entries \<longrightarrow> uniquify_file_names entries' taken = uniquify_file_names entries taken) \<and>
    find_duplicate_file_names (map (\<lambda>(k, n). \<lparr>fe_key = k, fe_name = n\<rparr>) (uniquify_file_names entries taken)) = []"
proof -
  let ?r = "uniquify_file_names entries taken"
  note facts = uniquify_facts [OF assms, of taken]
  have "map shared_name (map (\<lambda>(k, n). \<lparr>fe_key = k, fe_name = n\<rparr>) ?r) = map (lower_units \<circ> snd) ?r"
    using assign_names_stored [of "[]"] by (auto simp: shared_name_def uniquify_file_names_def)
  then have "find_duplicate_file_names (map (\<lambda>(k, n). \<lparr>fe_key = k, fe_name = n\<rparr>) ?r) = []"
    using facts(2) by (simp only: no_duplicates_iff)
  moreover have "mset entries' = mset entries \<longrightarrow> uniquify_file_names entries' taken = ?r"
    using sort_key_mset [OF _ assms, of entries'] by (auto simp: uniquify_file_names_def)
  ultimately show ?thesis using facts by simp
qed


text \<open>Two products claim one name, in different case; a third name is taken by the live catalog.\<close>

theorem assigned_names_are_unique_witness:
  "\<exists>entries taken. length entries = 2 \<and> find_duplicate_file_names entries \<noteq> [] \<and> taken \<noteq> [] \<and>
     set (map fst (uniquify_file_names entries taken)) = fe_key ` set entries \<and>
     find_duplicate_file_names (map (\<lambda>(k, n). \<lparr>fe_key = k, fe_name = n\<rparr>) (uniquify_file_names entries taken)) = []"
proof (intro exI conjI)
  let ?es = "[\<lparr>fe_key = [50], fe_name = [65, 46, 72, 84, 77, 76]\<rparr>, \<lparr>fe_key = [49], fe_name = [97]\<rparr>]"
  let ?t = "[[97, 45, 50] @ file_name_extension]"
  show "find_duplicate_file_names ?es \<noteq> []"
    by (simp add: no_duplicates_iff shared_name_def effective_name_def normalize_file_name_def Let_def
        trim_units_def is_space_unit_def lower_units_def lower_unit_def ends_with_def file_name_extension_def)
  have d: "distinct (map fe_key ?es)" by simp
  note all = assigned_names_are_unique [OF d, of ?t]
  show "set (map fst (uniquify_file_names ?es ?t)) = fe_key ` set ?es"
    and "find_duplicate_file_names (map (\<lambda>(k, n). \<lparr>fe_key = k, fe_name = n\<rparr>) (uniquify_file_names ?es ?t)) = []"
    using all by blast+
qed simp_all

end
