(* ===== verification/Sha256.thy ===== *)
theory Sha256
  imports Prelude "HOL-Library.Word"
begin

unbundle bit_operations_syntax

text \<open>
  The portable SHA-256 of \<open>src/src/shared/hash.ts\<close>, used wherever Node's crypto module is not
  available. JavaScript's bitwise operators work on 32-bit integers and every sum is reduced with
  \<open>| 0\<close>, so all intermediate values are 32-bit words; only the final \<open>>>> 0\<close> reads them as
  unsigned numbers.
\<close>

type_synonym w32 = "32 word"

type_synonym bytes = "nat list"

section \<open>Constants\<close>

definition sha_k :: "w32 list" where
  "sha_k = concat
    [[0x428a2f98, 0x71374491, 0xb5c0fbcf, 0xe9b5dba5, 0x3956c25b, 0x59f111f1, 0x923f82a4, 0xab1c5ed5],
     [0xd807aa98, 0x12835b01, 0x243185be, 0x550c7dc3, 0x72be5d74, 0x80deb1fe, 0x9bdc06a7, 0xc19bf174],
     [0xe49b69c1, 0xefbe4786, 0x0fc19dc6, 0x240ca1cc, 0x2de92c6f, 0x4a7484aa, 0x5cb0a9dc, 0x76f988da],
     [0x983e5152, 0xa831c66d, 0xb00327c8, 0xbf597fc7, 0xc6e00bf3, 0xd5a79147, 0x06ca6351, 0x14292967],
     [0x27b70a85, 0x2e1b2138, 0x4d2c6dfc, 0x53380d13, 0x650a7354, 0x766a0abb, 0x81c2c92e, 0x92722c85],
     [0xa2bfe8a1, 0xa81a664b, 0xc24b8b70, 0xc76c51a3, 0xd192e819, 0xd6990624, 0xf40e3585, 0x106aa070],
     [0x19a4c116, 0x1e376c08, 0x2748774c, 0x34b0bcb5, 0x391c0cb3, 0x4ed8aa4a, 0x5b9cca4f, 0x682e6ff3],
     [0x748f82ee, 0x78a5636f, 0x84c87814, 0x8cc70208, 0x90befffa, 0xa4506ceb, 0xbef9a3f7, 0xc67178f2]]"

record sha_state =
  ha :: w32
  hb :: w32
  hc :: w32
  hd' :: w32
  he :: w32
  hf :: w32
  hg :: w32
  hh :: w32

definition sha_init :: sha_state where
  "sha_init = \<lparr>ha = 0x6a09e667, hb = 0xbb67ae85, hc = 0x3c6ef372, hd' = 0xa54ff53a,
     he = 0x510e527f, hf = 0x9b05688c, hg = 0x1f83d9ab, hh = 0x5be0cd19\<rparr>"

section \<open>Padding\<close>

definition padding_bits :: "nat \<Rightarrow> nat" where
  "padding_bits len = nat ((448 - (int len * 8 + 8) mod 512 + 512) mod 512)"

definition be32 :: "nat \<Rightarrow> bytes" where
  "be32 n = [n div 16777216 mod 256, n div 65536 mod 256, n div 256 mod 256, n mod 256]"

text \<open>
  The padded message: the bytes, \<open>0x80\<close>, zeros (the fresh \<open>Uint8Array\<close> is zero), and the bit
  length as two big-endian 32-bit halves.
\<close>

definition sha_pad :: "bytes \<Rightarrow> bytes" where
  "sha_pad msg =
     (let len = length msg;
          bit_len = len * 8;
          padding_len = (8 + padding_bits len) div 8 + 8
      in msg @ [128] @ replicate (padding_len - 9) 0 @
         be32 (bit_len div 4294967296) @ be32 (bit_len mod 4294967296))"

section \<open>The message schedule\<close>

fun get_words :: "bytes \<Rightarrow> w32 list" where
  "get_words (a # b # c # d # rest) =
     word_of_nat (((a * 256 + b) * 256 + c) * 256 + d) # get_words rest"
| "get_words _ = []"

definition small_sigma0 :: "w32 \<Rightarrow> w32" where
  "small_sigma0 x =
     (drop_bit 7 x OR push_bit 25 x) XOR (drop_bit 18 x OR push_bit 14 x) XOR drop_bit 3 x"

definition small_sigma1 :: "w32 \<Rightarrow> w32" where
  "small_sigma1 x =
     (drop_bit 17 x OR push_bit 15 x) XOR (drop_bit 19 x OR push_bit 13 x) XOR drop_bit 10 x"

fun extend_schedule :: "nat \<Rightarrow> w32 list \<Rightarrow> w32 list" where
  "extend_schedule 0 w = w"
| "extend_schedule (Suc n) w =
     (let j = length w;
          s0 = small_sigma0 (w ! (j - 15));
          s1 = small_sigma1 (w ! (j - 2))
      in extend_schedule n (w @ [w ! (j - 16) + s0 + w ! (j - 7) + s1]))"

definition schedule :: "bytes \<Rightarrow> w32 list" where
  "schedule block = extend_schedule 48 (get_words block)"

section \<open>The compression loop\<close>

definition big_sigma1 :: "w32 \<Rightarrow> w32" where
  "big_sigma1 e =
     (drop_bit 6 e OR push_bit 26 e) XOR (drop_bit 11 e OR push_bit 21 e) XOR
     (drop_bit 25 e OR push_bit 7 e)"

definition big_sigma0 :: "w32 \<Rightarrow> w32" where
  "big_sigma0 a =
     (drop_bit 2 a OR push_bit 30 a) XOR (drop_bit 13 a OR push_bit 19 a) XOR
     (drop_bit 22 a OR push_bit 10 a)"

definition sha_round :: "sha_state \<Rightarrow> w32 \<times> w32 \<Rightarrow> sha_state" where
  "sha_round s kw =
     (let ch = (he s AND hf s) XOR (NOT (he s) AND hg s);
          temp1 = hh s + big_sigma1 (he s) + ch + fst kw + snd kw;
          maj = (ha s AND hb s) XOR (ha s AND hc s) XOR (hb s AND hc s);
          temp2 = big_sigma0 (ha s) + maj
      in \<lparr>ha = temp1 + temp2, hb = ha s, hc = hb s, hd' = hc s,
          he = hd' s + temp1, hf = he s, hg = hf s, hh = hg s\<rparr>)"

definition sha_block :: "sha_state \<Rightarrow> bytes \<Rightarrow> sha_state" where
  "sha_block s block =
     (let t = foldl sha_round s (zip sha_k (schedule block))
      in \<lparr>ha = ha s + ha t, hb = hb s + hb t, hc = hc s + hc t, hd' = hd' s + hd' t,
          he = he s + he t, hf = hf s + hf t, hg = hg s + hg t, hh = hh s + hh t\<rparr>)"

function sha_blocks :: "sha_state \<Rightarrow> bytes \<Rightarrow> sha_state" where
  "sha_blocks s padded =
     (if padded = [] then s else sha_blocks (sha_block s (take 64 padded)) (drop 64 padded))"
  by pat_completeness auto
termination
  by (relation "measure (\<lambda>(s, p). length p)") auto

declare sha_blocks.simps [simp del]

section \<open>Hexadecimal output\<close>

definition hex_char :: "nat \<Rightarrow> char" where
  "hex_char d = char_of (if d < 10 then 48 + d else 87 + d)"

fun to_string_16 :: "nat \<Rightarrow> string" where
  "to_string_16 n =
     (if n < 16 then [hex_char n] else to_string_16 (n div 16) @ [hex_char (n mod 16)])"

declare to_string_16.simps [simp del]

definition word_hex :: "w32 \<Rightarrow> string" where
  "word_hex v = pad_start 8 CHR ''0'' (to_string_16 (unat v))"

definition pure_sha256 :: "bytes \<Rightarrow> string" where
  "pure_sha256 data =
     (let h = sha_blocks sha_init (sha_pad data)
      in concat (map word_hex [ha h, hb h, hc h, hd' h, he h, hf h, hg h, hh h]))"

definition is_sha256_hex :: "string \<Rightarrow> bool" where
  "is_sha256_hex value \<longleftrightarrow>
     length value = 64 \<and>
     list_all (\<lambda>c. (97 \<le> code c \<and> code c \<le> 102) \<or> (48 \<le> code c \<and> code c \<le> 57)) value"

section \<open>Lemmas\<close>

lemma padding_bits_eq:
  "padding_bits len =
     8 * (let m = (len + 1) mod 64 in if m \<le> 56 then 56 - m else 120 - m)"
proof -
  define m where "m = (len + 1) mod 64"
  have "(int len * 8 + 8) mod 512 = 8 * int m"
  proof -
    have "(int len * 8 + 8) mod 512 = (8 * (int len + 1)) mod (8 * 64)" by (simp add: algebra_simps)
    also have "\<dots> = 8 * ((int len + 1) mod 64)" by (rule mult_mod_right [symmetric])
    finally show ?thesis by (simp add: m_def zmod_int add.commute)
  qed
  moreover have "m < 64" by (simp add: m_def)
  moreover have "(960 - 8 * int m) mod 512 = (if m \<le> 56 then 448 - 8 * int m else 960 - 8 * int m)"
    using \<open>m < 64\<close> mod_add_self2 [of "448 - 8 * int m" 512] by (auto simp: mod_pos_pos_trivial)
  ultimately have "padding_bits len = nat (if m \<le> 56 then 448 - 8 * int m else 960 - 8 * int m)"
    by (simp add: padding_bits_def)
  also have "\<dots> = 8 * (if m \<le> 56 then 56 - m else 120 - m)"
    using \<open>m < 64\<close> by auto
  finally show ?thesis by (simp add: m_def Let_def)
qed

lemma length_sha_pad: "length (sha_pad msg) = length msg + padding_bits (length msg) div 8 + 9"
  by (simp add: sha_pad_def Let_def be32_def)

lemma length_sha_pad_blocks: "\<exists>n. length (sha_pad msg) = 64 * n"
proof -
  define m where "m = (length msg + 1) mod 64"
  define a where "a = (length msg + 1) div 64"
  have "length msg + 1 = 64 * a + m" and "m < 64" by (simp_all add: m_def a_def)
  moreover have "length (sha_pad msg) = length msg + 1 + (if m \<le> 56 then 56 - m else 120 - m) + 8"
    by (simp add: length_sha_pad padding_bits_eq Let_def m_def)
  ultimately have "length (sha_pad msg) = 64 * (a + (if m \<le> 56 then 1 else 2))"
    by auto
  then show ?thesis ..
qed

lemma rotr_shifts:
  assumes "0 < n" and "n < 32"
  shows "drop_bit n (x :: w32) OR push_bit (32 - n) x = word_rotr n x"
proof (rule bit_word_eqI)
  fix i assume "i < LENGTH(32)"
  then have i: "i < 32" by simp
  have out: "\<not> bit x (i + n)" if "32 \<le> i + n"
    using that bit_imp_le_length [of x "i + n"] by auto
  show "bit (drop_bit n x OR push_bit (32 - n) x) i = bit (word_rotr n x) i"
  proof (cases "i + n < 32")
    case True
    with assms i show ?thesis
      by (auto simp: bit_or_iff bit_drop_bit_eq bit_push_bit_iff bit_word_rotr_iff add.commute)
  next
    case False
    then have "(i + n) mod 32 = i + n - 32" using assms i by (simp add: le_mod_geq)
    with False assms i out show ?thesis
      by (auto simp: bit_or_iff bit_drop_bit_eq bit_push_bit_iff bit_word_rotr_iff add.commute)
  qed
qed



lemma be32_inj: "m < 4294967296 \<Longrightarrow> n < 4294967296 \<Longrightarrow> be32 m = be32 n \<longleftrightarrow> m = n"
proof
  assume lt: "m < 4294967296" "n < 4294967296" and eq: "be32 m = be32 n"
  have digit: "k div q = k div (q * 256) * 256 + k div q mod 256" for k q :: nat
    using div_mult_mod_eq [of "k div q" 256] by (simp add: div_mult2_eq)
  have split: "k = (((k div 16777216 mod 256) * 256 + k div 65536 mod 256) * 256 + k div 256 mod 256) * 256
      + k mod 256" if "k < 4294967296" for k :: nat
  proof -
    have "k div 16777216 mod 256 = k div 16777216" using that by (simp add: div_less_iff_less_mult)
    then show ?thesis
      using digit [of k 65536] digit [of k 256] digit [of k 1] by simp
  qed
  show "m = n"
    using split [OF lt(1)] split [OF lt(2)] eq unfolding be32_def by (simp only: list.inject)
qed simp

lemma length_be32 [simp]: "length (be32 n) = 4"
  by (simp add: be32_def)

lemma hex_char_range:
  "d < 16 \<Longrightarrow> (97 \<le> code (hex_char d) \<and> code (hex_char d) \<le> 102) \<or>
     (48 \<le> code (hex_char d) \<and> code (hex_char d) \<le> 57)"
  by (auto simp: hex_char_def)

lemma to_string_16_length: "n < 16 ^ Suc k \<Longrightarrow> length (to_string_16 n) \<le> Suc k"
proof (induction k arbitrary: n)
  case 0
  then show ?case by (simp add: to_string_16.simps [of n])
next
  case (Suc k)
  then have "n div 16 < 16 ^ Suc k" by (simp add: div_less_iff_less_mult mult.commute)
  with Suc.IH show ?case by (simp add: to_string_16.simps [of n])
qed

lemma to_string_16_hex:
  "\<forall>c \<in> set (to_string_16 n). (97 \<le> code c \<and> code c \<le> 102) \<or> (48 \<le> code c \<and> code c \<le> 57)"
proof (induction n rule: to_string_16.induct)
  case (1 n)
  show ?case
  proof (cases "n < 16")
    case True
    then show ?thesis using hex_char_range by (simp add: to_string_16.simps [of n])
  next
    case False
    with 1 hex_char_range [of "n mod 16"] show ?thesis by (auto simp: to_string_16.simps [of n])
  qed
qed

lemma word_hex_shape:
  "length (word_hex v) = 8 \<and>
   (\<forall>c \<in> set (word_hex v). (97 \<le> code c \<and> code c \<le> 102) \<or> (48 \<le> code c \<and> code c \<le> 57))"
proof -
  have "unat v < 16 ^ Suc 7"
  proof -
    have "unat v < 2 ^ LENGTH(32)" by (rule unsigned_less)
    then show ?thesis by simp
  qed
  then have "length (to_string_16 (unat v)) \<le> 8"
    using to_string_16_length [of "unat v" 7] by simp
  then have "length (word_hex v) = 8" by (simp add: word_hex_def)
  moreover have "code CHR ''0'' = 48" by (simp add: code_def)
  ultimately show ?thesis
    using to_string_16_hex [of "unat v"] by (auto simp: word_hex_def pad_start_def)
qed

lemma length_get_words: "length bs = 4 * n \<Longrightarrow> length (get_words bs) = n"
proof (induction bs arbitrary: n rule: get_words.induct)
  case (1 a b c d rest)
  then show ?case by (cases n) auto
qed auto

lemma length_extend: "length (extend_schedule n w) = length w + n"
  by (induction n arbitrary: w) (simp_all add: Let_def)

lemma extend_prefix: "i < length w \<Longrightarrow> extend_schedule n w ! i = w ! i"
  by (induction n arbitrary: w) (simp_all add: Let_def nth_append)

text \<open>Every entry past the first sixteen satisfies the schedule recurrence.\<close>

lemma extend_recurrence:
  assumes "16 \<le> length w" and "length w \<le> j" and "j < length w + n"
  shows "extend_schedule n w ! j =
    extend_schedule n w ! (j - 16) + small_sigma0 (extend_schedule n w ! (j - 15)) +
    extend_schedule n w ! (j - 7) + small_sigma1 (extend_schedule n w ! (j - 2))"
  using assms
proof (induction n arbitrary: w)
  case (Suc n)
  let ?l = "length w"
  let ?x = "w ! (?l - 16) + small_sigma0 (w ! (?l - 15)) + w ! (?l - 7) + small_sigma1 (w ! (?l - 2))"
  have step: "extend_schedule (Suc n) w = extend_schedule n (w @ [?x])"
    by (simp add: Let_def)
  show ?case
  proof (cases "j = ?l")
    case True
    then have "extend_schedule n (w @ [?x]) ! i = (w @ [?x]) ! i" if "i \<le> ?l" for i
      using that by (intro extend_prefix) simp
    moreover have "w \<noteq> []" using Suc.prems(1) by auto
    ultimately show ?thesis
      using True Suc.prems(1) unfolding step by (simp add: nth_append)
  next
    case False
    with Suc.prems Suc.IH [of "w @ [?x]"] show ?thesis unfolding step by simp
  qed
qed simp


section \<open>Properties\<close>

text \<open>
  The message schedule the loop builds is the one of FIPS 180-4: sixteen big-endian words of
  the block, then forty-eight words by the recurrence whose sigma functions are rotations; the
  shift-or expressions of the code are those rotations, for the round functions as well.
\<close>

theorem schedule_meets_fips:
  assumes "length block = 64"
  shows "length (schedule block) = 64 \<and>
    (\<forall>j < 16. schedule block ! j = get_words block ! j) \<and>
    (\<forall>j \<in> {16..<64}. schedule block ! j =
       schedule block ! (j - 16)
       + (let x = schedule block ! (j - 15) in word_rotr 7 x XOR word_rotr 18 x XOR drop_bit 3 x)
       + schedule block ! (j - 7)
       + (let x = schedule block ! (j - 2) in word_rotr 17 x XOR word_rotr 19 x XOR drop_bit 10 x)) \<and>
    big_sigma0 a = word_rotr 2 a XOR word_rotr 13 a XOR word_rotr 22 a \<and>
    big_sigma1 e = word_rotr 6 e XOR word_rotr 11 e XOR word_rotr 25 e"
proof -
  have len: "length (get_words block) = 16"
    using assms by (intro length_get_words) simp
  have rot: "drop_bit 7 x OR push_bit 25 x = word_rotr 7 x" "drop_bit 18 x OR push_bit 14 x = word_rotr 18 x"
    "drop_bit 17 x OR push_bit 15 x = word_rotr 17 x" "drop_bit 19 x OR push_bit 13 x = word_rotr 19 x"
    "drop_bit 2 x OR push_bit 30 x = word_rotr 2 x" "drop_bit 13 x OR push_bit 19 x = word_rotr 13 x"
    "drop_bit 22 x OR push_bit 10 x = word_rotr 22 x" "drop_bit 6 x OR push_bit 26 x = word_rotr 6 x"
    "drop_bit 11 x OR push_bit 21 x = word_rotr 11 x" "drop_bit 25 x OR push_bit 7 x = word_rotr 25 x"
    for x :: w32
    using rotr_shifts [of 7 x] rotr_shifts [of 18 x] rotr_shifts [of 17 x] rotr_shifts [of 19 x]
      rotr_shifts [of 2 x] rotr_shifts [of 13 x] rotr_shifts [of 22 x] rotr_shifts [of 6 x]
      rotr_shifts [of 11 x] rotr_shifts [of 25 x] by simp_all
  have rec: "schedule block ! j = schedule block ! (j - 16)
       + (let x = schedule block ! (j - 15) in word_rotr 7 x XOR word_rotr 18 x XOR drop_bit 3 x)
       + schedule block ! (j - 7)
       + (let x = schedule block ! (j - 2) in word_rotr 17 x XOR word_rotr 19 x XOR drop_bit 10 x)"
    if "j \<in> {16..<64}" for j
    using that extend_recurrence [of "get_words block" j 48] len
    by (simp add: schedule_def small_sigma0_def small_sigma1_def rot Let_def)
  have "\<forall>j < 16. schedule block ! j = get_words block ! j"
    using extend_prefix [of _ "get_words block"] len by (simp add: schedule_def)
  with len rec show ?thesis
    by (simp add: schedule_def length_extend big_sigma0_def big_sigma1_def rot)
qed

theorem schedule_meets_fips_witness:
  "length (schedule (replicate 64 7)) = 64"
proof -
  have "length (replicate 64 (7::nat)) = 64" by simp
  from schedule_meets_fips [OF this] show ?thesis by blast
qed

text \<open>
  Padding is lossless and block-aligned: the padded message is a whole number of 64-byte
  blocks, at most 72 bytes longer, and no two messages (shorter than 2^61 bytes) have the same
  padded form, so distinct messages always enter the compression as distinct block sequences.
\<close>

theorem sha_pad_injective:
  assumes "length m * 8 < 2 ^ 64" and "length n * 8 < 2 ^ 64"
  shows "(sha_pad m = sha_pad n \<longleftrightarrow> m = n) \<and> length (sha_pad m) mod 64 = 0 \<and>
    length m < length (sha_pad m) \<and> length (sha_pad m) \<le> length m + 72"
proof -
  have "m = n" if eq: "sha_pad m = sha_pad n"
  proof -
    have tail: "drop (length (sha_pad x) - 8) (sha_pad x) =
        be32 (length x * 8 div 4294967296) @ be32 (length x * 8 mod 4294967296)" for x
    proof -
      let ?t = "be32 (length x * 8 div 4294967296) @ be32 (length x * 8 mod 4294967296)"
      obtain p where "sha_pad x = p @ ?t"
        by (metis append_assoc sha_pad_def)
      then show ?thesis by simp
    qed
    have "be32 (length m * 8 div 4294967296) = be32 (length n * 8 div 4294967296)"
      and "be32 (length m * 8 mod 4294967296) = be32 (length n * 8 mod 4294967296)"
      using tail [of m] tail [of n] eq by simp_all
    moreover have "length m * 8 div 4294967296 < 4294967296" "length n * 8 div 4294967296 < 4294967296"
      using assms by (simp_all add: div_less_iff_less_mult)
    ultimately have "length m * 8 div 4294967296 = length n * 8 div 4294967296"
      "length m * 8 mod 4294967296 = length n * 8 mod 4294967296"
      by (simp_all add: be32_inj)
    then have "length m * 8 = length n * 8" by (metis div_mult_mod_eq)
    then have "length m = length n" by simp
    moreover have "take (length m) (sha_pad m) = m" "take (length n) (sha_pad n) = n"
      by (simp_all add: sha_pad_def Let_def)
    ultimately show ?thesis using eq by metis
  qed
  moreover obtain k where "length (sha_pad m) = 64 * k" using length_sha_pad_blocks [of m] ..
  moreover have "padding_bits (length m) div 8 \<le> 63"
    by (auto simp: padding_bits_eq Let_def)
  ultimately show ?thesis by (auto simp: length_sha_pad)
qed

theorem sha_pad_injective_witness:
  "sha_pad [97, 98] \<noteq> sha_pad [97, 98, 0]"
  using sha_pad_injective [of "[97, 98]" "[97, 98, 0]"] by simp

text \<open>The output always has the shape the program accepts as a hash.\<close>

lemma pure_sha256_hex: "is_sha256_hex (pure_sha256 data)"
  using word_hex_shape by (auto simp: pure_sha256_def is_sha256_hex_def Let_def list_all_iff)

end
