(* ===== verification/ContentHash.thy ===== *)
theory ContentHash
  imports CanonicalJson Sha256
begin

text \<open>
  Content hashes: the canonical JSON text in UTF-8 under SHA-256 (\<open>src/src/shared/stable-id.ts\<close>,
  \<open>src/src/shared/hash.ts\<close>), and the legacy 32-bit hash kept for persisted rows
  (\<open>src/src/git/deterministic-json.ts\<close>).
\<close>

section \<open>UTF-8\<close>

text \<open>
  \<open>TextEncoder.encode\<close>: a surrogate pair is one four-byte sequence, a lone surrogate is replaced
  by U+FFFD.
\<close>

definition utf8_scalar :: "nat \<Rightarrow> bytes" where
  "utf8_scalar c =
     (if c < 128 then [c]
      else if c < 2048 then [192 + c div 64, 128 + c mod 64]
      else if c < 65536 then [224 + c div 4096, 128 + c div 64 mod 64, 128 + c mod 64]
      else [240 + c div 262144, 128 + c div 4096 mod 64, 128 + c div 64 mod 64, 128 + c mod 64])"

definition pair_scalar :: "nat \<Rightarrow> nat \<Rightarrow> nat" where
  "pair_scalar hi lo = 65536 + (hi - 55296) * 1024 + (lo - 56320)"

fun utf8_encode :: "code_units \<Rightarrow> bytes" where
  "utf8_encode [] = []"
| "utf8_encode [c] = utf8_scalar (if high_surrogate c \<or> low_surrogate c then 65533 else c)"
| "utf8_encode (c # d # cs) =
     (if high_surrogate c \<and> low_surrogate d then utf8_scalar (pair_scalar c d) @ utf8_encode cs
      else utf8_scalar (if high_surrogate c \<or> low_surrogate c then 65533 else c) @ utf8_encode (d # cs))"

section \<open>SHA-256 and the canonical hash\<close>

text \<open>
  \<open>sha256\<close> asks Node's crypto module first, which may be absent or throw; \<open>node\<close> stands for it,
  with \<open>None\<close> for a call that throws.
\<close>

definition sha256 :: "(bytes \<Rightarrow> string option) option \<Rightarrow> bytes \<Rightarrow> string" where
  "sha256 node data =
     (case node of
        Some create_hash \<Rightarrow> (case create_hash data of Some h \<Rightarrow> h | None \<Rightarrow> pure_sha256 data)
      | None \<Rightarrow> pure_sha256 data)"

definition canonical_json_utf8 :: "js_value \<Rightarrow> (json_error, bytes) result" where
  "canonical_json_utf8 v = bind_res (canonical_json_stringify v) (\<lambda>t. Inr (utf8_encode t))"

definition sha256_hex :: "bytes \<Rightarrow> string" where
  "sha256_hex data = sha256 None data"

definition hash_canonical_json :: "js_value \<Rightarrow> (json_error, string) result" where
  "hash_canonical_json v = bind_res (canonical_json_utf8 v) (\<lambda>b. Inr (sha256_hex b))"

section \<open>The legacy hash\<close>

definition deterministic_stringify :: "js_value \<Rightarrow> int \<Rightarrow> (file_string_error, code_units) result" where
  "deterministic_stringify v indent = canonical_json_file_string v indent"

fun hash_loop :: "32 word \<Rightarrow> code_units \<Rightarrow> 32 word" where
  "hash_loop h [] = h"
| "hash_loop h (c # cs) = hash_loop ((push_bit 5 h - h) + of_nat c) cs"

definition digit_36 :: "nat \<Rightarrow> char" where
  "digit_36 d = char_of (if d < 10 then 48 + d else 87 + d)"

fun to_string_36 :: "nat \<Rightarrow> string" where
  "to_string_36 n = (if n < 36 then [digit_36 n] else to_string_36 (n div 36) @ [digit_36 (n mod 36)])"

declare to_string_36.simps [simp del]

text \<open>\<open>hashJson\<close> of the text the legacy serializer produces: a signed 32-bit hash, then \<open>Math.abs\<close>.\<close>

definition hash_json_text :: "code_units \<Rightarrow> string" where
  "hash_json_text s = to_string_36 (nat \<bar>sint (hash_loop 0 s)\<bar>)"

section \<open>UTF-8 is lossless on valid strings\<close>

fun utf8_decode :: "bytes \<Rightarrow> code_units" where
  "utf8_decode (a # bs) =
     (if a < 128 then a # utf8_decode bs
      else if a < 224 then
        (case bs of b # r \<Rightarrow> ((a - 192) * 64 + (b - 128)) # utf8_decode r | _ \<Rightarrow> [])
      else if a < 240 then
        (case bs of b # c # r \<Rightarrow> ((a - 224) * 4096 + (b - 128) * 64 + (c - 128)) # utf8_decode r | _ \<Rightarrow> [])
      else
        (case bs of
           b # c # d # r \<Rightarrow>
             (let v = (a - 240) * 262144 + (b - 128) * 4096 + (c - 128) * 64 + (d - 128) - 65536
              in (55296 + v div 1024) # (56320 + v mod 1024) # utf8_decode r)
         | _ \<Rightarrow> []))"
| "utf8_decode [] = []"

lemma split_64: "(c :: nat) div 64 * 64 + c mod 64 = c"
  by simp

lemma split_4096: "(c :: nat) div 4096 * 4096 + c div 64 mod 64 * 64 + c mod 64 = c"
proof -
  have "c div 64 div 64 * 64 + c div 64 mod 64 = c div 64" by simp
  then have "c div 4096 * 64 + c div 64 mod 64 = c div 64" by (simp add: div_mult2_eq [symmetric])
  then have "(c div 4096 * 64 + c div 64 mod 64) * 64 + c mod 64 = c" by simp
  then show ?thesis by (simp add: algebra_simps)
qed

lemma split_262144:
  "(c :: nat) div 262144 * 262144 + c div 4096 mod 64 * 4096 + c div 64 mod 64 * 64 + c mod 64 = c"
proof -
  have "c div 4096 div 64 * 64 + c div 4096 mod 64 = c div 4096" by simp
  then have "c div 262144 * 64 + c div 4096 mod 64 = c div 4096" by (simp add: div_mult2_eq [symmetric])
  then have "(c div 262144 * 64 + c div 4096 mod 64) * 4096 + c div 64 mod 64 * 64 + c mod 64 = c"
    using split_4096 [of c] by simp
  then show ?thesis by (simp add: algebra_simps)
qed

lemma decode_scalar:
  assumes "c < 65536"
  shows "utf8_decode (utf8_scalar c @ r) = c # utf8_decode r"
proof -
  consider "c < 128" | "128 \<le> c" "c < 2048" | "2048 \<le> c" by linarith
  then show ?thesis
  proof cases
    case 2
    then have "c div 64 < 32" by (simp add: less_mult_imp_div_less)
    with 2 split_64 [of c] show ?thesis by (simp add: utf8_scalar_def)
  next
    case 3
    then have "c div 4096 < 16" using assms by (simp add: less_mult_imp_div_less)
    with 3 assms split_4096 [of c] show ?thesis by (simp add: utf8_scalar_def)
  qed (simp add: utf8_scalar_def)
qed

lemma decode_pair:
  assumes "high_surrogate hi" and "low_surrogate lo"
  shows "utf8_decode (utf8_scalar (pair_scalar hi lo) @ r) = hi # lo # utf8_decode r"
proof -
  let ?v = "pair_scalar hi lo"
  have ge: "\<not> ?v < 65536" "?v - 65536 = (hi - 55296) * 1024 + (lo - 56320)"
    by (simp_all add: pair_scalar_def)
  have b: "55296 \<le> hi" "56320 \<le> lo" "lo \<le> 57343"
    using assms by (simp_all add: high_surrogate_def low_surrogate_def)
  then have "lo - 56320 < 1024" by linarith
  with b have r: "55296 + (?v - 65536) div 1024 = hi" "56320 + (?v - 65536) mod 1024 = lo"
    unfolding ge by (simp_all only: add_diff_cancel_left' div_mult_self3 mod_mult_self3 div_less mod_less)
  have "(240 + ?v div 262144 - 240) * 262144 + (128 + ?v div 4096 mod 64 - 128) * 4096 +
      (128 + ?v div 64 mod 64 - 128) * 64 + (128 + ?v mod 64 - 128) = ?v"
    using split_262144 [of ?v] by simp
  moreover have "utf8_scalar ?v = [240 + ?v div 262144, 128 + ?v div 4096 mod 64,
      128 + ?v div 64 mod 64, 128 + ?v mod 64]"
    using ge(1) by (simp add: utf8_scalar_def)
  ultimately show ?thesis
    using r by (simp only: append.simps utf8_decode.simps list.case Let_def) simp
qed

definition units_16 :: "code_units \<Rightarrow> bool" where
  "units_16 s \<longleftrightarrow> list_all (\<lambda>c. c < 65536) s"

lemma utf8_roundtrip: "valid_unicode s \<Longrightarrow> units_16 s \<Longrightarrow> utf8_decode (utf8_encode s) = s"
proof (induction s rule: utf8_encode.induct)
  case (2 c)
  then show ?case using decode_scalar [of c "[]"] by (simp add: units_16_def)
next
  case (3 c d cs)
  show ?case
  proof (cases "high_surrogate c")
    case True
    with "3.prems" "3.IH"(1) show ?thesis by (simp add: decode_pair units_16_def)
  next
    case False
    with "3.prems" "3.IH"(2) show ?thesis by (simp add: decode_scalar units_16_def)
  qed
qed (simp add: units_16_def)

lemma utf8_encode_inj:
  assumes "valid_unicode s" "units_16 s" "valid_unicode t" "units_16 t"
  shows "utf8_encode s = utf8_encode t \<longleftrightarrow> s = t"
  using assms utf8_roundtrip by metis

section \<open>The canonical text is valid Unicode\<close>

lemma valid_unicode_append: "valid_unicode s \<Longrightarrow> valid_unicode t \<Longrightarrow> valid_unicode (s @ t)"
proof (induction s rule: valid_unicode.induct)
  case (2 c)
  then show ?case by (cases t) simp_all
qed (auto split: if_splits)

lemma valid_unicode_ascii: "\<forall>c \<in> set s. c < 55296 \<Longrightarrow> valid_unicode s"
  by (induction s rule: valid_unicode.induct) (auto simp: high_surrogate_def low_surrogate_def)

lemma valid_unicode_Cons: "c < 55296 \<Longrightarrow> valid_unicode s \<Longrightarrow> valid_unicode (c # s)"
  using valid_unicode_append [of "[c]" s] valid_unicode_ascii [of "[c]"] by simp

lemma valid_unicode_units: "valid_unicode (units s)"
  by (intro valid_unicode_ascii) (auto simp: units_def intro: less_trans [OF code_less_256])

lemma escape_unit_valid:
  assumes "\<not> high_surrogate c" "\<not> low_surrogate c"
  shows "valid_unicode (escape_unit c)"
proof (cases "c < 32 \<or> c = 34 \<or> c = 92")
  case True
  then show ?thesis
    by (intro valid_unicode_ascii) (auto simp: escape_unit_def unicode_escape_def hex_lower_def split: if_splits)
qed (use assms in \<open>auto simp: escape_unit_def\<close>)

lemma quote_valid: "valid_unicode s \<Longrightarrow> valid_unicode (json_quote s)"
proof -
  have "valid_unicode (quote_body s)" if "valid_unicode s"
    using that
  proof (induction s rule: quote_body.induct)
    case (3 c d cs)
    show ?case
    proof (cases "high_surrogate c")
      case True
      with 3 show ?thesis by simp
    next
      case False
      with 3 show ?thesis by (simp add: valid_unicode_append escape_unit_valid)
    qed
  qed (simp_all add: escape_unit_valid)
  then show "valid_unicode s \<Longrightarrow> valid_unicode (json_quote s)"
    unfolding json_quote_def
    by (intro valid_unicode_Cons valid_unicode_append)
      (simp_all add: high_surrogate_def low_surrogate_def)
qed

lemma join_valid: "valid_unicode sep \<Longrightarrow> \<forall>p \<in> set ps. valid_unicode p \<Longrightarrow> valid_unicode (join sep ps)"
  by (induction sep ps rule: join.induct) (simp_all add: valid_unicode_append)

lemma compact_valid: "canonical_ok v \<Longrightarrow> valid_unicode (compact v)"
proof (induction v)
  case (C_int i)
  then show ?case by (simp add: show_int_units_def valid_unicode_units valid_unicode_Cons)
next
  case (C_frac t)
  then show ?case
    by (intro valid_unicode_ascii) (auto simp: fraction_text_def list_all_iff number_unit_def)
next
  case (C_array vs)
  then show ?case
    unfolding compact_array by (intro valid_unicode_Cons valid_unicode_append join_valid) auto
next
  case (C_object ps)
  have "valid_unicode (json_quote (fst p) @ 58 # compact (snd p))" if "p \<in> set ps" for p
    using C_object.IH [of p "snd p"] C_object.prems that
    by (cases p) (auto intro!: valid_unicode_append valid_unicode_Cons quote_valid)
  then show ?case
    unfolding compact_object [OF C_object.prems]
    by (intro valid_unicode_Cons valid_unicode_append join_valid) auto
qed (simp_all add: valid_unicode_units quote_valid)

section \<open>Values inside the JSON domain\<close>

definition json_ok :: "js_value \<Rightarrow> bool" where
  "json_ok v \<longleftrightarrow> is_ok (canonicalize_json v)"

lemma is_ok_iff: "is_ok r \<longleftrightarrow> (\<exists>a. r = Inr a)"
  by (cases r) simp_all

lemma json_ok_simps [simp]:
  "json_ok V_null" "json_ok (V_bool b)" "json_ok (V_string s) \<longleftrightarrow> valid_unicode s"
  "json_ok (V_number (Int_num n)) \<longleftrightarrow> \<bar>n\<bar> \<le> max_safe_integer"
  by (simp_all add: json_ok_def assert_valid_unicode_def guard_res_def)

lemma json_ok_array:
  assumes "\<forall>v \<in> set vs. json_ok v"
  shows "json_ok (V_array True [] (map Data vs))"
proof -
  have "\<exists>cs. collect_elements i (map (\<lambda>v. Data (canonicalize_json v)) vs) = Inr cs"
    if "\<forall>v \<in> set vs. \<exists>c. canonicalize_json v = Inr c" for i
    using that
  proof (induction vs arbitrary: i)
    case (Cons v vs)
    then obtain c where "canonicalize_json v = Inr c" by auto
    moreover from Cons obtain cs where
      "collect_elements (Suc i) (map (\<lambda>v. Data (canonicalize_json v)) vs) = Inr cs" by force
    ultimately show ?case by (simp add: under_def)
  qed simp
  from this [of 0] assms obtain cs where
    "collect_elements 0 (map (\<lambda>v. Data (canonicalize_json v)) vs) = Inr cs"
    by (auto simp: json_ok_def is_ok_iff)
  then show ?thesis
    by (simp add: json_ok_def comp_def)
qed

lemma json_ok_object:
  assumes "\<forall>p \<in> set ps. valid_unicode (fst p) \<and> json_ok (snd p)"
  shows "json_ok (V_object True False (map (map_prod id Data) ps))"
proof -
  have all: "\<exists>cs. collect_properties qs = Inr cs"
    if "\<forall>q \<in> set qs. \<exists>k c. valid_unicode k \<and> q = (k, Data (Inr c))" for qs
    using that by (induction qs) (auto simp: under_def assert_valid_unicode_def)
  let ?qs = "map (map_prod id (map_js_slot canonicalize_json)) (map (map_prod id Data) ps)"
  have "\<forall>q \<in> set (sort_key fst ?qs). \<exists>k c. valid_unicode k \<and> q = (k, Data (Inr c))"
    using assms by (fastforce simp: json_ok_def is_ok_iff)
  from all [OF this] show ?thesis
    by (auto simp: json_ok_def is_ok_iff)
qed

section \<open>A digest identifies content\<close>

text \<open>
  What the callers of the hash rely on: the digest has the accepted shape. Everything else is
  proved from that and the canonical text.
\<close>

locale content_digest =
  fixes digest :: "bytes \<Rightarrow> string"
  assumes digest_shape: "is_sha256_hex (digest b)"
begin

definition content_hash :: "js_value \<Rightarrow> (json_error, string) result" where
  "content_hash v = bind_res (canonical_json_utf8 v) (\<lambda>b. Inr (digest b))"

lemma content_hash_shape: "content_hash v = Inr h \<Longrightarrow> is_sha256_hex h"
  by (auto simp: content_hash_def bind_res_Inr_iff digest_shape)

lemma content_hash_fails_iff: "is_ok (content_hash v) \<longleftrightarrow> is_ok (canonicalize_json v)"
  by (cases "canonicalize_json v")
    (simp_all add: content_hash_def canonical_json_utf8_def canonical_json_stringify_def)

text \<open>Equal hashes of different canonical values exhibit a collision of the digest.\<close>

lemma collision_from_equal_hashes:
  assumes wf: "well_formed u" "well_formed v"
    and c: "canonicalize_json u = Inr c" and d: "canonicalize_json v = Inr d" and "c \<noteq> d"
    and u16: "units_16 (compact c)" "units_16 (compact d)"
    and eq: "content_hash u = content_hash v"
  shows "utf8_encode (compact c) \<noteq> utf8_encode (compact d) \<and>
    digest (utf8_encode (compact c)) = digest (utf8_encode (compact d))"
proof
  have ok: "canonical_ok c" "canonical_ok d"
    using canonicalize_ok wf c d by blast+
  then have "compact c \<noteq> compact d"
    using compact_prefix [of c d "[]" "[]"] \<open>c \<noteq> d\<close> by auto
  then show "utf8_encode (compact c) \<noteq> utf8_encode (compact d)"
    using ok u16 by (simp add: utf8_encode_inj compact_valid)
  show "digest (utf8_encode (compact c)) = digest (utf8_encode (compact d))"
    using eq c d by (simp add: content_hash_def canonical_json_utf8_def canonical_json_stringify_def)
qed

end

interpretation sha: content_digest pure_sha256
  by unfold_locales (rule pure_sha256_hex)

lemma hash_canonical_json_sha: "hash_canonical_json v = sha.content_hash v"
  by (simp add: hash_canonical_json_def sha.content_hash_def sha256_hex_def sha256_def)

lemma hash_canonical_json_shape: "hash_canonical_json v = Inr h \<Longrightarrow> is_sha256_hex h"
  unfolding hash_canonical_json_sha by (rule sha.content_hash_shape)

text \<open>The legacy hash is a polynomial of the code units modulo \<open>2 ^ 32\<close>.\<close>

lemma hash_loop_polynomial:
  "hash_loop h s = 31 ^ length s * h + (\<Sum>i<length s. 31 ^ (length s - 1 - i) * of_nat (s ! i))"
proof (induction s arbitrary: h)
  case (Cons c s)
  have "push_bit 5 h - h = 31 * h"
    by (simp add: push_bit_eq_mult algebra_simps)
  moreover have "(\<Sum>i<length (c # s). (31 :: 32 word) ^ (length (c # s) - 1 - i) * of_nat ((c # s) ! i)) =
      31 ^ length s * of_nat c + (\<Sum>i<length s. 31 ^ (length s - 1 - i) * of_nat (s ! i))"
    by (simp add: sum.lessThan_Suc_shift del: sum.lessThan_Suc)
  ultimately show ?case
    by (simp add: Cons.IH algebra_simps del: sum.lessThan_Suc)
qed simp


section \<open>Properties\<close>

text \<open>
  A content hash identifies content up to collisions of SHA-256 itself: the hashes of two
  accepted values are equal exactly when the values are canonically equal or their two UTF-8 texts
  are different byte strings with the same SHA-256. Nothing in the pipeline before SHA-256 (key
  sorting, escaping, number printing, UTF-8) can confuse two values.
\<close>

theorem content_hash_identity:
  assumes "well_formed u" and "well_formed v"
    and "canonicalize_json u = Inr c" and "canonicalize_json v = Inr d"
    and "units_16 (serialize_canonical_json c 0 0)" and "units_16 (serialize_canonical_json d 0 0)"
  shows "hash_canonical_json u = hash_canonical_json v \<longleftrightarrow>
    c = d \<or>
    (utf8_encode (serialize_canonical_json c 0 0) \<noteq> utf8_encode (serialize_canonical_json d 0 0) \<and>
     pure_sha256 (utf8_encode (serialize_canonical_json c 0 0)) =
     pure_sha256 (utf8_encode (serialize_canonical_json d 0 0)))"
proof -
  have "hash_canonical_json u = Inr (pure_sha256 (utf8_encode (compact c)))"
    and "hash_canonical_json v = Inr (pure_sha256 (utf8_encode (compact d)))"
    using assms(3,4) by (simp_all add: hash_canonical_json_def canonical_json_utf8_def
        canonical_json_stringify_def sha256_hex_def sha256_def)
  then show ?thesis
    using sha.collision_from_equal_hashes [of u v c d] assms
    unfolding hash_canonical_json_sha by auto
qed

theorem content_hash_identity_witness:
  "hash_canonical_json (V_object True False [([98], Data V_null), ([97], Data (V_bool True))]) =
   hash_canonical_json (V_object True False [([97], Data (V_bool True)), ([98], Data V_null)])"
  (is "hash_canonical_json ?u = hash_canonical_json ?v")
proof -
  let ?c = "C_object [([97], C_bool True), ([98], C_null)]"
  have c: "canonicalize_json ?u = Inr ?c" "canonicalize_json ?v = Inr ?c"
    by (simp_all add: assert_valid_unicode_def under_def high_surrogate_def low_surrogate_def)
  have t: "units_16 (serialize_canonical_json ?c 0 0)"
    by (simp add: units_16_def json_quote_def escape_unit_def units_def code_def high_surrogate_def
        low_surrogate_def)
  show ?thesis
    by (subst content_hash_identity [OF _ _ c t t]) simp_all
qed

end
