(* ===== verification/JsonObjects.thy ===== *)
theory JsonObjects
  imports ContentHash UnitText
begin

text \<open>
  JavaScript values the components build to serialize or hash: object and array literals, nullable
  fields, when such a value has a canonical form, and what reading a property back out of the
  canonical form gives.
\<close>

section \<open>Literals\<close>

definition nullable_string :: "code_units option \<Rightarrow> js_value" where
  "nullable_string v = (case v of None \<Rightarrow> V_null | Some s \<Rightarrow> V_string s)"

definition plain_object :: "(code_units \<times> js_value) list \<Rightarrow> js_value" where
  "plain_object ps = V_object True False (map (map_prod id Data) ps)"

definition object_of :: "(string \<times> js_value) list \<Rightarrow> js_value" where
  "object_of ps = plain_object (map (map_prod units id) ps)"

definition plain_array :: "js_value list \<Rightarrow> js_value" where
  "plain_array vs = V_array True [] (map Data vs)"

text \<open>Literals whose strings are opaque identifiers.\<close>

definition obj :: "(string \<times> js_value) list \<Rightarrow> js_value" where
  "obj ps = V_object True False (map (\<lambda>(k, v). (units k, Data v)) ps)"

definition arr :: "js_value list \<Rightarrow> js_value" where
  "arr vs = V_array True [] (map Data vs)"

definition jstr :: "string \<Rightarrow> js_value" where
  "jstr s = V_string (units s)"

definition jint :: "int \<Rightarrow> js_value" where
  "jint n = V_number (Int_num n)"

section \<open>Values with a canonical form\<close>

text \<open>Values built from strings, safe integers, arrays and objects always have a digest.\<close>

lemma json_ok_jstr [simp]: "json_ok (jstr s)"
  by (simp add: jstr_def valid_unicode_units)

lemma json_ok_jint [simp]: "\<bar>n\<bar> \<le> max_safe_integer \<Longrightarrow> json_ok (jint n)"
  by (simp add: jint_def)

lemma json_ok_arr: "\<forall>v \<in> set vs. json_ok v \<Longrightarrow> json_ok (arr vs)"
  unfolding arr_def by (rule json_ok_array)

lemma json_ok_obj:
  assumes "\<forall>p \<in> set ps. json_ok (snd p)"
  shows "json_ok (obj ps)"
proof -
  have "map (\<lambda>(k, v). (units k, Data v)) ps = map (map_prod id Data) (map (map_prod units id) ps)"
    by auto
  moreover have "json_ok (V_object True False (map (map_prod id Data) (map (map_prod units id) ps)))"
    using assms by (intro json_ok_object) (auto simp: valid_unicode_units)
  ultimately show ?thesis by (simp add: obj_def del: map_map)
qed

lemma json_ok_object_of: "\<forall>p \<in> set ps. json_ok (snd p) \<Longrightarrow> json_ok (object_of ps)"
  unfolding object_of_def plain_object_def by (intro json_ok_object) (auto simp: valid_unicode_units)

lemma json_ok_plain_array: "\<forall>v \<in> set vs. json_ok v \<Longrightarrow> json_ok (plain_array vs)"
  unfolding plain_array_def by (rule json_ok_array)

lemma json_ok_hash: "json_ok v \<Longrightarrow> \<exists>h. hash_canonical_json v = Inr h"
  using sha.content_hash_fails_iff [of v] by (simp add: json_ok_def hash_canonical_json_sha is_ok_iff)

section \<open>Reading the canonical form\<close>

text \<open>The property a canonical object has at a key is the canonical form of the value there.\<close>

definition json_of :: "js_value \<Rightarrow> canonical_json option" where
  "json_of v = (case canonicalize_json v of Inr c \<Rightarrow> Some c | Inl _ \<Rightarrow> None)"

lemma json_of_simps [simp]:
  "json_of V_null = Some C_null" "json_of (V_bool b) = Some (C_bool b)"
  by (simp_all add: json_of_def)

lemma collect_properties_Inr:
  "collect_properties (map (\<lambda>(k, r). (k, Data r)) rs) = Inr qs \<Longrightarrow>
     qs = map (\<lambda>(k, r). (k, projr r)) rs \<and> (\<forall>r \<in> snd ` set rs. is_ok r)"
proof (induction rs arbitrary: qs)
  case (Cons kr rs)
  obtain k r where kr: "kr = (k, r)" by fastforce
  from Cons.prems obtain y ys where "r = Inr y"
    and ys: "collect_properties (map (\<lambda>(k, r). (k, Data r)) rs) = Inr ys" and "qs = (k, y) # ys"
    unfolding kr by (cases r) (auto simp: under_def bind_res_Inr_iff)
  with Cons.IH [OF ys] kr show ?case by simp
qed simp

lemma sort_key_values:
  "sort_key fst (map (\<lambda>(k, v). (k, g v)) xs) = map (\<lambda>(k, v). (k, g v)) (sort_key fst xs)"
proof -
  have step: "insort_key fst (case x of (k, v) \<Rightarrow> (k, g v)) (map (\<lambda>(k, v). (k, g v)) ys) =
      map (\<lambda>(k, v). (k, g v)) (insort_key fst x ys)" for x ys
    by (induction ys) (auto simp: case_prod_beta)
  show ?thesis by (induction xs) (simp_all add: step)
qed

lemma map_of_sort: "distinct (map fst ps) \<Longrightarrow> map_of (sort_key fst ps) = map_of ps"
proof -
  assume d: "distinct (map fst ps)"
  have "mset (map fst (sort_key fst ps)) = mset (map fst ps)"
    by (simp add: mset_map)
  with d have "distinct (map fst (sort_key fst ps))"
    using mset_eq_imp_distinct_iff by blast
  then have "map_of (sort_key fst ps) k = Some v \<longleftrightarrow> map_of ps k = Some v" for k v
    by (metis d map_of_SomeD map_of_is_SomeI set_sort)
  then show ?thesis
    by (intro ext) (metis not_None_eq)
qed

lemma map_of_values: "map_of (map (\<lambda>(k, v). (k, g v)) xs) k = map_option g (map_of xs k)"
  by (induction xs) auto

lemma canonicalize_plain_object:
  assumes "canonicalize_json (plain_object ps) = Inr c" and "distinct (map fst ps)"
  shows "jget k (Some c) = (case map_of ps k of None \<Rightarrow> None | Some v \<Rightarrow> json_of v)"
    and "map_of ps k = Some v \<Longrightarrow> json_of v \<noteq> None"
proof -
  have "map (map_prod id (map_js_slot canonicalize_json)) (map (map_prod id Data) ps) =
      map (\<lambda>(k, r). (k, Data r)) (map (\<lambda>(k, v). (k, canonicalize_json v)) ps)"
    by auto
  with assms(1) obtain qs where c: "c = C_object qs"
    and qs: "collect_properties (map (\<lambda>(k, r). (k, Data r)) (map (\<lambda>(k, v). (k, canonicalize_json v)) (sort_key fst ps))) = Inr qs"
    by (auto simp: plain_object_def sort_key_values simp del: map_map)
  from collect_properties_Inr [OF qs]
  have "qs = map (\<lambda>(k, v). (k, projr (canonicalize_json v))) (sort_key fst ps)"
    and ok: "(k, v) \<in> set ps \<Longrightarrow> is_ok (canonicalize_json v)" for k v
    by (force simp: case_prod_beta)+
  then have "map_of qs k = map_option (\<lambda>v. projr (canonicalize_json v)) (map_of ps k)"
    by (simp add: map_of_values map_of_sort [OF assms(2)])
  moreover have found: "json_of v = Some (projr (canonicalize_json v))" if "map_of ps k = Some v" for v
    using ok [OF map_of_SomeD [OF that]] by (cases "canonicalize_json v") (auto simp: json_of_def)
  ultimately show "jget k (Some c) = (case map_of ps k of None \<Rightarrow> None | Some v \<Rightarrow> json_of v)"
    by (simp add: c jget_def split: option.split)
  show "map_of ps k = Some v \<Longrightarrow> json_of v \<noteq> None"
    using found by simp
qed

lemma json_of_nullable: "json_of (nullable_string v) = Some c \<Longrightarrow> jstring (Some c) = v \<and> (c = C_null \<longleftrightarrow> v = None)"
  by (cases v) (auto simp: nullable_string_def json_of_def jstring_def assert_valid_unicode_def guard_res_def
      split: if_splits sum.splits)

lemma json_of_string: "json_of (V_string s) = Some c \<Longrightarrow> c = C_string s"
  using json_of_nullable [of "Some s" c] by (cases c) (auto simp: nullable_string_def jstring_def)

lemma object_member:
  assumes "json_of (object_of ps) = Some c" and "distinct (map fst ps)" and "(k, v) \<in> set ps"
  shows "\<exists>w. json_of v = Some w \<and> jget (units k) (Some c) = Some w"
proof -
  have ok: "canonicalize_json (plain_object (map (map_prod units id) ps)) = Inr c"
    using assms(1) by (auto simp: json_of_def object_of_def split: sum.splits)
  have "distinct (map units (map fst ps))"
    using assms(2) by (simp add: distinct_map [of units] inj_on_def del: map_map)
  then have d: "distinct (map fst (map (map_prod units id) ps))"
    by (simp add: o_def)
  have at: "map_of (map (map_prod units id) ps) (units k) = Some v"
    using d assms(3) by (simp add: rev_image_eqI)
  from canonicalize_plain_object [OF ok d, of "units k"] at show ?thesis
    by auto
qed

lemma array_elements:
  assumes "json_of (plain_array vs) = Some c"
  shows "c = C_array (map (\<lambda>v. the (json_of v)) vs) \<and> (\<forall>v \<in> set vs. json_of v \<noteq> None)"
proof -
  have loop: "collect_elements n (map (map_js_slot canonicalize_json) (map Data vs)) = Inr cs \<Longrightarrow>
      cs = map (\<lambda>v. the (json_of v)) vs \<and> (\<forall>v \<in> set vs. json_of v \<noteq> None)" for n cs
  proof (induction vs arbitrary: n cs)
    case (Cons v vs)
    from Cons.prems obtain y ys where "canonicalize_json v = Inr y"
      and ys: "collect_elements (Suc n) (map (map_js_slot canonicalize_json) (map Data vs)) = Inr ys" and "cs = y # ys"
      by (cases "canonicalize_json v") (auto simp: under_def bind_res_Inr_iff)
    with Cons.IH [OF ys] show ?case by (simp add: json_of_def)
  qed simp
  from assms obtain cs where "c = C_array cs"
    "collect_elements 0 (map (map_js_slot canonicalize_json) (map Data vs)) = Inr cs"
    by (auto simp: plain_array_def json_of_def [of "V_array _ _ _"] bind_res_Inr_iff split: sum.splits)
  with loop [of 0 cs] show ?thesis by simp
qed

section \<open>Encodings that lose nothing\<close>

text \<open>
  An encoder is faithful when the canonical form of what it builds determines the datum: two data
  with the same canonical form are equal. Encoders of structured data are put together from
  faithful ones.
\<close>

definition faithful :: "('a \<Rightarrow> js_value) \<Rightarrow> bool" where
  "faithful f \<longleftrightarrow> (\<forall>x y c. json_of (f x) = Some c \<longrightarrow> json_of (f y) = Some c \<longrightarrow> x = y)"

lemma faithfulD: "faithful f \<Longrightarrow> json_of (f x) = Some c \<Longrightarrow> json_of (f y) = Some c \<Longrightarrow> x = y"
  unfolding faithful_def by blast

lemma faithfulI: "(\<And>x y c. json_of (f x) = Some c \<Longrightarrow> json_of (f y) = Some c \<Longrightarrow> x = y) \<Longrightarrow> faithful f"
  unfolding faithful_def by blast

lemma faithful_jstr [intro, simp]: "faithful jstr"
  by (rule faithfulI) (auto simp: jstr_def dest!: json_of_string)

lemma json_of_jint: "json_of (jint n) = (if \<bar>n\<bar> > max_safe_integer then None else Some (C_int n))"
  by (simp add: jint_def json_of_def)

lemma faithful_jint [intro, simp]: "faithful jint"
  by (rule faithfulI) (auto simp: json_of_jint split: if_splits)

lemma faithful_bool [intro, simp]: "faithful V_bool"
  by (rule faithfulI) simp

text \<open>A nullable property, and one encoded only when present.\<close>

definition nullable :: "('a \<Rightarrow> js_value) \<Rightarrow> 'a option \<Rightarrow> js_value" where
  "nullable f v = (case v of None \<Rightarrow> V_null | Some x \<Rightarrow> f x)"

definition optional :: "string \<Rightarrow> ('a \<Rightarrow> js_value) \<Rightarrow> 'a option \<Rightarrow> (string \<times> js_value) list" where
  "optional k f v = (case v of None \<Rightarrow> [] | Some x \<Rightarrow> [(k, f x)])"

lemma optional_simps [simp]: "optional k f None = []" "optional k f (Some x) = [(k, f x)]"
  by (simp_all add: optional_def)

lemma faithful_nullable:
  assumes "faithful f" and "\<And>x. json_of (f x) \<noteq> Some C_null"
  shows "faithful (nullable f)"
proof (rule faithfulI)
  fix x y c assume "json_of (nullable f x) = Some c" "json_of (nullable f y) = Some c"
  with assms show "x = y"
    by (cases x; cases y) (auto simp: nullable_def dest: faithfulD)
qed

lemma faithful_array:
  assumes "faithful f" shows "faithful (\<lambda>xs. plain_array (map f xs))"
proof (rule faithfulI)
  fix xs ys c
  assume "json_of (plain_array (map f xs)) = Some c" "json_of (plain_array (map f ys)) = Some c"
  then have "map (\<lambda>x. the (json_of (f x))) xs = map (\<lambda>x. the (json_of (f x))) ys"
    and some: "\<forall>x \<in> set xs \<union> set ys. json_of (f x) \<noteq> None"
    by (auto dest!: array_elements simp: comp_def)
  then show "xs = ys"
  proof (induction xs arbitrary: ys)
    case (Cons x xs)
    then obtain y ys' where "ys = y # ys'" "the (json_of (f x)) = the (json_of (f y))"
      and rest: "map (\<lambda>x. the (json_of (f x))) xs = map (\<lambda>x. the (json_of (f x))) ys'"
      by (cases ys) auto
    moreover from this Cons.prems have "x = y"
      by (intro faithfulD [OF assms, of _ "the (json_of (f x))"]) auto
    ultimately show ?case
      using Cons.IH [OF rest] Cons.prems by auto
  qed simp
qed

text \<open>Properties of two object literals with the same canonical form.\<close>

lemma object_property:
  assumes "json_of (object_of ps) = Some c" and "distinct (map fst ps)"
  shows "jget (units k) (Some c) = (case map_of ps k of None \<Rightarrow> None | Some v \<Rightarrow> json_of v)"
    and "map_of ps k = Some v \<Longrightarrow> json_of v \<noteq> None"
proof -
  have ok: "canonicalize_json (plain_object (map (map_prod units id) ps)) = Inr c"
    using assms(1) by (auto simp: json_of_def object_of_def split: sum.splits)
  have "distinct (map units (map fst ps))"
    using assms(2) by (simp add: distinct_map [of units] inj_on_def del: map_map)
  then have d: "distinct (map fst (map (map_prod units id) ps))"
    by (simp add: o_def)
  have m: "map_of (map (map_prod units id) ps) (units k) = map_of ps k"
    by (induction ps) auto
  from canonicalize_plain_object [OF ok d, of "units k"]
  show "jget (units k) (Some c) = (case map_of ps k of None \<Rightarrow> None | Some v \<Rightarrow> json_of v)"
    and "map_of ps k = Some v \<Longrightarrow> json_of v \<noteq> None"
    by (simp_all add: m)
qed

lemma same_object:
  assumes "json_of (object_of ps) = Some c" "json_of (object_of qs) = Some c"
    and "distinct (map fst ps)" "distinct (map fst qs)"
  shows "(case map_of ps k of None \<Rightarrow> None | Some v \<Rightarrow> json_of v) = (case map_of qs k of None \<Rightarrow> None | Some v \<Rightarrow> json_of v)"
    and "map_of ps k = Some v \<Longrightarrow> \<exists>e. json_of v = Some e"
  using object_property [OF assms(1,3), of k] object_property [OF assms(2,4), of k] by auto

lemma same_property:
  assumes "json_of (object_of ps) = Some c" "json_of (object_of qs) = Some c"
    and "distinct (map fst ps)" "distinct (map fst qs)"
    and "map_of ps k = Some (f x)" "map_of qs k = Some (f y)" and "faithful f"
  shows "x = y"
  using same_object [OF assms(1-4), of k] assms(5-7) by (auto dest: faithfulD)

lemma same_optional:
  assumes "json_of (object_of ps) = Some c" "json_of (object_of qs) = Some c"
    and "distinct (map fst ps)" "distinct (map fst qs)"
    and "map_of ps k = map_option f x" "map_of qs k = map_option f y" and "faithful f"
  shows "x = y"
proof (cases x)
  case None
  then show ?thesis
    using same_object [OF assms(1-4), of k] same_object(2) [OF assms(2,1,4,3), of k] assms(5,6) by (cases y) auto
next
  case (Some a)
  then show ?thesis
    using same_object [OF assms(1-4), of k] same_object(2) [OF assms(1-4), of k "f a"] assms(5-7)
    by (cases y) (auto dest: faithfulD)
qed

text \<open>A string-keyed record encodes the map it stands for.\<close>

lemma same_entries:
  assumes "json_of (object_of (map (map_prod id f) m)) = Some c" "json_of (object_of (map (map_prod id f) n)) = Some c"
    and "distinct (map fst m)" "distinct (map fst n)" and "faithful f"
  shows "map_of m = map_of n"
proof
  fix k :: string
  have at: "map_of (map (map_prod id f) xs) k = map_option f (map_of xs k)" for xs
    by (induction xs) auto
  have "distinct (map fst (map (map_prod id f) xs))" if "distinct (map fst xs)" for xs
    using that by (simp add: comp_def)
  from same_optional [OF assms(1,2) this [OF assms(3)] this [OF assms(4)], where k = k and f = f and x = "map_of m k" and y = "map_of n k"] at assms(5)
  show "map_of m k = map_of n k" by blast
qed

section \<open>Code units below 65536\<close>

text \<open>
  Every code unit of a JavaScript string is below 65536; in the model this is a property of the
  text, which the digest needs to tell texts apart.
\<close>

fun narrow :: "canonical_json \<Rightarrow> bool" where
  "narrow (C_string s) = units_16 s"
| "narrow (C_array vs) = (\<forall>v \<in> set vs. narrow v)"
| "narrow (C_object ps) = (\<forall>p \<in> set ps. units_16 (fst p) \<and> narrow (snd p))"
| "narrow _ = True"

lemma units_16_simps [simp]:
  "units_16 []" "units_16 (c # s) \<longleftrightarrow> c < 65536 \<and> units_16 s" "units_16 (s @ t) \<longleftrightarrow> units_16 s \<and> units_16 t"
  by (simp_all add: units_16_def)

lemma units_16_units [simp]: "units_16 (units s)"
proof -
  have "code c < 65536" for c by (rule less_trans [OF code_less_256]) simp
  then show ?thesis by (simp add: units_16_def units_def list_all_iff)
qed

lemma units_16_join: "units_16 sep \<Longrightarrow> \<forall>p \<in> set ps. units_16 p \<Longrightarrow> units_16 (join sep ps)"
  by (induction sep ps rule: join.induct) auto

lemma units_16_quote: "units_16 s \<Longrightarrow> units_16 (json_quote s)"
proof -
  have hex: "hex_lower d < 65536" if "d < 16" for d
    using that by (simp add: hex_lower_def)
  have h: "hex_lower (n mod 16) < 65536" "c < 65536 \<Longrightarrow> hex_lower (c div 4096) < 65536" for n c
    by (simp_all add: hex less_mult_imp_div_less)
  have esc: "units_16 (unicode_escape c)" if "c < 65536" for c
    using h(1) h(2) [OF that] by (simp add: unicode_escape_def)
  have unit: "units_16 (escape_unit c)" if "c < 65536" for c
    using esc [OF that] that by (simp add: escape_unit_def)
  have "units_16 s \<Longrightarrow> units_16 (quote_body s)" for s
    by (induction s rule: quote_body.induct) (simp_all add: esc unit)
  then show "units_16 s \<Longrightarrow> units_16 (json_quote s)"
    by (simp add: json_quote_def)
qed

lemma narrow_compact: "canonical_ok c \<Longrightarrow> narrow c \<Longrightarrow> units_16 (compact c)"
proof (induction c)
  case (C_int i)
  then show ?case by (simp add: show_int_units_def)
next
  case (C_frac t)
  then have "\<forall>u \<in> set t. u < 65536"
    by (auto simp: fraction_text_def list_all_iff number_unit_def)
  then show ?case by (simp add: units_16_def list_all_iff)
next
  case (C_array vs)
  then show ?case
    unfolding compact_array by (auto intro!: units_16_join)
next
  case (C_object ps)
  have "units_16 (compact (snd p))" if "p \<in> set ps" for p
  proof -
    have "canonical_ok (snd p)" "narrow (snd p)" using C_object.prems that by auto
    then show ?thesis using C_object.IH [of p "snd p"] that by (cases p) simp
  qed
  with C_object.prems show ?case
    unfolding compact_object [OF C_object.prems(1)] by (force intro!: units_16_join units_16_quote)
qed (simp_all add: units_16_quote)

text \<open>Literals made of narrow parts are narrow.\<close>

definition narrow_value :: "js_value \<Rightarrow> bool" where
  "narrow_value v \<longleftrightarrow> (\<forall>c. json_of v = Some c \<longrightarrow> narrow c)"

lemma narrow_leaves [simp]: "narrow_value V_null" "narrow_value (V_bool b)" "narrow_value (jstr s)" "narrow_value (jint n)"
  by (auto simp: narrow_value_def json_of_jint jstr_def split: if_splits dest!: json_of_string)

lemma narrow_array: "\<forall>v \<in> set vs. narrow_value v \<Longrightarrow> narrow_value (plain_array vs)"
  by (force simp: narrow_value_def dest!: array_elements)

lemma narrow_object:
  assumes "\<forall>p \<in> set ps. narrow_value (snd p)"
  shows "narrow_value (object_of ps)"
  unfolding narrow_value_def
proof (intro allI impI)
  fix c assume "json_of (object_of ps) = Some c"
  then obtain vs where c: "c = C_object vs"
    and vs: "collect_properties (sort_key fst (map (map_prod id (map_js_slot canonicalize_json))
        (map (map_prod id Data) (map (map_prod units id) ps)))) = Inr vs"
    by (auto simp: json_of_def object_of_def plain_object_def bind_res_Inr_iff split: sum.splits)
  let ?rs = "sort_key fst (map (map_prod id (map_js_slot canonicalize_json))
        (map (map_prod id Data) (map (map_prod units id) ps)))"
  have parts: "map fst vs = map fst ?rs \<and> (\<forall>p \<in> set vs. valid_unicode (fst p) \<and> narrow (snd p))"
  proof (rule collect_properties_ok [OF vs])
    fix k r e assume "(k, Data r) \<in> set ?rs" "r = Inr e"
    then obtain v l where "(l, v) \<in> set ps" "canonicalize_json v = Inr e" by auto
    with assms show "narrow e" by (force simp: narrow_value_def json_of_def)
  qed
  have "units_16 (fst p)" if "p \<in> set vs" for p
  proof -
    from that have "fst p \<in> set (map fst vs)" by simp
    with parts have "fst p \<in> set (map fst ?rs)" by simp
    then show ?thesis by auto
  qed
  with parts show "narrow c" by (simp add: c)
qed

lemma narrow_nullable: "(\<And>x. v = Some x \<Longrightarrow> narrow_value (f x)) \<Longrightarrow> narrow_value (nullable f v)"
  by (cases v) (simp_all add: nullable_def)

lemma well_formed_leaves [simp]: "well_formed (jstr s)" "well_formed (jint n)"
  by (simp_all add: jstr_def jint_def)

lemma well_formed_array: "\<forall>v \<in> set vs. well_formed v \<Longrightarrow> well_formed (plain_array vs)"
  by (simp add: plain_array_def list_all_iff comp_def)

lemma distinct_map_units: "distinct (map (\<lambda>p. units (fst p)) ps) \<longleftrightarrow> distinct (map fst ps)"
  by (induction ps) force+

lemma well_formed_object:
  "distinct (map fst ps) \<Longrightarrow> \<forall>p \<in> set ps. well_formed (snd p) \<Longrightarrow> well_formed (object_of ps)"
  by (simp add: object_of_def plain_object_def list_all_iff comp_def distinct_map_units)

lemma well_formed_nullable: "(\<And>x. v = Some x \<Longrightarrow> well_formed (f x)) \<Longrightarrow> well_formed (nullable f v)"
  by (cases v) (simp_all add: nullable_def)

text \<open>Both at once, by rewriting.\<close>

definition literal :: "js_value \<Rightarrow> bool" where
  "literal v \<longleftrightarrow> well_formed v \<and> narrow_value v"

lemma literal_leaves [simp]: "literal V_null" "literal (V_bool b)" "literal (jstr s)" "literal (jint n)"
  by (simp_all add: literal_def)

lemma literal_array [simp]: "list_all literal vs \<Longrightarrow> literal (plain_array vs)"
  by (simp add: literal_def list_all_iff well_formed_array narrow_array)

lemma literal_object [simp]:
  "distinct (map fst ps) \<Longrightarrow> list_all (\<lambda>p. literal (snd p)) ps \<Longrightarrow> literal (object_of ps)"
  by (simp add: literal_def list_all_iff well_formed_object narrow_object)

lemma literal_nullable [simp]: "pred_option (\<lambda>x. literal (f x)) v \<Longrightarrow> literal (nullable f v)"
  by (cases v) (simp_all add: nullable_def)

lemma literal_optional [simp]:
  "list_all (\<lambda>p. literal (snd p)) (optional k f v) \<longleftrightarrow> pred_option (\<lambda>x. literal (f x)) v"
  by (cases v) simp_all

text \<open>Hence equal digests of two literals mean equal canonical forms, or their texts are a collision.\<close>

definition texts_collide :: "js_value \<Rightarrow> js_value \<Rightarrow> bool" where
  "texts_collide u v \<longleftrightarrow>
     (\<exists>c d. json_of u = Some c \<and> json_of v = Some d \<and>
        utf8_encode (compact c) \<noteq> utf8_encode (compact d) \<and>
        pure_sha256 (utf8_encode (compact c)) = pure_sha256 (utf8_encode (compact d)))"

lemma equal_digests:
  assumes "hash_canonical_json u = Inr h" and "hash_canonical_json v = Inr h"
    and lit: "literal u" "literal v"
  shows "(\<exists>c. json_of u = Some c \<and> json_of v = Some c) \<or> texts_collide u v"
proof -
  note wf = lit [unfolded literal_def]
  obtain c d where c: "canonicalize_json u = Inr c" and d: "canonicalize_json v = Inr d"
    using assms(1,2) by (auto simp: hash_canonical_json_def canonical_json_utf8_def
        canonical_json_stringify_def bind_res_Inr_iff)
  have n: "narrow c" "narrow d"
    using wf c d by (simp_all add: narrow_value_def json_of_def)
  have u: "units_16 (compact c)" "units_16 (compact d)"
    using n canonicalize_ok wf c d narrow_compact by blast+
  show ?thesis
  proof (cases "c = d")
    case True
    then show ?thesis using c d by (simp add: json_of_def)
  next
    case False
    have "sha.content_hash u = sha.content_hash v"
      using assms(1,2) by (simp add: hash_canonical_json_sha)
    from sha.collision_from_equal_hashes [OF _ _ c d False u this] wf have "texts_collide u v"
      using c d by (auto simp: texts_collide_def json_of_def)
    then show ?thesis ..
  qed
qed

lemma fst_optional [simp]: "map fst (optional k f v) = (if v = None then [] else [k])"
  by (cases v) simp_all

lemma map_of_optional [simp]: "map_of (optional k f v) l = (if l = k then map_option f v else None)"
  by (cases v) simp_all

end
