(* ===== verification/CatalogComparison.thy ===== *)
theory CatalogComparison
  imports ControlledValues FileNames JsonObjects
begin

text \<open>
  The canonical comparison projection of a product and the hunks between two projections
  (\<open>src/src/shopsite/catalog-comparison.ts\<close>). What the code takes from the JavaScript runtime and
  its tables is a record of parameters: Unicode normalization, the conversion of a text to a number
  beyond the short decimals, and the locale's string order, which only orders the hunks.
\<close>

record js_env =
  je_nfc :: "code_units \<Rightarrow> code_units"
  je_number :: "code_units \<Rightarrow> (bool \<times> code_units) option"
  je_compare :: "code_units \<Rightarrow> code_units \<Rightarrow> int"

section \<open>Normalization of one value\<close>

text \<open>\<open>replace(/\r\n/g, '\n')\<close>.\<close>

fun lf_ends :: "code_units \<Rightarrow> code_units" where
  "lf_ends (c # d # cs) = (if c = 13 \<and> d = 10 then 10 # lf_ends cs else c # lf_ends (d # cs))"
| "lf_ends cs = cs"

definition normalize_text_strict :: "js_env \<Rightarrow> code_units option \<Rightarrow> code_units option" where
  "normalize_text_strict env value =
     (case value of
        None \<Rightarrow> None
      | Some v \<Rightarrow>
          let s = trim_units (map (\<lambda>c. if c = 160 then 32 else c) (lf_ends (je_nfc env v)))
          in if s = [] then None else Some s)"

text \<open>\<open>replace(/\s+/g, ' ')\<close>.\<close>

function space_runs :: "code_units \<Rightarrow> code_units" where
  "space_runs [] = []"
| "space_runs (c # cs) =
     (if is_space_unit c then 32 # space_runs (dropWhile is_space_unit cs) else c # space_runs cs)"
  by pat_completeness auto
termination
  by (relation "measure length") (auto simp: le_imp_less_Suc length_dropWhile_le)

definition normalize_collapsed :: "js_env \<Rightarrow> code_units option \<Rightarrow> code_units option" where
  "normalize_collapsed env value = map_option space_runs (normalize_text_strict env value)"

definition digit_unit :: "nat \<Rightarrow> bool" where
  "digit_unit c \<longleftrightarrow> 48 \<le> c \<and> c \<le> 57"

text \<open>The sign, the integer digits and the fraction digits of \<open>/^-?\d+(\.\d+)?$/\<close>.\<close>

definition parse_decimal :: "code_units \<Rightarrow> (bool \<times> code_units \<times> code_units) option" where
  "parse_decimal t =
     (let negative = (t \<noteq> [] \<and> hd t = 45);
          body = (if negative then tl t else t);
          whole = takeWhile digit_unit body;
          rest = dropWhile digit_unit body
      in if whole = [] then None
         else case rest of
                [] \<Rightarrow> Some (negative, whole, [])
              | c # fraction \<Rightarrow>
                  if c = 46 \<and> fraction \<noteq> [] \<and> list_all digit_unit fraction
                  then Some (negative, whole, fraction) else None)"

definition significant_whole :: "code_units \<Rightarrow> code_units" where
  "significant_whole ds = dropWhile (\<lambda>c. c = 48) ds"

definition significant_fraction :: "code_units \<Rightarrow> code_units" where
  "significant_fraction fs = rev (dropWhile (\<lambda>c. c = 48) (rev fs))"

text \<open>
  Decimals of at most fifteen significant digits, not below a millionth, are read back by
  \<open>String(Number(t))\<close> as they are, without the superfluous zeros.
\<close>

definition short_decimal :: "code_units \<Rightarrow> code_units \<Rightarrow> bool" where
  "short_decimal whole fraction \<longleftrightarrow>
     length (significant_whole whole) + length (significant_fraction fraction) \<le> 15 \<and>
     (significant_whole whole \<noteq> [] \<or> significant_fraction fraction = [] \<or>
      length (takeWhile (\<lambda>c. c = 48) (significant_fraction fraction)) \<le> 5)"

definition decimal_text :: "bool \<Rightarrow> code_units \<Rightarrow> code_units \<Rightarrow> code_units" where
  "decimal_text negative whole fraction =
     (let w = significant_whole whole; f = significant_fraction fraction
      in (if negative \<and> (w \<noteq> [] \<or> f \<noteq> []) then [45] else []) @
         (if w = [] then [48] else w) @ (if f = [] then [] else 46 # f))"

text \<open>\<open>Number(t)\<close> of a trimmed text: whether it is an integer, and its text; none unless finite.\<close>

definition number_of :: "js_env \<Rightarrow> code_units \<Rightarrow> (bool \<times> code_units) option" where
  "number_of env t =
     (case parse_decimal t of
        Some (negative, whole, fraction) \<Rightarrow>
          if short_decimal whole fraction
          then Some (significant_fraction fraction = [], decimal_text negative whole fraction)
          else je_number env t
      | None \<Rightarrow> je_number env t)"

definition normalize_price :: "js_env \<Rightarrow> code_units option \<Rightarrow> code_units option" where
  "normalize_price env value =
     (case normalize_text_strict env value of
        None \<Rightarrow> None
      | Some t \<Rightarrow>
          let trimmed = filter (\<lambda>c. c \<noteq> 44) t
          in case parse_decimal trimmed of
               None \<Rightarrow> Some t
             | Some _ \<Rightarrow> (case number_of env trimmed of Some (_, text) \<Rightarrow> Some text | None \<Rightarrow> Some t))"

text \<open>A quantity is an integer of the product or a text.\<close>

datatype quantity = Quantity_int int | Quantity_text code_units

definition normalize_quantity :: "js_env \<Rightarrow> quantity option \<Rightarrow> code_units option" where
  "normalize_quantity env value =
     (case value of
        None \<Rightarrow> None
      | Some (Quantity_int i) \<Rightarrow> Some (show_int_units i)
      | Some (Quantity_text v) \<Rightarrow>
          (case normalize_text_strict env (Some v) of
             None \<Rightarrow> None
           | Some t \<Rightarrow>
               (case number_of env t of
                  Some (integer, text) \<Rightarrow> if integer then Some text else Some t
                | None \<Rightarrow> Some t)))"

definition normalize_image_path :: "js_env \<Rightarrow> code_units option \<Rightarrow> code_units option" where
  "normalize_image_path env value =
     (case normalize_text_strict env value of
        None \<Rightarrow> None
      | Some t \<Rightarrow>
          if lower_units t = units ''none'' then None
          else if starts_with t (units ''./'') then Some (drop 2 t) else Some t)"

definition normalize_file_name_value :: "js_env \<Rightarrow> code_units option \<Rightarrow> code_units option" where
  "normalize_file_name_value env value = map_option lower_units (normalize_text_strict env value)"

definition normalize_advanced_block :: "js_env \<Rightarrow> code_units option \<Rightarrow> code_units option" where
  "normalize_advanced_block env value = map_option space_runs (normalize_text_strict env value)"

section \<open>Effective values\<close>

definition unknown_elements :: "product \<Rightarrow> (code_units \<times> canonical_json) list" where
  "unknown_elements p = pf_unknown (sm_preserved (pr_shopsite p))"

definition advanced_blocks :: "product \<Rightarrow> (code_units \<times> code_units) list" where
  "advanced_blocks p = pf_blocks (sm_preserved (pr_shopsite p))"

definition unknown_value :: "product \<Rightarrow> code_units \<Rightarrow> code_units option" where
  "unknown_value p tag = unknown_text (map_of (unknown_elements p) tag)"

definition non_blank :: "code_units option \<Rightarrow> bool" where
  "non_blank v \<longleftrightarrow> (case v of None \<Rightarrow> False | Some s \<Rightarrow> trim_units s \<noteq> [])"

definition resolve_effective_custom :: "product \<Rightarrow> code_units \<Rightarrow> code_units option" where
  "resolve_effective_custom p tag =
     (if non_blank (map_of (pr_custom p) tag) then map_of (pr_custom p) tag
      else if non_blank (unknown_value p tag) then unknown_value p tag
      else None)"

record controlled_value_config =
  cv_allowed :: "code_units list"
  cv_aliases :: "value_alias list"

type_synonym controlled_fields = "(code_units \<times> controlled_value_config) list"

definition default_controlled_fields :: "code_units list" where
  "default_controlled_fields = [units ''core.availability'', units ''custom.ProductType'']"

definition resolve_controlled ::
    "js_env \<Rightarrow> controlled_fields \<Rightarrow> code_units \<Rightarrow> code_units option \<Rightarrow> code_units option" where
  "resolve_controlled env controlled key raw =
     (case raw of
        None \<Rightarrow> None
      | Some r \<Rightarrow>
          (case map_of controlled key of
             Some config \<Rightarrow>
               (case match_canonical_value (je_nfc env) (Some r) (cv_allowed config) of
                  Some direct \<Rightarrow> Some direct
                | None \<Rightarrow>
                    (case resolve_alias (je_nfc env) (Some r) (cv_aliases config) (cv_allowed config) of
                       Some via \<Rightarrow> Some via
                     | None \<Rightarrow> Some (units ''unresolved:'' @ comparison_key (je_nfc env) r)))
           | None \<Rightarrow>
               if key \<in> set default_controlled_fields then Some (comparison_key (je_nfc env) r)
               else normalize_text_strict env (Some r)))"

section \<open>Page identities\<close>

text \<open>One match of the tag expression at the start of the text: the name and the text after it.\<close>

definition name_tags :: "code_units list" where
  "name_tags = [units ''name>'', units ''pagename>'', units ''pagelink>'']"

definition tag_ahead :: "code_units \<Rightarrow> code_units \<Rightarrow> code_units option" where
  "tag_ahead opening s =
     (case find (\<lambda>t. starts_with (lower_units s) (opening @ t)) name_tags of
        Some t \<Rightarrow> Some (drop (length opening + length t) s)
      | None \<Rightarrow> None)"

definition name_match :: "code_units \<Rightarrow> (code_units \<times> code_units) option" where
  "name_match s =
     (case tag_ahead [60] s of
        None \<Rightarrow> None
      | Some body \<Rightarrow>
          let name = takeWhile (\<lambda>c. c \<noteq> 60) body
          in case tag_ahead [60, 47] (dropWhile (\<lambda>c. c \<noteq> 60) body) of
               Some rest \<Rightarrow> Some (name, rest)
             | None \<Rightarrow> None)"

lemma tag_ahead_shorter: "tag_ahead opening s = Some r \<Longrightarrow> length r \<le> length s"
  by (auto simp: tag_ahead_def split: option.splits)

lemma name_match_shorter:
  assumes "name_match s = Some (name, rest)"
  shows "length rest < length s"
proof -
  from assms obtain body where body: "tag_ahead [60] s = Some body"
    and rest: "tag_ahead [60, 47] (dropWhile (\<lambda>c. c \<noteq> 60) body) = Some rest"
    by (auto simp: name_match_def Let_def split: option.splits)
  have "length body < length s"
  proof (cases s)
    case Nil
    with body show ?thesis by (auto simp: tag_ahead_def starts_with_def find_Some_iff split: option.splits)
  next
    case (Cons c cs)
    with body show ?thesis by (auto simp: tag_ahead_def split: option.splits)
  qed
  moreover have "length rest \<le> length body"
    using tag_ahead_shorter [OF rest] length_dropWhile_le [of "\<lambda>c. c \<noteq> 60" body] by linarith
  ultimately show ?thesis by simp
qed

function extract_names :: "js_env \<Rightarrow> code_units \<Rightarrow> code_units list" where
  "extract_names env [] = []"
| "extract_names env (c # cs) =
     (case name_match (c # cs) of
        Some (name, rest) \<Rightarrow>
          (case normalize_text_strict env (Some name) of
             Some t \<Rightarrow> t # extract_names env rest
           | None \<Rightarrow> extract_names env rest)
      | None \<Rightarrow> extract_names env cs)"
  by pat_completeness auto
termination
  by (relation "measure (\<lambda>(env, s). length s)") (auto dest!: name_match_shorter)

text \<open>Truth of a parsed JSON value.\<close>

fun js_truthy :: "canonical_json \<Rightarrow> bool" where
  "js_truthy C_null = False"
| "js_truthy (C_bool b) = b"
| "js_truthy (C_int i) = (i \<noteq> 0)"
| "js_truthy (C_string s) = (s \<noteq> [])"
| "js_truthy v = True"

definition product_on_pages :: code_units where "product_on_pages = units ''ProductOnPages''"
definition product_on_pages_lower :: code_units where "product_on_pages_lower = units ''productOnPages''"

definition page_names :: "js_env \<Rightarrow> product \<Rightarrow> code_units list" where
  "page_names env p =
     List.map_filter (\<lambda>n. normalize_text_strict env (Some n)) (co_pages (pr_core p)) @
     (case map_of (unknown_elements p) product_on_pages of
        Some v \<Rightarrow> if js_truthy v then extract_names env (js_text v) else []
      | None \<Rightarrow> []) @
     (case map_of (advanced_blocks p) product_on_pages of
        Some b \<Rightarrow> if b \<noteq> [] then extract_names env b else []
      | None \<Rightarrow>
          (case map_of (advanced_blocks p) product_on_pages_lower of
             Some b \<Rightarrow> if b \<noteq> [] then extract_names env b else []
           | None \<Rightarrow> []))"

definition page_identity :: "(code_units \<Rightarrow> code_units option) \<Rightarrow> code_units \<Rightarrow> code_units" where
  "page_identity resolver name =
     (case resolver name of
        Some key \<Rightarrow> if key \<noteq> [] then units ''id:'' @ key else units ''name:'' @ lower_units name
      | None \<Rightarrow> units ''name:'' @ lower_units name)"

definition resolve_page_identities ::
    "js_env \<Rightarrow> (code_units \<Rightarrow> code_units option) \<Rightarrow> product \<Rightarrow> code_units list" where
  "resolve_page_identities env resolver p =
     sort (remdups (map (page_identity resolver) (page_names env p)))"


section \<open>The projection\<close>

definition catalog_comparison_projection_version :: code_units where
  "catalog_comparison_projection_version = units ''catalog-comparison-v1''"

definition built_in_output_policy_version :: code_units where
  "built_in_output_policy_version = units ''shopsite-built-in-output-policy-v1''"

definition field_catalog_version :: code_units where
  "field_catalog_version = units ''shopsite-field-catalog-v1''"

record comparison_context =
  cx_projection_version :: code_units
  cx_built_in_policy :: code_units
  cx_field_catalog :: code_units
  cx_page_import_hash :: "code_units option"

definition build_comparison_context :: "code_units option \<Rightarrow> comparison_context" where
  "build_comparison_context page_import_hash =
     \<lparr>cx_projection_version = catalog_comparison_projection_version,
      cx_built_in_policy = built_in_output_policy_version,
      cx_field_catalog = field_catalog_version,
      cx_page_import_hash = page_import_hash\<rparr>"

definition is_comparison_context_stale :: "comparison_context \<Rightarrow> comparison_context \<Rightarrow> bool" where
  "is_comparison_context_stale recorded current \<longleftrightarrow>
     cx_projection_version recorded \<noteq> cx_projection_version current \<or>
     cx_built_in_policy recorded \<noteq> cx_built_in_policy current \<or>
     cx_field_catalog recorded \<noteq> cx_field_catalog current \<or>
     cx_page_import_hash recorded \<noteq> cx_page_import_hash current"

type_synonym field_values = "(code_units \<times> code_units option) list"

record comparison_projection =
  cp_version :: code_units
  cp_sku :: code_units
  cp_fields :: field_values
  cp_pages :: "code_units list"
  cp_preserved :: "(code_units \<times> code_units) list"

definition minimum_quantity :: code_units where "minimum_quantity = units ''MinimumQuantity''"
definition product_type :: code_units where "product_type = units ''ProductType''"
definition custom_key :: "code_units \<Rightarrow> code_units" where "custom_key tag = units ''custom.'' @ tag"

definition additional_images_text :: "js_env \<Rightarrow> product \<Rightarrow> code_units option" where
  "additional_images_text env p =
     (let images = List.map_filter (\<lambda>v. normalize_image_path env (Some v)) (md_additional (co_media (pr_core p)))
      in if images = [] then None
         else Some (serialize_canonical_json (C_array (map C_string images)) 0 0))"

text \<open>The fields of fixed name, in the order they are set.\<close>

definition fixed_fields :: "js_env \<Rightarrow> controlled_fields \<Rightarrow> product \<Rightarrow> field_values" where
  "fixed_fields env controlled p =
     (let core = pr_core p; text = normalize_text_strict env in
     [(units ''sku'', text (Some (pr_sku p))),
      (units ''status'', text (Some (status_text (pr_status p)))),
      (units ''core.name'', text (Some (co_name core))),
      (units ''core.price'', normalize_price env (co_price core)),
      (units ''core.salePrice'', normalize_price env (co_sale_price core)),
      (units ''core.description'', text (co_description core)),
      (units ''core.weight'', text (co_weight core)),
      (units ''core.taxable'', Some (units (if co_taxable core then ''true'' else ''false''))),
      (units ''core.availability'',
         resolve_controlled env controlled (units ''core.availability'') (text (co_availability core))),
      (units ''core.quantityOnHand'',
         normalize_quantity env (map_option Quantity_int (iv_quantity (co_inventory core)))),
      (units ''core.media.primary'', normalize_image_path env (md_primary (co_media core))),
      (units ''core.media.additional'', additional_images_text env p),
      (units ''seo.fileName'', normalize_file_name_value env (se_file_name (co_seo core))),
      (units ''seo.searchKeywords'', normalize_collapsed env (se_search_keywords (co_seo core)))])"

definition or_else :: "'a option \<Rightarrow> 'a \<Rightarrow> 'a" where
  "or_else v d = (case v of Some a \<Rightarrow> a | None \<Rightarrow> d)"

text \<open>The two custom tags with a DTD default.\<close>

definition defaulted_fields :: "js_env \<Rightarrow> controlled_fields \<Rightarrow> product \<Rightarrow> field_values" where
  "defaulted_fields env controlled p =
     [(custom_key minimum_quantity,
         normalize_quantity env (Some (Quantity_text
           (or_else (resolve_effective_custom p minimum_quantity) (units ''0''))))),
      (custom_key product_type,
         resolve_controlled env controlled (custom_key product_type)
           (normalize_text_strict env (Some
             (or_else (resolve_effective_custom p product_type) (units ''Tangible'')))))]"

definition custom_value ::
    "js_env \<Rightarrow> controlled_fields \<Rightarrow> code_units \<Rightarrow> code_units \<Rightarrow> code_units option" where
  "custom_value env controlled tag value =
     (if map_of controlled (custom_key tag) \<noteq> None
      then resolve_controlled env controlled (custom_key tag) (normalize_text_strict env (Some value))
      else if tag = file_name_tag then normalize_file_name_value env (Some value)
      else normalize_text_strict env (Some value))"

fun custom_fields_loop ::
    "js_env \<Rightarrow> controlled_fields \<Rightarrow> code_units list \<Rightarrow> (code_units \<times> code_units) list \<Rightarrow> field_values" where
  "custom_fields_loop env controlled seen [] = []"
| "custom_fields_loop env controlled seen ((tag, value) # entries) =
     (if tag \<in> set seen then custom_fields_loop env controlled seen entries
      else (custom_key tag, custom_value env controlled tag value) #
           custom_fields_loop env controlled (tag # seen) entries)"

definition preserved_unknown :: "js_env \<Rightarrow> product \<Rightarrow> (code_units \<times> code_units) list" where
  "preserved_unknown env p =
     List.map_filter (\<lambda>(tag, value).
       if tag \<in> {product_on_pages, product_on_pages_lower, minimum_quantity, product_type, file_name_tag}
       then None
       else map_option (\<lambda>t. (units ''unknown:'' @ tag, t))
              (normalize_text_strict env (unknown_text (Some value)))) (unknown_elements p)"

definition preserved_blocks :: "js_env \<Rightarrow> product \<Rightarrow> (code_units \<times> code_units) list" where
  "preserved_blocks env p =
     List.map_filter (\<lambda>(tag, value).
       if lower_units tag = lower_units product_on_pages then None
       else map_option (\<lambda>t. (units ''block:'' @ tag, t))
              (normalize_advanced_block env (Some value))) (advanced_blocks p)"

definition build_comparison_projection ::
    "js_env \<Rightarrow> controlled_fields \<Rightarrow> (code_units \<Rightarrow> code_units option) \<Rightarrow> product \<Rightarrow> comparison_projection" where
  "build_comparison_projection env controlled resolver p =
     \<lparr>cp_version = catalog_comparison_projection_version,
      cp_sku = or_else (normalize_text_strict env (Some (pr_sku p))) [],
      cp_fields = fixed_fields env controlled p @ defaulted_fields env controlled p @
        custom_fields_loop env controlled [minimum_quantity, product_type] (pr_custom p),
      cp_pages = resolve_page_identities env resolver p,
      cp_preserved = preserved_unknown env p @ preserved_blocks env p\<rparr>"

definition projection_value :: "comparison_projection \<Rightarrow> js_value" where
  "projection_value p = plain_object
     [(units ''version'', V_string (cp_version p)),
      (units ''sku'', V_string (cp_sku p)),
      (units ''fields'', plain_object (map (map_prod id nullable_string) (cp_fields p))),
      (units ''pages'', V_array True [] (map (Data \<circ> V_string) (cp_pages p))),
      (units ''preserved'', plain_object (map (map_prod id V_string) (cp_preserved p)))]"

definition hash_comparison_projection :: "comparison_projection \<Rightarrow> (json_error, string) result" where
  "hash_comparison_projection p = hash_canonical_json (projection_value p)"

definition comparison_hash_for_product ::
    "js_env \<Rightarrow> controlled_fields \<Rightarrow> (code_units \<Rightarrow> code_units option) \<Rightarrow> product \<Rightarrow> (json_error, string) result" where
  "comparison_hash_for_product env controlled resolver p =
     hash_comparison_projection (build_comparison_projection env controlled resolver p)"

section \<open>Hunks\<close>

record field_hunk =
  fh_field :: code_units
  fh_baseline :: "code_units option"
  fh_remote :: "code_units option"

definition hunk :: "code_units \<Rightarrow> code_units option \<Rightarrow> code_units option \<Rightarrow> field_hunk" where
  "hunk f b r = \<lparr>fh_field = f, fh_baseline = b, fh_remote = r\<rparr>"

text \<open>\<open>hunks.sort(cmp)\<close>: a stable sort, by insertion.\<close>

fun insert_by :: "('a \<Rightarrow> 'a \<Rightarrow> int) \<Rightarrow> 'a \<Rightarrow> 'a list \<Rightarrow> 'a list" where
  "insert_by cmp x [] = [x]"
| "insert_by cmp x (y # ys) = (if cmp x y \<le> 0 then x # y # ys else y # insert_by cmp x ys)"

definition sort_by :: "('a \<Rightarrow> 'a \<Rightarrow> int) \<Rightarrow> 'a list \<Rightarrow> 'a list" where
  "sort_by cmp xs = foldr (insert_by cmp) xs []"

text \<open>\<open>values[key] ?? null\<close>.\<close>

definition field_value_of :: "field_values \<Rightarrow> code_units \<Rightarrow> code_units option" where
  "field_value_of fs f = (case map_of fs f of Some v \<Rightarrow> v | None \<Rightarrow> None)"

definition pages_field :: code_units where "pages_field = units ''core.productOnPages''"
definition preserved_field :: "code_units \<Rightarrow> code_units" where
  "preserved_field tag = units ''preserved.'' @ tag"

definition field_hunks :: "field_values \<Rightarrow> field_values \<Rightarrow> field_hunk list" where
  "field_hunks b r =
     List.map_filter (\<lambda>f.
       if field_value_of b f \<noteq> field_value_of r f
       then Some (hunk f (field_value_of b f) (field_value_of r f)) else None)
       (first_occurrences (map fst b @ map fst r))"

definition page_hunks :: "code_units list \<Rightarrow> code_units list \<Rightarrow> field_hunk list" where
  "page_hunks b r =
     map (\<lambda>page. hunk pages_field None (Some page)) (filter (\<lambda>page. page \<notin> set b) (first_occurrences r)) @
     map (\<lambda>page. hunk pages_field (Some page) None) (filter (\<lambda>page. page \<notin> set r) (first_occurrences b))"

definition preserved_hunks ::
    "(code_units \<times> code_units) list \<Rightarrow> (code_units \<times> code_units) list \<Rightarrow> field_hunk list" where
  "preserved_hunks b r =
     List.map_filter (\<lambda>tag.
       if map_of b tag \<noteq> map_of r tag
       then Some (hunk (preserved_field tag) (map_of b tag) (map_of r tag)) else None)
       (first_occurrences (map fst b @ map fst r))"

text \<open>A product with no baseline: everything the remote has.\<close>

definition new_product_hunks :: "comparison_projection \<Rightarrow> field_hunk list" where
  "new_product_hunks r =
     List.map_filter (\<lambda>(f, v). case v of Some t \<Rightarrow> Some (hunk f None (Some t)) | None \<Rightarrow> None) (cp_fields r) @
     map (\<lambda>page. hunk pages_field None (Some page)) (cp_pages r) @
     map (\<lambda>(tag, v). hunk (preserved_field tag) None (Some v)) (cp_preserved r)"

definition compare_hunks :: "js_env \<Rightarrow> field_hunk \<Rightarrow> field_hunk \<Rightarrow> int" where
  "compare_hunks env a b =
     (let c = je_compare env (fh_field a) (fh_field b)
      in if c \<noteq> 0 then c else je_compare env (or_else (fh_remote a) []) (or_else (fh_remote b) []))"

definition diff_comparison_projections ::
    "js_env \<Rightarrow> comparison_projection option \<Rightarrow> comparison_projection \<Rightarrow> field_hunk list" where
  "diff_comparison_projections env baseline remote =
     (case baseline of
        None \<Rightarrow> sort_by (\<lambda>a b. je_compare env (fh_field a) (fh_field b)) (new_product_hunks remote)
      | Some b \<Rightarrow>
          sort_by (compare_hunks env)
            (field_hunks (cp_fields b) (cp_fields remote) @
             page_hunks (cp_pages b) (cp_pages remote) @
             preserved_hunks (cp_preserved b) (cp_preserved remote)))"


text \<open>
  The stored projection version: the marker is inserted when the table has none and read back; a
  database without the table reports the current version.
\<close>

definition projection_meta_key :: code_units where
  "projection_meta_key = units ''catalog_comparison_projection_version''"

definition ensure_projection_version ::
    "(code_units \<times> code_units) list option \<Rightarrow> code_units \<times> (code_units \<times> code_units) list option" where
  "ensure_projection_version meta =
     (let meta' = map_option (\<lambda>rows.
            if map_of rows projection_meta_key = None
            then rows @ [(projection_meta_key, catalog_comparison_projection_version)] else rows) meta
      in (case meta' of
            Some rows \<Rightarrow> or_else (map_of rows projection_meta_key) catalog_comparison_projection_version
          | None \<Rightarrow> catalog_comparison_projection_version, meta'))"

section \<open>Reading a projection\<close>

lemma set_insert_by [simp]: "set (insert_by cmp x xs) = insert x (set xs)"
  by (induction xs) auto

lemma set_sort_by [simp]: "set (sort_by cmp xs) = set xs"
  by (induction xs) (auto simp: sort_by_def)

lemma length_insert_by [simp]: "length (insert_by cmp x xs) = Suc (length xs)"
  by (induction xs) auto

lemma length_sort_by [simp]: "length (sort_by cmp xs) = length xs"
  by (induction xs) (auto simp: sort_by_def)

lemma sort_by_Nil [simp]: "sort_by cmp xs = [] \<longleftrightarrow> xs = []"
  by (metis length_0_conv length_sort_by)

lemma set_map_filter: "set (List.map_filter f xs) = {y. \<exists>x \<in> set xs. f x = Some y}"
  by (induction xs) (auto simp: List.map_filter_simps split: option.splits)

definition view_field :: "comparison_projection \<Rightarrow> code_units \<Rightarrow> code_units option" where
  "view_field p f = field_value_of (cp_fields p) f"

definition view_preserved :: "comparison_projection \<Rightarrow> code_units \<Rightarrow> code_units option" where
  "view_preserved p t = map_of (cp_preserved p) t"

lemma hunk_eq [simp]: "hunk f b r = hunk f' b' r' \<longleftrightarrow> f = f' \<and> b = b' \<and> r = r'"
  by (simp add: hunk_def)

lemma hunk_sel [simp]: "fh_field (hunk f b r) = f" "fh_baseline (hunk f b r) = b" "fh_remote (hunk f b r) = r"
  by (simp_all add: hunk_def)

lemma field_value_of_None: "f \<notin> fst ` set fs \<Longrightarrow> field_value_of fs f = None"
  by (simp add: field_value_of_def map_of_eq_None_iff [THEN iffD2])

text \<open>The hunks of two projections, as a set: exactly the differing entries.\<close>

definition differences :: "comparison_projection \<Rightarrow> comparison_projection \<Rightarrow> field_hunk set" where
  "differences b r =
     {h. \<exists>f. h = hunk f (view_field b f) (view_field r f) \<and> view_field b f \<noteq> view_field r f} \<union>
     {h. \<exists>q \<in> set (cp_pages r) - set (cp_pages b). h = hunk pages_field None (Some q)} \<union>
     {h. \<exists>q \<in> set (cp_pages b) - set (cp_pages r). h = hunk pages_field (Some q) None} \<union>
     {h. \<exists>t. h = hunk (preserved_field t) (view_preserved b t) (view_preserved r t) \<and>
            view_preserved b t \<noteq> view_preserved r t}"

lemma set_field_hunks:
  "set (field_hunks b r) =
     {h. \<exists>f. h = hunk f (field_value_of b f) (field_value_of r f) \<and> field_value_of b f \<noteq> field_value_of r f}"
proof -
  have "f \<in> set (map fst b @ map fst r)" if "field_value_of b f \<noteq> field_value_of r f" for f
    using that field_value_of_None [of f b] field_value_of_None [of f r] by force
  moreover have "set (field_hunks b r) =
      {h. \<exists>f \<in> set (map fst b @ map fst r).
        h = hunk f (field_value_of b f) (field_value_of r f) \<and> field_value_of b f \<noteq> field_value_of r f}"
    unfolding field_hunks_def set_map_filter set_first_occurrences by (intro Collect_cong bex_cong) auto
  ultimately show ?thesis by blast
qed

lemma set_preserved_hunks:
  "set (preserved_hunks b r) =
     {h. \<exists>t. h = hunk (preserved_field t) (map_of b t) (map_of r t) \<and> map_of b t \<noteq> map_of r t}"
proof -
  have "t \<in> set (map fst b @ map fst r)" if "map_of b t \<noteq> map_of r t" for t
    using that map_of_eq_None_iff [of b t] map_of_eq_None_iff [of r t] by auto
  moreover have "set (preserved_hunks b r) =
      {h. \<exists>t \<in> set (map fst b @ map fst r).
        h = hunk (preserved_field t) (map_of b t) (map_of r t) \<and> map_of b t \<noteq> map_of r t}"
    unfolding preserved_hunks_def set_map_filter set_first_occurrences by (intro Collect_cong bex_cong) auto
  ultimately show ?thesis by blast
qed

lemma set_diff: "set (diff_comparison_projections env (Some b) r) = differences b r"
  by (auto simp: diff_comparison_projections_def differences_def set_field_hunks set_preserved_hunks
      page_hunks_def view_field_def view_preserved_def)

lemma differences_empty:
  "differences b r = {} \<longleftrightarrow>
     view_field b = view_field r \<and> set (cp_pages b) = set (cp_pages r) \<and> view_preserved b = view_preserved r"
  by (auto simp: differences_def fun_eq_iff)

lemma diff_empty_iff:
  "diff_comparison_projections env (Some b) r = [] \<longleftrightarrow>
     view_field b = view_field r \<and> set (cp_pages b) = set (cp_pages r) \<and> view_preserved b = view_preserved r"
  using set_diff [of env b r] differences_empty [of b r] by (metis set_empty)


text \<open>The keys of the projection's fields.\<close>

definition fixed_names :: "code_units list" where
  "fixed_names = map units [''sku'', ''status'', ''core.name'', ''core.price'', ''core.salePrice'', ''core.description'',
     ''core.weight'', ''core.taxable'', ''core.availability'', ''core.quantityOnHand'', ''core.media.primary'',
     ''core.media.additional'', ''seo.fileName'', ''seo.searchKeywords'']"

lemma fixed_keys: "map fst (fixed_fields env c p) = fixed_names"
  by (simp add: fixed_fields_def fixed_names_def Let_def)

lemma custom_not_fixed: "custom_key t \<notin> set fixed_names"
  by (simp add: fixed_names_def custom_key_def units_def code_def)

lemma custom_key_inj [simp]: "custom_key s = custom_key t \<longleftrightarrow> s = t"
  by (simp add: custom_key_def)

lemma default_tags_differ [simp]: "minimum_quantity \<noteq> product_type" "product_type \<noteq> minimum_quantity"
  by (simp_all add: minimum_quantity_def product_type_def)

text \<open>What the projection reads of one custom tag.\<close>

definition custom_view :: "js_env \<Rightarrow> controlled_fields \<Rightarrow> product \<Rightarrow> code_units \<Rightarrow> code_units option" where
  "custom_view env c p t =
     (if t \<in> {minimum_quantity, product_type} then field_value_of (defaulted_fields env c p) (custom_key t)
      else case map_of (pr_custom p) t of None \<Rightarrow> None | Some v \<Rightarrow> custom_value env c t v)"

lemma custom_loop_lookup:
  "map_of (custom_fields_loop env c seen es) (custom_key t) =
     (if t \<in> set seen then None else map_option (custom_value env c t) (map_of es t))"
  by (induction env c seen es rule: custom_fields_loop.induct) auto

lemma custom_loop_keys: "f \<in> fst ` set (custom_fields_loop env c seen es) \<Longrightarrow> \<exists>t. f = custom_key t"
  by (induction env c seen es rule: custom_fields_loop.induct) (auto split: if_splits)

lemma field_value_of_append:
  "field_value_of (xs @ ys) f = (if f \<in> fst ` set xs then field_value_of xs f else field_value_of ys f)"
proof (cases "f \<in> fst ` set xs")
  case True
  then obtain v where "map_of xs f = Some v" by (metis map_of_eq_None_iff not_Some_eq)
  with True show ?thesis by (simp add: field_value_of_def)
next
  case False
  then have "map_of xs f = None" by (simp add: map_of_eq_None_iff)
  with False show ?thesis by (simp add: field_value_of_def map_add_def)
qed

lemma fixed_keys_set: "fst ` set (fixed_fields env c p) = set fixed_names"
  by (metis fixed_keys list.set_map)

lemma view_field_fixed:
  "f \<in> set fixed_names \<Longrightarrow>
     view_field (build_comparison_projection env c R p) f = field_value_of (fixed_fields env c p) f"
  by (simp add: view_field_def build_comparison_projection_def field_value_of_append fixed_keys_set)

lemma view_field_custom [simp]:
  "view_field (build_comparison_projection env c R p) (custom_key t) = custom_view env c p t"
proof -
  have "fst ` set (defaulted_fields env c p) = {custom_key minimum_quantity, custom_key product_type}"
    by (simp add: defaulted_fields_def)
  then have "view_field (build_comparison_projection env c R p) (custom_key t) =
      (if t \<in> {minimum_quantity, product_type} then field_value_of (defaulted_fields env c p) (custom_key t)
       else field_value_of (custom_fields_loop env c [minimum_quantity, product_type] (pr_custom p)) (custom_key t))"
    by (simp add: view_field_def build_comparison_projection_def field_value_of_append fixed_keys_set
        custom_not_fixed)
  then show ?thesis
    by (simp add: custom_view_def field_value_of_def [of "custom_fields_loop _ _ _ _"] custom_loop_lookup
        split: option.split)
qed

lemma view_field_other:
  assumes "f \<notin> set fixed_names" and "\<And>t. f \<noteq> custom_key t"
  shows "view_field (build_comparison_projection env c R p) f = None"
proof -
  have "f \<notin> fst ` set (custom_fields_loop env c [minimum_quantity, product_type] (pr_custom p))"
    using assms(2) custom_loop_keys by blast
  then show ?thesis
    using assms by (simp add: view_field_def build_comparison_projection_def field_value_of_append
        fixed_keys_set defaulted_fields_def field_value_of_None)
qed

text \<open>What it reads of the preserved data, when no tag repeats.\<close>

definition unknown_key :: "code_units \<Rightarrow> code_units" where "unknown_key t = units ''unknown:'' @ t"
definition block_key :: "code_units \<Rightarrow> code_units" where "block_key t = units ''block:'' @ t"

definition projected_tags :: "code_units set" where
  "projected_tags = {product_on_pages, product_on_pages_lower, minimum_quantity, product_type, file_name_tag}"

definition unknown_view :: "js_env \<Rightarrow> product \<Rightarrow> code_units \<Rightarrow> code_units option" where
  "unknown_view env p t =
     (if t \<in> projected_tags then None else normalize_text_strict env (unknown_value p t))"

definition block_view :: "js_env \<Rightarrow> product \<Rightarrow> code_units \<Rightarrow> code_units option" where
  "block_view env p t =
     (if lower_units t = lower_units product_on_pages then None
      else normalize_advanced_block env (map_of (advanced_blocks p) t))"

definition distinct_tags :: "product \<Rightarrow> bool" where
  "distinct_tags p \<longleftrightarrow> distinct (map fst (pr_custom p)) \<and> distinct (map fst (unknown_elements p)) \<and>
     distinct (map fst (advanced_blocks p))"

lemma preserved_keys_differ [simp]: "unknown_key t \<noteq> block_key u" "block_key u \<noteq> unknown_key t"
  by (simp_all add: unknown_key_def block_key_def units_def code_def)

lemma preserved_keys_inj [simp]:
  "unknown_key t = unknown_key u \<longleftrightarrow> t = u" "block_key t = block_key u \<longleftrightarrow> t = u"
  by (simp_all add: unknown_key_def block_key_def)

lemma inj_keys: "inj unknown_key" "inj block_key"
  by (simp_all add: inj_def)

lemma map_of_map_filter:
  assumes "distinct (map fst xs)" and "inj key"
  shows "map_of (List.map_filter (\<lambda>(s, v). map_option (Pair (key s)) (g s v)) xs) (key t) =
     (case map_of xs t of None \<Rightarrow> None | Some v \<Rightarrow> g t v)"
  using assms
proof (induction xs)
  case (Cons x xs)
  have out: "map_of (List.map_filter (\<lambda>(s, v). map_option (Pair (key s)) (g s v)) xs) (key t) = None"
    if "t \<notin> fst ` set xs"
    using that Cons.prems(2) by (force simp: map_of_eq_None_iff set_map_filter inj_eq)
  show ?case
    using Cons out by (cases x) (auto simp: List.map_filter_simps inj_eq split: option.splits)
qed simp

lemma map_filter_other_key:
  "(\<And>s. k \<noteq> key s) \<Longrightarrow> map_of (List.map_filter (\<lambda>(s, v). map_option (Pair (key s)) (g s v)) xs) k = None"
  by (auto simp: map_of_eq_None_iff set_map_filter image_iff)

lemma preserved_unknown_alt:
  "preserved_unknown env p = List.map_filter (\<lambda>(t, v). map_option (Pair (unknown_key t))
     (if t \<in> projected_tags then None else normalize_text_strict env (unknown_text (Some v)))) (unknown_elements p)"
  unfolding preserved_unknown_def projected_tags_def unknown_key_def
  by (rule arg_cong [where f = "\<lambda>f. List.map_filter f _"]) (auto simp: fun_eq_iff)

lemma preserved_blocks_alt:
  "preserved_blocks env p = List.map_filter (\<lambda>(t, v). map_option (Pair (block_key t))
     (if lower_units t = lower_units product_on_pages then None
      else normalize_advanced_block env (Some v))) (advanced_blocks p)"
  unfolding preserved_blocks_def block_key_def
  by (rule arg_cong [where f = "\<lambda>f. List.map_filter f _"]) (auto simp: fun_eq_iff)

lemma unknown_lookup:
  assumes "distinct_tags p"
  shows "map_of (preserved_unknown env p) (unknown_key t) = unknown_view env p t"
    and "map_of (preserved_blocks env p) (block_key t) = block_view env p t"
proof -
  have d: "distinct (map fst (unknown_elements p))" "distinct (map fst (advanced_blocks p))"
    using assms by (simp_all add: distinct_tags_def)
  show "map_of (preserved_unknown env p) (unknown_key t) = unknown_view env p t"
    unfolding preserved_unknown_alt map_of_map_filter [of _ unknown_key, OF d(1) inj_keys(1)]
    by (simp add: unknown_view_def unknown_value_def normalize_text_strict_def unknown_text_def split: option.split)
  show "map_of (preserved_blocks env p) (block_key t) = block_view env p t"
    unfolding preserved_blocks_alt map_of_map_filter [of _ block_key, OF d(2) inj_keys(2)]
    by (simp add: block_view_def normalize_advanced_block_def normalize_text_strict_def split: option.split)
qed

lemma preserved_lookup_other:
  "(\<And>t. k \<noteq> unknown_key t) \<Longrightarrow> map_of (preserved_unknown env p) k = None"
  "(\<And>t. k \<noteq> block_key t) \<Longrightarrow> map_of (preserved_blocks env p) k = None"
  unfolding preserved_unknown_alt preserved_blocks_alt by (rule map_filter_other_key, simp)+

lemma view_preserved_proj:
  "view_preserved (build_comparison_projection env c R p) k =
     (case map_of (preserved_unknown env p) k of Some v \<Rightarrow> Some v | None \<Rightarrow> map_of (preserved_blocks env p) k)"
  by (auto simp: view_preserved_def build_comparison_projection_def map_add_def
      preserved_lookup_other(1) split: option.splits)

lemma view_preserved_unknown:
  "distinct_tags p \<Longrightarrow>
     view_preserved (build_comparison_projection env c R p) (unknown_key t) = unknown_view env p t"
  by (simp add: view_preserved_proj unknown_lookup preserved_lookup_other split: option.split)

lemma view_preserved_block:
  "distinct_tags p \<Longrightarrow>
     view_preserved (build_comparison_projection env c R p) (block_key t) = block_view env p t"
  by (simp add: view_preserved_proj unknown_lookup preserved_lookup_other split: option.split)

lemma view_preserved_other:
  "(\<And>t. k \<noteq> unknown_key t) \<Longrightarrow> (\<And>t. k \<noteq> block_key t) \<Longrightarrow>
     view_preserved (build_comparison_projection env c R p) k = None"
  by (simp add: view_preserved_proj preserved_lookup_other)

end
