(* ===== verification/DriftHunks.thy ===== *)
theory DriftHunks
  imports CatalogComparison
begin

text \<open>
  Drift findings and their hunks (\<open>src/src/shopsite/drift-hunks.ts\<close>): the stored row, the reading of
  its diff record, the reasons a hunk is held aside, and the merge of a single field of the remote
  product into the baseline. A stored JSON text is its parsed value or unreadable.
\<close>

section \<open>The stored finding\<close>

datatype 'a stored_json = Readable 'a | Unreadable

datatype drift_status = Open_drift | In_reconcile | Terminal code_units

record drift_row =
  dr_id :: code_units
  dr_workspace :: code_units
  dr_sku :: code_units
  dr_detected_at :: code_units
  dr_status :: drift_status
  dr_local_hash :: "code_units option"
  dr_remote_hash :: code_units
  dr_local_json :: "product stored_json option"
  dr_remote_json :: "product stored_json"
  dr_diff_json :: "canonical_json stored_json option"
  dr_change_set :: "code_units option"

datatype baseline_source = From_head | From_working_tree

record parsed_drift_diff =
  pd_hunks :: "field_hunk list"
  pd_baseline_commit :: "code_units option"
  pd_baseline_source :: baseline_source
  pd_baseline_dirty :: bool
  pd_projection_version :: code_units
  pd_has_local :: bool
  pd_context :: canonical_json
  pd_raw :: canonical_json

text \<open>An element of the hunk array that has a text field; other values of a hunk are text or null.\<close>

definition hunk_of_json :: "canonical_json \<Rightarrow> field_hunk option" where
  "hunk_of_json h =
     (case jget (units ''field'') (Some h) of
        Some (C_string f) \<Rightarrow>
          Some (hunk f (jstring (jget (units ''baselineValue'') (Some h)))
                       (jstring (jget (units ''remoteValue'') (Some h))))
      | _ \<Rightarrow> None)"

text \<open>The raw diff record; reading a property of a stored \<open>null\<close> throws.\<close>

definition raw_diff :: "drift_row \<Rightarrow> canonical_json option" where
  "raw_diff d =
     (case dr_diff_json d of
        Some (Readable C_null) \<Rightarrow> None
      | Some (Readable v) \<Rightarrow> Some v
      | _ \<Rightarrow> Some (C_object []))"

definition parse_drift_diff :: "drift_row \<Rightarrow> parsed_drift_diff option" where
  "parse_drift_diff d =
     map_option (\<lambda>raw. let get = (\<lambda>k. jget (units k) (Some raw)) in
       \<lparr>pd_hunks = (case get ''hunks'' of Some (C_array hs) \<Rightarrow> List.map_filter hunk_of_json hs | _ \<Rightarrow> []),
        pd_baseline_commit = jstring (get ''baselineCommit''),
        pd_baseline_source =
          (if get ''baselineSource'' = Some (C_string (units ''working-tree'')) then From_working_tree else From_head),
        pd_baseline_dirty = (get ''baselineDirty'' = Some (C_bool True)),
        pd_projection_version = or_else (jstring (get ''projectionVersion'')) catalog_comparison_projection_version,
        pd_has_local = (get ''hasLocalProduct'' \<noteq> Some (C_bool False) \<and> dr_local_json d \<noteq> None),
        pd_context = or_else (get ''context'') C_null,
        pd_raw = raw\<rparr>) (raw_diff d)"

section \<open>Held hunks\<close>

datatype hunk_held_reason = New_product | Held_in_reconcile | Unavailable_assignment

definition is_unverified_page_value :: "code_units option \<Rightarrow> bool" where
  "is_unverified_page_value v \<longleftrightarrow> (case v of Some s \<Rightarrow> starts_with s (units ''name:'') | None \<Rightarrow> False)"

text \<open>
  \<open>reconciled\<close> is the reconciled field set when it is known; \<open>reviewed\<close> the baseline and remote
  values of the hunk under review, when one is given.
\<close>

definition held_reason_for_hunk ::
    "drift_row \<Rightarrow> parsed_drift_diff \<Rightarrow> code_units \<Rightarrow> code_units list option \<Rightarrow>
     (code_units option \<times> code_units option) option \<Rightarrow> hunk_held_reason option" where
  "held_reason_for_hunk d parsed field reconciled reviewed =
     (if dr_status d = In_reconcile then
        (case reconciled of
           None \<Rightarrow> Some Held_in_reconcile
         | Some linked \<Rightarrow> if field \<in> set linked then Some Held_in_reconcile else None)
      else if \<not> pd_has_local parsed then Some New_product
      else if field = pages_field then
        (case reviewed of
           Some (_, remote) \<Rightarrow>
             if is_unverified_page_value remote then Some Unavailable_assignment else None
         | None \<Rightarrow>
             if list_ex (\<lambda>h. fh_field h = pages_field \<and> is_unverified_page_value (fh_remote h)) (pd_hunks parsed)
             then Some Unavailable_assignment else None)
      else None)"

definition seo_file_name_field :: code_units where "seo_file_name_field = units ''seo.fileName''"

definition is_filename_field :: "code_units \<Rightarrow> bool" where
  "is_filename_field field \<longleftrightarrow> field = seo_file_name_field \<or> field = custom_key file_name_tag"

section \<open>Merging one field\<close>

definition set_unknown :: "(code_units \<times> canonical_json) list \<Rightarrow> product \<Rightarrow> product" where
  "set_unknown es p =
     p\<lparr>pr_shopsite := pr_shopsite p\<lparr>sm_preserved := sm_preserved (pr_shopsite p)\<lparr>pf_unknown := es\<rparr>\<rparr>\<rparr>"

definition set_blocks :: "(code_units \<times> code_units) list \<Rightarrow> product \<Rightarrow> product" where
  "set_blocks bs p =
     p\<lparr>pr_shopsite := pr_shopsite p\<lparr>sm_preserved := sm_preserved (pr_shopsite p)\<lparr>pf_blocks := bs\<rparr>\<rparr>\<rparr>"

definition set_or_delete_custom ::
    "code_units \<Rightarrow> code_units \<Rightarrow> (code_units \<times> code_units) list \<Rightarrow> (code_units \<times> code_units) list" where
  "set_or_delete_custom tag value custom =
     (if trim_units value = [] then AList.delete tag custom else AList.update tag value custom)"

definition merge_custom :: "code_units \<Rightarrow> product \<Rightarrow> product \<Rightarrow> product" where
  "merge_custom tag remote nxt =
     (case map_of (pr_custom remote) tag of
        Some value \<Rightarrow>
          set_unknown (AList.delete tag (unknown_elements nxt))
            (nxt\<lparr>pr_custom := set_or_delete_custom tag value (pr_custom nxt)\<rparr>)
      | None \<Rightarrow>
          let deleted = nxt\<lparr>pr_custom := AList.delete tag (pr_custom nxt)\<rparr>
          in case map_of (unknown_elements remote) tag of
               Some v \<Rightarrow>
                 if v \<noteq> C_null then set_unknown (AList.update tag v (unknown_elements nxt)) deleted
                 else set_unknown (AList.delete tag (unknown_elements nxt)) deleted
             | None \<Rightarrow> set_unknown (AList.delete tag (unknown_elements nxt)) deleted)"

definition merge_pages :: "product \<Rightarrow> product \<Rightarrow> product" where
  "merge_pages remote nxt =
     (let assigned = nxt\<lparr>pr_core := pr_core nxt\<lparr>co_pages := co_pages (pr_core remote)\<rparr>\<rparr>;
          unknown = (case map_of (unknown_elements remote) product_on_pages of
             Some v \<Rightarrow> if v \<noteq> C_null then AList.update product_on_pages v (unknown_elements nxt)
                       else AList.delete product_on_pages (unknown_elements nxt)
           | None \<Rightarrow> AList.delete product_on_pages (unknown_elements nxt));
          advanced = first_some [map_of (advanced_blocks remote) product_on_pages,
                                 map_of (advanced_blocks remote) product_on_pages_lower];
          blocks = (case advanced of
             Some b \<Rightarrow> AList.delete product_on_pages_lower (AList.update product_on_pages b (advanced_blocks nxt))
           | None \<Rightarrow> AList.delete product_on_pages_lower (AList.delete product_on_pages (advanced_blocks nxt)))
      in set_blocks blocks (set_unknown unknown assigned))"

definition merge_unknown :: "code_units \<Rightarrow> product \<Rightarrow> product \<Rightarrow> product" where
  "merge_unknown tag remote nxt =
     (case map_of (unknown_elements remote) tag of
        Some v \<Rightarrow>
          if v \<noteq> C_null \<and> trim_units (js_text v) \<noteq> []
          then set_unknown (AList.update tag v (unknown_elements nxt)) nxt
          else set_unknown (AList.delete tag (unknown_elements nxt)) nxt
      | None \<Rightarrow> set_unknown (AList.delete tag (unknown_elements nxt)) nxt)"

definition merge_block :: "code_units \<Rightarrow> product \<Rightarrow> product \<Rightarrow> product" where
  "merge_block tag remote nxt =
     (case map_of (advanced_blocks remote) tag of
        Some b \<Rightarrow>
          if trim_units b \<noteq> [] then set_blocks (AList.update tag b (advanced_blocks nxt)) nxt
          else set_blocks (AList.delete tag (advanced_blocks nxt)) nxt
      | None \<Rightarrow> set_blocks (AList.delete tag (advanced_blocks nxt)) nxt)"

text \<open>The merge; \<^term>\<open>None\<close> is the thrown error on a field it does not know.\<close>

definition apply_single_field_hunk :: "product \<Rightarrow> product \<Rightarrow> code_units \<Rightarrow> product option" where
  "apply_single_field_hunk baseline remote field =
     (let core = pr_core baseline; rcore = pr_core remote in
      if field = units ''status'' then Some (baseline\<lparr>pr_status := pr_status remote\<rparr>)
      else if field = units ''sku'' then Some baseline
      else if field = units ''core.name'' then Some (baseline\<lparr>pr_core := core\<lparr>co_name := co_name rcore\<rparr>\<rparr>)
      else if field = units ''core.description'' then
        Some (baseline\<lparr>pr_core := core\<lparr>co_description := co_description rcore\<rparr>\<rparr>)
      else if field = units ''core.weight'' then Some (baseline\<lparr>pr_core := core\<lparr>co_weight := co_weight rcore\<rparr>\<rparr>)
      else if field = units ''core.taxable'' then Some (baseline\<lparr>pr_core := core\<lparr>co_taxable := co_taxable rcore\<rparr>\<rparr>)
      else if field = units ''core.availability'' then
        Some (baseline\<lparr>pr_core := core\<lparr>co_availability := co_availability rcore\<rparr>\<rparr>)
      else if field = units ''core.quantityOnHand'' then
        Some (baseline\<lparr>pr_core := core\<lparr>co_inventory := co_inventory core\<lparr>iv_quantity := iv_quantity (co_inventory rcore)\<rparr>\<rparr>\<rparr>)
      else if field = units ''core.media.primary'' then
        Some (baseline\<lparr>pr_core := core\<lparr>co_media := co_media core\<lparr>md_primary := md_primary (co_media rcore)\<rparr>\<rparr>\<rparr>)
      else if field = units ''core.media.additional'' then
        Some (baseline\<lparr>pr_core := core\<lparr>co_media := co_media core\<lparr>md_additional := md_additional (co_media rcore)\<rparr>\<rparr>\<rparr>)
      else if field = seo_file_name_field then
        Some (baseline\<lparr>pr_core := core\<lparr>co_seo := co_seo core\<lparr>se_file_name := se_file_name (co_seo rcore)\<rparr>\<rparr>\<rparr>)
      else if field = units ''seo.searchKeywords'' then
        Some (baseline\<lparr>pr_core := core\<lparr>co_seo := co_seo core\<lparr>se_search_keywords := se_search_keywords (co_seo rcore)\<rparr>\<rparr>\<rparr>)
      else if starts_with field (units ''custom.'') then
        Some (merge_custom (drop (length (units ''custom.'')) field) remote baseline)
      else if field = pages_field then Some (merge_pages remote baseline)
      else if starts_with field (units ''preserved.unknown:'') then
        Some (merge_unknown (drop (length (units ''preserved.unknown:'')) field) remote baseline)
      else if starts_with field (units ''preserved.block:'') then
        Some (merge_block (drop (length (units ''preserved.block:'')) field) remote baseline)
      else None)"

definition is_supported_hunk_field :: "code_units \<Rightarrow> bool" where
  "is_supported_hunk_field field =
     (if field = units ''sku'' \<or> field = units ''core.price'' \<or> field = units ''core.salePrice'' then False
      else if field = units ''status'' then True
      else if starts_with field (units ''core.'') \<or> starts_with field (units ''custom.'') \<or>
              starts_with field (units ''seo.'') then True
      else starts_with field (units ''preserved.''))"


section \<open>What a merge changes\<close>

text \<open>The entries of the first list, with the value of the second at one key.\<close>

definition pick :: "code_units \<Rightarrow> field_values \<Rightarrow> field_values \<Rightarrow> field_values" where
  "pick f xs ys = map2 (\<lambda>(k, v) (k', w). (k, if k = f then w else v)) xs ys"

lemma pick_lookup:
  "map fst xs = map fst ys \<Longrightarrow>
   map_of (pick f xs ys) g = (if g = f then map_of ys f else map_of xs g)"
proof (induction xs ys rule: list_induct2')
  case (4 x xs y ys)
  then show ?case by (cases x; cases y) (auto simp: pick_def)
qed (auto simp: pick_def)

definition core_merge :: "code_units \<Rightarrow> product \<Rightarrow> product \<Rightarrow> product \<Rightarrow> bool" where
  "core_merge f b r m \<longleftrightarrow>
    (\<forall>env c. fixed_fields env c m = pick f (fixed_fields env c b) (fixed_fields env c r)) \<and>
    pr_custom m = pr_custom b \<and> pr_shopsite m = pr_shopsite b \<and> co_pages (pr_core m) = co_pages (pr_core b)"

lemma fixed_merge:
  assumes "f \<in> set fixed_names - {units ''sku'', units ''core.price'', units ''core.salePrice''}"
  shows "\<exists>m. apply_single_field_hunk b r f = Some m \<and> core_merge f b r m"
proof -
  note defs = apply_single_field_hunk_def core_merge_def fixed_fields_def pick_def additional_images_text_def
    seo_file_name_field_def Let_def
  from assms consider "f = units ''status''" | "f = units ''core.name''" | "f = units ''core.description''"
    | "f = units ''core.weight''" | "f = units ''core.taxable''" | "f = units ''core.availability''"
    | "f = units ''core.quantityOnHand''" | "f = units ''core.media.primary''"
    | "f = units ''core.media.additional''" | "f = units ''seo.fileName''" | "f = units ''seo.searchKeywords''"
    by (auto simp: fixed_names_def)
  then show ?thesis
    by cases (simp_all add: defs)
qed


lemma core_merge_views:
  assumes "core_merge f b r m" and "f \<in> set fixed_names"
  shows "view_field (build_comparison_projection env c R m) g =
      (if g = f then view_field (build_comparison_projection env c R r) g
       else view_field (build_comparison_projection env c R b) g)"
    and "cp_pages (build_comparison_projection env c R m) = cp_pages (build_comparison_projection env c R b)"
    and "cp_preserved (build_comparison_projection env c R m) = cp_preserved (build_comparison_projection env c R b)"
proof -
  from assms(1) have same: "pr_custom m = pr_custom b" "pr_shopsite m = pr_shopsite b"
    "co_pages (pr_core m) = co_pages (pr_core b)"
    and fixed: "fixed_fields env c m = pick f (fixed_fields env c b) (fixed_fields env c r)"
    by (auto simp: core_merge_def)
  then have un: "unknown_elements m = unknown_elements b" "advanced_blocks m = advanced_blocks b"
    by (simp_all add: unknown_elements_def advanced_blocks_def)
  have "page_names env m = page_names env b"
    unfolding page_names_def un same ..
  then show "cp_pages (build_comparison_projection env c R m) = cp_pages (build_comparison_projection env c R b)"
    by (simp add: build_comparison_projection_def resolve_page_identities_def)
  show "cp_preserved (build_comparison_projection env c R m) = cp_preserved (build_comparison_projection env c R b)"
    by (simp add: build_comparison_projection_def preserved_unknown_def preserved_blocks_def un)
  have custom: "custom_view env c m t = custom_view env c b t" for t
    by (simp add: custom_view_def defaulted_fields_def resolve_effective_custom_def unknown_value_def same un)
  show "view_field (build_comparison_projection env c R m) g =
      (if g = f then view_field (build_comparison_projection env c R r) g
       else view_field (build_comparison_projection env c R b) g)"
  proof (cases "g \<in> set fixed_names")
    case True
    then show ?thesis
      using view_field_fixed [OF assms(2)]
      by (simp add: view_field_fixed field_value_of_def fixed pick_lookup fixed_keys)
  next
    case False
    then show ?thesis
      using assms(2) custom view_field_other [OF False] by (cases "\<exists>t. g = custom_key t") auto
  qed
qed

text \<open>The values the merge leaves alone: identity, price, and the record's other data.\<close>

lemma merge_selectors [simp]:
  "pr_custom (set_unknown es p) = pr_custom p" "pr_core (set_unknown es p) = pr_core p"
  "pr_custom (set_blocks bs p) = pr_custom p" "pr_core (set_blocks bs p) = pr_core p"
  "unknown_elements (set_unknown es p) = es" "advanced_blocks (set_unknown es p) = advanced_blocks p"
  "advanced_blocks (set_blocks bs p) = bs" "unknown_elements (set_blocks bs p) = unknown_elements p"
  "pr_status (set_unknown es p) = pr_status p" "pr_status (set_blocks bs p) = pr_status p"
  "pr_id (set_unknown es p) = pr_id p" "pr_id (set_blocks bs p) = pr_id p"
  "pr_sku (set_unknown es p) = pr_sku p" "pr_sku (set_blocks bs p) = pr_sku p"
  "pr_metadata (set_unknown es p) = pr_metadata p" "pr_metadata (set_blocks bs p) = pr_metadata p"
  by (simp_all add: set_unknown_def set_blocks_def unknown_elements_def advanced_blocks_def)

lemma custom_update [simp]:
  "unknown_elements (p\<lparr>pr_custom := x\<rparr>) = unknown_elements p"
  "advanced_blocks (p\<lparr>pr_custom := x\<rparr>) = advanced_blocks p"
  "unknown_elements (p\<lparr>pr_core := y\<rparr>) = unknown_elements p"
  "advanced_blocks (p\<lparr>pr_core := y\<rparr>) = advanced_blocks p"
  by (simp_all add: unknown_elements_def advanced_blocks_def)

definition identity_kept :: "product \<Rightarrow> product \<Rightarrow> bool" where
  "identity_kept b m \<longleftrightarrow> pr_id m = pr_id b \<and> pr_sku m = pr_sku b \<and> pr_metadata m = pr_metadata b \<and>
     co_price (pr_core m) = co_price (pr_core b) \<and> co_sale_price (pr_core m) = co_sale_price (pr_core b)"

lemma apply_keeps_identity:
  assumes "apply_single_field_hunk b r f = Some m"
  shows "identity_kept b m"
  using assms unfolding apply_single_field_hunk_def Let_def
  by (auto simp: identity_kept_def merge_custom_def merge_pages_def merge_unknown_def merge_block_def Let_def
      split: if_splits option.splits)

lemma fixed_fields_cong:
  "pr_core p = pr_core q \<Longrightarrow> pr_sku p = pr_sku q \<Longrightarrow> pr_status p = pr_status q \<Longrightarrow>
     fixed_fields env c p = fixed_fields env c q"
  by (simp add: fixed_fields_def additional_images_text_def)


section \<open>Blank values\<close>

text \<open>Documented of normalization to form C: white space stays white space.\<close>

definition nfc_keeps_blank :: "js_env \<Rightarrow> bool" where
  "nfc_keeps_blank env \<longleftrightarrow> (\<forall>s. trim_units s = [] \<longrightarrow> trim_units (je_nfc env s) = [])"

lemma trim_units_blank: "trim_units s = [] \<longleftrightarrow> list_all is_space_unit s"
proof -
  let ?d = "dropWhile is_space_unit s"
  have "?d = []" if "trim_units s = []"
  proof (rule ccontr)
    assume "?d \<noteq> []"
    then have "hd ?d \<in> set ?d" and "\<not> is_space_unit (hd ?d)"
      by (simp_all add: hd_dropWhile)
    moreover have "\<forall>c \<in> set ?d. is_space_unit c"
      using that by (simp add: trim_units_def dropWhile_eq_Nil_conv)
    ultimately show False by blast
  qed
  moreover have "trim_units s = []" if "?d = []"
    unfolding trim_units_def that by simp
  ultimately have "trim_units s = [] \<longleftrightarrow> ?d = []" by blast
  then show ?thesis by (simp add: dropWhile_eq_Nil_conv list_all_iff)
qed

lemma set_lf_ends: "set (lf_ends s) \<subseteq> insert 10 (set s)"
  by (induction s rule: lf_ends.induct) auto

lemma space_units [simp]: "is_space_unit 10" "is_space_unit 32"
  by (simp_all add: is_space_unit_def)

lemma lf_ends_blank: "list_all is_space_unit s \<Longrightarrow> list_all is_space_unit (lf_ends s)"
  using set_lf_ends [of s] by (auto simp: list_all_iff)

lemma normalize_blank:
  assumes "nfc_keeps_blank env" and "trim_units s = []"
  shows "normalize_text_strict env (Some s) = None"
proof -
  have "list_all is_space_unit (je_nfc env s)"
    using assms by (simp add: nfc_keeps_blank_def trim_units_blank)
  then have "list_all is_space_unit (lf_ends (je_nfc env s))"
    by (rule lf_ends_blank)
  then have "list_all is_space_unit (map (\<lambda>c. if c = 160 then 32 else c) (lf_ends (je_nfc env s)))"
    by (auto simp: list_all_iff)
  then show ?thesis
    by (simp add: normalize_text_strict_def Let_def trim_units_blank)
qed

lemma normalize_None [simp]: "normalize_text_strict env None = None"
  by (simp add: normalize_text_strict_def)

lemma custom_value_blank:
  "nfc_keeps_blank env \<Longrightarrow> trim_units v = [] \<Longrightarrow> custom_value env c t v = None"
  by (simp add: custom_value_def normalize_blank normalize_file_name_value_def resolve_controlled_def)

section \<open>Merging a custom tag\<close>

text \<open>A product keeps each tag in one place: its custom fields or its preserved elements.\<close>

definition single_home :: "product \<Rightarrow> bool" where
  "single_home p \<longleftrightarrow> fst ` set (pr_custom p) \<inter> fst ` set (unknown_elements p) = {}"

lemma single_homeD: "single_home p \<Longrightarrow> map_of (pr_custom p) t = Some v \<Longrightarrow> map_of (unknown_elements p) t = None"
  by (force simp: single_home_def map_of_eq_None_iff disjoint_iff dest!: map_of_SomeD)

lemma unknown_text_None [simp]: "unknown_text None = None" "unknown_text (Some C_null) = None"
  by (simp_all add: unknown_text_def)

lemma merge_custom_lookup:
  assumes "single_home r"
  shows "map_of (pr_custom (merge_custom t r b)) u =
      (if u = t then (case map_of (pr_custom r) t of
         Some v \<Rightarrow> if trim_units v = [] then None else Some v | None \<Rightarrow> None) else map_of (pr_custom b) u)"
    and "unknown_value (merge_custom t r b) u = (if u = t then unknown_value r t else unknown_value b u)"
    and "u \<noteq> t \<Longrightarrow> map_of (unknown_elements (merge_custom t r b)) u = map_of (unknown_elements b) u"
proof -
  show "map_of (pr_custom (merge_custom t r b)) u =
      (if u = t then (case map_of (pr_custom r) t of
         Some v \<Rightarrow> if trim_units v = [] then None else Some v | None \<Rightarrow> None) else map_of (pr_custom b) u)"
    by (auto simp: merge_custom_def Let_def set_or_delete_custom_def AList.delete_conv' AList.update_conv'
        split: option.split)
  show "unknown_value (merge_custom t r b) u = (if u = t then unknown_value r t else unknown_value b u)"
    using single_homeD [OF assms, of t]
    by (auto simp: merge_custom_def Let_def unknown_value_def AList.delete_conv' AList.update_conv' split: option.split)
  show "u \<noteq> t \<Longrightarrow> map_of (unknown_elements (merge_custom t r b)) u = map_of (unknown_elements b) u"
    by (auto simp: merge_custom_def Let_def AList.delete_conv' AList.update_conv' split: option.split)
qed

lemma merge_custom_rest [simp]:
  "pr_core (merge_custom t r b) = pr_core b" "pr_sku (merge_custom t r b) = pr_sku b"
  "pr_status (merge_custom t r b) = pr_status b" "advanced_blocks (merge_custom t r b) = advanced_blocks b"
  by (auto simp: merge_custom_def Let_def split: option.split)

lemma effective_custom_merge:
  assumes "single_home r"
  shows "resolve_effective_custom (merge_custom t r b) u =
    (if u = t then resolve_effective_custom r t else resolve_effective_custom b u)"
  using single_homeD [OF assms, of t]
  by (auto simp: resolve_effective_custom_def merge_custom_lookup [OF assms] non_blank_def split: option.split)

lemma custom_view_merge:
  assumes "single_home r" and "nfc_keeps_blank env"
  shows "custom_view env c (merge_custom t r b) u = (if u = t then custom_view env c r t else custom_view env c b u)"
  using custom_value_blank [OF assms(2)]
  by (auto simp: custom_view_def defaulted_fields_def effective_custom_merge [OF assms(1)]
      merge_custom_lookup [OF assms(1)] field_value_of_def split: option.split)

lemma distinct_tags_merge_custom:
  "distinct_tags b \<Longrightarrow> distinct_tags (merge_custom t r b)"
  by (auto simp: distinct_tags_def merge_custom_def Let_def set_or_delete_custom_def AList.distinct_delete
      AList.distinct_update split: option.split)


section \<open>Merging preserved data\<close>

lemma unknown_view_merge_custom:
  "single_home r \<Longrightarrow>
     unknown_view env (merge_custom t r b) u = (if u = t then unknown_view env r t else unknown_view env b u)"
  by (simp add: unknown_view_def merge_custom_lookup(2))

lemma block_view_cong: "advanced_blocks p = advanced_blocks q \<Longrightarrow> block_view env p = block_view env q"
  by (simp add: block_view_def fun_eq_iff)

lemma page_names_cong:
  assumes "co_pages (pr_core p) = co_pages (pr_core q)"
    and "map_of (unknown_elements p) product_on_pages = map_of (unknown_elements q) product_on_pages"
    and "map_of (advanced_blocks p) product_on_pages = map_of (advanced_blocks q) product_on_pages"
    and "map_of (advanced_blocks p) product_on_pages_lower = map_of (advanced_blocks q) product_on_pages_lower"
  shows "cp_pages (build_comparison_projection env c R p) = cp_pages (build_comparison_projection env c R q)"
proof -
  have "page_names env p = page_names env q"
    unfolding page_names_def assms ..
  then show ?thesis by (simp add: build_comparison_projection_def resolve_page_identities_def)
qed

lemma merge_unknown_facts:
  "pr_core (merge_unknown t r b) = pr_core b" "pr_sku (merge_unknown t r b) = pr_sku b"
  "pr_status (merge_unknown t r b) = pr_status b" "pr_custom (merge_unknown t r b) = pr_custom b"
  "advanced_blocks (merge_unknown t r b) = advanced_blocks b"
  "u \<noteq> t \<Longrightarrow> map_of (unknown_elements (merge_unknown t r b)) u = map_of (unknown_elements b) u"
  "distinct_tags b \<Longrightarrow> distinct_tags (merge_unknown t r b)"
  by (auto simp: merge_unknown_def AList.delete_conv' AList.update_conv' distinct_tags_def
      AList.distinct_delete AList.distinct_update split: option.split)

lemma unknown_view_merge:
  assumes "nfc_keeps_blank env"
  shows "unknown_view env (merge_unknown t r b) u = (if u = t then unknown_view env r t else unknown_view env b u)"
proof (cases "u = t")
  case True
  have printed: "unknown_text (Some v) = Some (js_text v)" if "v \<noteq> C_null" for v
    using that by (cases v) (simp_all add: unknown_text_def)
  have blank: "normalize_text_strict env (unknown_text (Some v)) = None" if "trim_units (js_text v) = []" for v
    using that printed normalize_blank [OF assms] by (cases "v = C_null") simp_all
  have "normalize_text_strict env (unknown_value (merge_unknown t r b) t) = normalize_text_strict env (unknown_value r t)"
    using blank
    by (auto simp: merge_unknown_def unknown_value_def AList.delete_conv' AList.update_conv' split: option.split)
  with True show ?thesis by (simp add: unknown_view_def)
qed (simp add: unknown_view_def unknown_value_def merge_unknown_facts)

lemma merge_block_facts:
  "pr_core (merge_block t r b) = pr_core b" "pr_sku (merge_block t r b) = pr_sku b"
  "pr_status (merge_block t r b) = pr_status b" "pr_custom (merge_block t r b) = pr_custom b"
  "unknown_elements (merge_block t r b) = unknown_elements b"
  "u \<noteq> t \<Longrightarrow> map_of (advanced_blocks (merge_block t r b)) u = map_of (advanced_blocks b) u"
  "distinct_tags b \<Longrightarrow> distinct_tags (merge_block t r b)"
  by (auto simp: merge_block_def AList.delete_conv' AList.update_conv' distinct_tags_def
      AList.distinct_delete AList.distinct_update split: option.split)

lemma block_view_merge:
  assumes "nfc_keeps_blank env"
  shows "block_view env (merge_block t r b) u = (if u = t then block_view env r t else block_view env b u)"
proof (cases "u = t")
  case True
  have "normalize_advanced_block env (map_of (advanced_blocks (merge_block t r b)) t) =
      normalize_advanced_block env (map_of (advanced_blocks r) t)"
    using normalize_blank [OF assms]
    by (auto simp: merge_block_def normalize_advanced_block_def AList.delete_conv' AList.update_conv' split: option.split)
  with True show ?thesis by (simp add: block_view_def)
qed (simp add: block_view_def merge_block_facts)

section \<open>What accepting a hunk settles\<close>

text \<open>
  The fields a merge brings to the remote's values: its own and, for a custom tag, the preserved
  element of the same tag.
\<close>

definition settles :: "code_units \<Rightarrow> code_units \<Rightarrow> bool" where
  "settles f g \<longleftrightarrow> g = f \<or> (\<exists>t. f = custom_key t \<and> g = preserved_field (unknown_key t))"

lemma differences_patched:
  assumes "\<And>g. view_field m g = (if S g then view_field r g else view_field b g)"
    and "\<And>k. view_preserved m k = (if S (preserved_field k) then view_preserved r k else view_preserved b k)"
    and "cp_pages m = cp_pages b" and "\<not> S pages_field"
  shows "differences m r = {h \<in> differences b r. \<not> S (fh_field h)}"
  using assms by (auto simp: differences_def)

text \<open>The three kinds of field names.\<close>

lemma field_kinds [simp]:
  "custom_key t \<noteq> pages_field" "custom_key t \<noteq> preserved_field k" "preserved_field k \<noteq> pages_field"
  "pages_field \<noteq> custom_key t" "preserved_field k \<noteq> custom_key t" "pages_field \<noteq> preserved_field k"
  by (simp_all add: custom_key_def pages_field_def preserved_field_def units_def code_def)

lemma preserved_field_inj [simp]: "preserved_field k = preserved_field l \<longleftrightarrow> k = l"
  by (simp add: preserved_field_def)

lemma other_not_fixed: "preserved_field k \<notin> set fixed_names" "pages_field \<notin> set fixed_names"
  by (simp_all add: fixed_names_def preserved_field_def pages_field_def units_def code_def)

lemma view_field_preserved [simp]:
  "view_field (build_comparison_projection env c R p) (preserved_field k) = None"
  by (rule view_field_other) (simp_all add: other_not_fixed)

lemma apply_custom: "apply_single_field_hunk b r (custom_key t) = Some (merge_custom t r b)"
proof -
  have "drop (length (units ''custom.'')) (custom_key t) = t"
    "starts_with (custom_key t) (units ''custom.'')"
    by (simp_all add: custom_key_def starts_with_def)
  moreover have "custom_key t \<noteq> f" if "f \<in> set fixed_names" for f
    using that custom_not_fixed by metis
  ultimately show ?thesis
    by (simp add: apply_single_field_hunk_def Let_def fixed_names_def seo_file_name_field_def)
qed

lemma apply_unknown: "apply_single_field_hunk b r (preserved_field (unknown_key t)) = Some (merge_unknown t r b)"
  by (simp add: apply_single_field_hunk_def Let_def seo_file_name_field_def pages_field_def
      preserved_field_def unknown_key_def starts_with_def units_def code_def)

lemma apply_block: "apply_single_field_hunk b r (preserved_field (block_key t)) = Some (merge_block t r b)"
  by (simp add: apply_single_field_hunk_def Let_def seo_file_name_field_def pages_field_def
      preserved_field_def block_key_def starts_with_def units_def code_def)

end
