(* ===== verification/DriftMerge.thy ===== *)
theory DriftMerge
  imports DriftHunks
begin

text \<open>
  What accepting a hunk does to the findings of a product: the accepted field converges to the
  remote's value, nothing else moves, and the exceptions to it.
\<close>

abbreviation proj :: "js_env \<Rightarrow> controlled_fields \<Rightarrow> (code_units \<Rightarrow> code_units option) \<Rightarrow> product \<Rightarrow> comparison_projection" where
  "proj \<equiv> build_comparison_projection"

lemma views_custom_merge:
  assumes "single_home r" and "nfc_keeps_blank env" and "distinct_tags b" and "distinct_tags r"
    and "t \<noteq> product_on_pages"
  shows "differences (proj env c R (merge_custom t r b)) (proj env c R r) =
    {h \<in> differences (proj env c R b) (proj env c R r). \<not> settles (custom_key t) (fh_field h)}"
proof (rule differences_patched)
  let ?m = "merge_custom t r b"
  note d = distinct_tags_merge_custom [OF assms(3), of t r]
  show "view_field (proj env c R ?m) g = (if settles (custom_key t) g then view_field (proj env c R r) g
      else view_field (proj env c R b) g)" for g
  proof (cases "\<exists>u. g = custom_key u")
    case True
    then show ?thesis by (auto simp: custom_view_merge [OF assms(1,2)] settles_def)
  next
    case False
    have "fixed_fields env c ?m = fixed_fields env c b" by (rule fixed_fields_cong) simp_all
    with False show ?thesis
      using view_field_fixed [of g] view_field_other [of g]
      by (cases "g \<in> set fixed_names") (auto simp: settles_def other_not_fixed)
  qed
  show "view_preserved (proj env c R ?m) k = (if settles (custom_key t) (preserved_field k)
      then view_preserved (proj env c R r) k else view_preserved (proj env c R b) k)" for k
  proof -
    consider u where "k = unknown_key u" | u where "k = block_key u"
      | "\<And>u. k \<noteq> unknown_key u" "\<And>u. k \<noteq> block_key u" by blast
    then show ?thesis
    proof cases
      case 1
      then show ?thesis
        by (auto simp: view_preserved_unknown [OF d] view_preserved_unknown [OF assms(3)]
            view_preserved_unknown [OF assms(4)] unknown_view_merge_custom [OF assms(1)] settles_def)
    next
      case 2
      have "block_view env ?m = block_view env b" by (rule block_view_cong) simp
      with 2 show ?thesis
        by (auto simp: view_preserved_block [OF d] view_preserved_block [OF assms(3)] settles_def)
    next
      case 3
      then show ?thesis by (simp add: view_preserved_other)
    qed
  qed
  show "cp_pages (proj env c R ?m) = cp_pages (proj env c R b)"
    by (rule page_names_cong) (simp_all add: merge_custom_lookup(3) [OF assms(1)] assms(5) [symmetric])
  show "\<not> settles (custom_key t) pages_field" by (simp add: settles_def)
qed

text \<open>A preserved entry: the merge replaces one key of the preserved data.\<close>

lemma views_preserved_merge:
  assumes "pr_core m = pr_core b" "pr_sku m = pr_sku b" "pr_status m = pr_status b"
    and "\<And>u. custom_view env c m u = custom_view env c b u"
    and "\<And>k. view_preserved (proj env c R m) k =
      (if k = l then view_preserved (proj env c R r) k else view_preserved (proj env c R b) k)"
    and "cp_pages (proj env c R m) = cp_pages (proj env c R b)"
  shows "differences (proj env c R m) (proj env c R r) =
    {h \<in> differences (proj env c R b) (proj env c R r). \<not> settles (preserved_field l) (fh_field h)}"
proof (rule differences_patched)
  have "fixed_fields env c m = fixed_fields env c b" by (rule fixed_fields_cong) (simp_all add: assms)
  then show "view_field (proj env c R m) g = (if settles (preserved_field l) g then view_field (proj env c R r) g
      else view_field (proj env c R b) g)" for g
    using view_field_fixed [of g] view_field_other [of g] assms(4)
    by (cases "\<exists>u. g = custom_key u"; cases "g \<in> set fixed_names")
      (auto simp: settles_def custom_not_fixed other_not_fixed)
qed (use assms(5,6) in \<open>auto simp: settles_def\<close>)

lemma default_tags_projected [simp]:
  "minimum_quantity \<in> projected_tags" "product_type \<in> projected_tags" "product_on_pages \<in> projected_tags"
  by (simp_all add: projected_tags_def)

lemma views_unknown_merge:
  assumes "nfc_keeps_blank env" and "distinct_tags b" and "distinct_tags r" and "t \<notin> projected_tags"
  shows "differences (proj env c R (merge_unknown t r b)) (proj env c R r) =
    {h \<in> differences (proj env c R b) (proj env c R r). \<not> settles (preserved_field (unknown_key t)) (fh_field h)}"
proof (rule views_preserved_merge)
  let ?m = "merge_unknown t r b"
  note d = merge_unknown_facts(7) [OF assms(2), of t r]
  have other: "u \<in> projected_tags \<Longrightarrow> unknown_value ?m u = unknown_value b u" for u
    using assms(4) by (metis merge_unknown_facts(6) unknown_value_def)
  then show "custom_view env c ?m u = custom_view env c b u" for u
    by (simp add: custom_view_def defaulted_fields_def resolve_effective_custom_def merge_unknown_facts)
  show "view_preserved (proj env c R ?m) k =
      (if k = unknown_key t then view_preserved (proj env c R r) k else view_preserved (proj env c R b) k)" for k
  proof -
    consider u where "k = unknown_key u" | u where "k = block_key u"
      | "\<And>u. k \<noteq> unknown_key u" "\<And>u. k \<noteq> block_key u" by blast
    then show ?thesis
    proof cases
      case 1
      then show ?thesis
        by (auto simp: view_preserved_unknown [OF d] view_preserved_unknown [OF assms(2)]
            view_preserved_unknown [OF assms(3)] unknown_view_merge [OF assms(1)])
    next
      case 2
      have "block_view env ?m = block_view env b" by (rule block_view_cong) (simp add: merge_unknown_facts)
      with 2 show ?thesis
        by (auto simp: view_preserved_block [OF d] view_preserved_block [OF assms(2)])
    next
      case 3
      then show ?thesis by (simp add: view_preserved_other)
    qed
  qed
  show "cp_pages (proj env c R ?m) = cp_pages (proj env c R b)"
  proof -
    have "product_on_pages \<noteq> t" using assms(4) by auto
    then show ?thesis by (intro page_names_cong) (simp_all add: merge_unknown_facts)
  qed
qed (simp_all add: merge_unknown_facts)

lemma views_block_merge:
  assumes "nfc_keeps_blank env" and "distinct_tags b" and "distinct_tags r"
    and "lower_units t \<noteq> lower_units product_on_pages"
  shows "differences (proj env c R (merge_block t r b)) (proj env c R r) =
    {h \<in> differences (proj env c R b) (proj env c R r). \<not> settles (preserved_field (block_key t)) (fh_field h)}"
proof (rule views_preserved_merge)
  let ?m = "merge_block t r b"
  note d = merge_block_facts(7) [OF assms(2), of t r]
  show "custom_view env c ?m u = custom_view env c b u" for u
    by (simp add: custom_view_def defaulted_fields_def resolve_effective_custom_def unknown_value_def merge_block_facts)
  show "view_preserved (proj env c R ?m) k =
      (if k = block_key t then view_preserved (proj env c R r) k else view_preserved (proj env c R b) k)" for k
  proof -
    consider u where "k = unknown_key u" | u where "k = block_key u"
      | "\<And>u. k \<noteq> unknown_key u" "\<And>u. k \<noteq> block_key u" by blast
    then show ?thesis
    proof cases
      case 1
      have "unknown_view env ?m = unknown_view env b"
        by (simp add: unknown_view_def unknown_value_def merge_block_facts fun_eq_iff)
      with 1 show ?thesis
        by (auto simp: view_preserved_unknown [OF d] view_preserved_unknown [OF assms(2)])
    next
      case 2
      then show ?thesis
        by (auto simp: view_preserved_block [OF d] view_preserved_block [OF assms(2)]
            view_preserved_block [OF assms(3)] block_view_merge [OF assms(1)])
    next
      case 3
      then show ?thesis by (simp add: view_preserved_other)
    qed
  qed
  have "lower_units product_on_pages_lower = lower_units product_on_pages"
    by (simp add: product_on_pages_def product_on_pages_lower_def units_def code_def lower_unit_def)
  with assms(4) have "product_on_pages \<noteq> t" "product_on_pages_lower \<noteq> t" by auto
  then show "cp_pages (proj env c R ?m) = cp_pages (proj env c R b)"
    by (intro page_names_cong) (simp_all add: merge_block_facts)
qed (simp_all add: merge_block_facts)


text \<open>The fields of the hunks two projections can have.\<close>

lemma difference_cases:
  assumes "h \<in> differences (proj env c R b) (proj env c R r)" and "distinct_tags b" and "distinct_tags r"
  obtains (fixed) "fh_field h \<in> set fixed_names"
    | (custom) t where "fh_field h = custom_key t"
    | (pages) "fh_field h = pages_field"
    | (unknown) t where "fh_field h = preserved_field (unknown_key t)" "t \<notin> projected_tags"
    | (block) t where "fh_field h = preserved_field (block_key t)" "lower_units t \<noteq> lower_units product_on_pages"
proof -
  from assms(1) consider f where "fh_field h = f" "view_field (proj env c R b) f \<noteq> view_field (proj env c R r) f"
    | "fh_field h = pages_field"
    | k where "fh_field h = preserved_field k" "view_preserved (proj env c R b) k \<noteq> view_preserved (proj env c R r) k"
    by (auto simp: differences_def)
  then show thesis
  proof cases
    case 1
    then show thesis using view_field_other [of f] fixed custom by metis
  next
    case 2
    then show thesis by (rule pages)
  next
    case 3
    then consider u where "k = unknown_key u" | u where "k = block_key u"
      using view_preserved_other [of k] by metis
    then show thesis
    proof cases
      case (1 u)
      have "u \<notin> projected_tags"
        using 3(2) by (auto simp: 1 view_preserved_unknown assms unknown_view_def)
      with 3(1) 1 show thesis using unknown by blast
    next
      case (2 u)
      have "lower_units u \<noteq> lower_units product_on_pages"
        using 3(2) by (auto simp: 2 view_preserved_block assms block_view_def)
      with 3(1) 2 show thesis using block by blast
    qed
  qed
qed

lemma unsupported_fields: "is_supported_hunk_field f \<Longrightarrow> f \<noteq> units ''sku'' \<and> f \<noteq> units ''core.price'' \<and> f \<noteq> units ''core.salePrice''"
  by (auto simp: is_supported_hunk_field_def)

lemma views_fixed_merge:
  assumes "core_merge f b r m" and "f \<in> set fixed_names"
  shows "differences (proj env c R m) (proj env c R r) =
    {h \<in> differences (proj env c R b) (proj env c R r). \<not> settles f (fh_field h)}"
proof (rule differences_patched)
  have plain: "settles f g \<longleftrightarrow> g = f" for g
    using assms(2) custom_not_fixed by (auto simp: settles_def)
  show "view_field (proj env c R m) g =
      (if settles f g then view_field (proj env c R r) g else view_field (proj env c R b) g)" for g
    using core_merge_views(1) [OF assms] by (simp add: plain)
  show "view_preserved (proj env c R m) k =
      (if settles f (preserved_field k) then view_preserved (proj env c R r) k else view_preserved (proj env c R b) k)" for k
    using core_merge_views(3) [OF assms] assms(2) other_not_fixed by (auto simp: plain view_preserved_def)
  show "cp_pages (proj env c R m) = cp_pages (proj env c R b)"
    by (rule core_merge_views(2) [OF assms])
  show "\<not> settles f pages_field"
    using assms(2) other_not_fixed by (auto simp: plain)
qed

text \<open>
  C18. Accepting a supported hunk of an existing product, other than a page assignment, always
  merges: the product keeps its identity, metadata and both prices; of the outstanding hunks
  exactly those of the accepted field disappear (for a custom tag also those of its preserved
  element), and no hunk is new. Assumed: no record repeats a tag, the remote keeps each tag in one
  place, and normalization keeps blank texts blank.
\<close>

theorem accepted_hunk_converges:
  assumes "nfc_keeps_blank env" and "distinct_tags b" and "distinct_tags r" and "single_home r"
    and "h \<in> set (diff_comparison_projections env (Some (build_comparison_projection env c R b))
          (build_comparison_projection env c R r))"
    and "is_supported_hunk_field (fh_field h)"
    and "fh_field h \<noteq> pages_field" and "fh_field h \<noteq> custom_key product_on_pages"
  shows "\<exists>m. apply_single_field_hunk b r (fh_field h) = Some m \<and> identity_kept b m \<and>
    set (diff_comparison_projections env (Some (build_comparison_projection env c R m))
          (build_comparison_projection env c R r)) =
    {g \<in> set (diff_comparison_projections env (Some (build_comparison_projection env c R b))
          (build_comparison_projection env c R r)). \<not> settles (fh_field h) (fh_field g)}"
proof -
  have h: "h \<in> differences (proj env c R b) (proj env c R r)"
    using assms(5) by (simp add: set_diff)
  have "\<exists>m. apply_single_field_hunk b r (fh_field h) = Some m \<and>
      differences (proj env c R m) (proj env c R r) =
      {g \<in> differences (proj env c R b) (proj env c R r). \<not> settles (fh_field h) (fh_field g)}"
    using h assms(2,3)
  proof (cases rule: difference_cases)
    case fixed
    then obtain m where "apply_single_field_hunk b r (fh_field h) = Some m" "core_merge (fh_field h) b r m"
      using fixed_merge [of "fh_field h" b r] unsupported_fields [OF assms(6)] by blast
    then show ?thesis using views_fixed_merge fixed by blast
  next
    case (custom t)
    then show ?thesis using views_custom_merge [OF assms(4,1,2,3)] apply_custom assms(8) by simp
  next
    case (unknown t)
    then show ?thesis using views_unknown_merge [OF assms(1-3)] apply_unknown by simp
  next
    case (block t)
    then show ?thesis using views_block_merge [OF assms(1-3)] apply_block by simp
  qed (use assms(7) in simp)
  then show ?thesis using apply_keeps_identity by (auto simp: set_diff)
qed


section \<open>Samples\<close>

definition sample_product :: "code_units \<Rightarrow> code_units list \<Rightarrow> (code_units \<times> code_units) list \<Rightarrow> product" where
  "sample_product name pages custom =
     \<lparr>pr_id = [1], pr_sku = [65], pr_status = Active_product,
      pr_core = \<lparr>co_name = name, co_price = None, co_sale_price = None, co_description = None,
        co_inventory = \<lparr>iv_quantity = None, iv_low_stock = None, iv_out_of_stock = None\<rparr>,
        co_availability = None, co_weight = None, co_taxable = True,
        co_media = \<lparr>md_primary = None, md_additional = []\<rparr>,
        co_seo = \<lparr>se_file_name = None, se_search_keywords = None, se_google_category = None\<rparr>,
        co_pages = pages\<rparr>,
      pr_custom = custom,
      pr_shopsite = \<lparr>sm_product_id = None, sm_product_guid = None, sm_xml_version = [],
        sm_last_pulled_at = None, sm_last_remote_hash = None, sm_last_synced_at = None,
        sm_source = \<lparr>ps_dbname = [], ps_unique_name = []\<rparr>,
        sm_preserved = \<lparr>pf_unknown = [], pf_blocks = [], pf_attributes = []\<rparr>\<rparr>,
      pr_metadata = \<lparr>pm_created_at = [], pm_updated_at = [], pm_archived_at = None, pm_provenance = None\<rparr>\<rparr>"

definition sample_env :: js_env where
  "sample_env = \<lparr>je_nfc = id, je_number = (\<lambda>_. None), je_compare = (\<lambda>_ _. 0)\<rparr>"

lemma sample_facts:
  "nfc_keeps_blank sample_env" "distinct_tags (sample_product n ps [])" "single_home (sample_product n ps [])"
  by (simp_all add: nfc_keeps_blank_def sample_env_def distinct_tags_def single_home_def sample_product_def
      unknown_elements_def advanced_blocks_def)

lemma sample_text:
  "trim_units s \<noteq> [] \<Longrightarrow> lf_ends s = s \<Longrightarrow> 160 \<notin> set s \<Longrightarrow>
     normalize_text_strict sample_env (Some s) = Some (trim_units s)"
proof -
  assume "trim_units s \<noteq> []" "lf_ends s = s" "160 \<notin> set s"
  moreover from this have "map (\<lambda>c. if c = 160 then 32 else c) s = s" by (intro map_idI) auto
  ultimately show ?thesis by (simp add: normalize_text_strict_def sample_env_def)
qed

text \<open>The renamed product: one hunk, on its name.\<close>

theorem accepted_hunk_converges_witness:
  "\<exists>b r h m. h \<in> set (diff_comparison_projections sample_env (Some (build_comparison_projection sample_env [] (\<lambda>_. None) b))
      (build_comparison_projection sample_env [] (\<lambda>_. None) r)) \<and>
    apply_single_field_hunk b r (fh_field h) = Some m \<and> identity_kept b m \<and>
    h \<notin> set (diff_comparison_projections sample_env (Some (build_comparison_projection sample_env [] (\<lambda>_. None) m))
      (build_comparison_projection sample_env [] (\<lambda>_. None) r))"
proof -
  let ?b = "sample_product [66] [] []" and ?r = "sample_product [67] [] []" and ?P = "proj sample_env [] (\<lambda>_. None)"
  let ?f = "units ''core.name''"
  have "view_field (?P (sample_product [c] [] [])) ?f = Some [c]" if "c = 66 \<or> c = 67" for c
    using that
    by (auto simp: view_field_fixed fixed_names_def field_value_of_def fixed_fields_def Let_def sample_product_def
        sample_text trim_units_def is_space_unit_def)
  then have "hunk ?f (Some [66]) (Some [67]) \<in> set (diff_comparison_projections sample_env (Some (?P ?b)) (?P ?r))"
    (is "?h \<in> ?d") by (auto simp: set_diff differences_def)
  moreover have "is_supported_hunk_field (fh_field ?h)" "fh_field ?h \<noteq> pages_field" "fh_field ?h \<noteq> custom_key product_on_pages"
    by (simp_all add: is_supported_hunk_field_def starts_with_def pages_field_def custom_key_def units_def code_def)
  moreover have "settles (fh_field ?h) (fh_field ?h)" by (simp add: settles_def)
  ultimately show ?thesis
    using accepted_hunk_converges [OF sample_facts(1,2,2,3)] by blast
qed

section \<open>Accepting a page hunk\<close>

lemma apply_pages: "apply_single_field_hunk b r pages_field = Some (merge_pages r b)"
  by (simp add: apply_single_field_hunk_def Let_def seo_file_name_field_def pages_field_def
      starts_with_def units_def code_def)

lemma page_tags_differ [simp]: "product_on_pages \<noteq> product_on_pages_lower" "product_on_pages_lower \<noteq> product_on_pages"
  by (simp_all add: product_on_pages_def product_on_pages_lower_def)

lemma merge_pages_facts:
  "pr_custom (merge_pages r b) = pr_custom b"
  "u \<noteq> product_on_pages \<Longrightarrow> map_of (unknown_elements (merge_pages r b)) u = map_of (unknown_elements b) u"
  "u \<noteq> product_on_pages \<Longrightarrow> u \<noteq> product_on_pages_lower \<Longrightarrow>
     map_of (advanced_blocks (merge_pages r b)) u = map_of (advanced_blocks b) u"
  "distinct_tags b \<Longrightarrow> distinct_tags (merge_pages r b)"
  by (auto simp: merge_pages_def Let_def AList.delete_conv' AList.update_conv' distinct_tags_def
      AList.distinct_delete AList.distinct_update split: option.split)

lemma page_names_merge: "page_names env (merge_pages r b) = page_names env r"
  by (auto simp: page_names_def merge_pages_def Let_def AList.delete_conv' AList.update_conv' split: option.split)


lemma merge_pages_fixed: "fixed_fields env c (merge_pages r b) = fixed_fields env c b"
  by (simp add: fixed_fields_def merge_pages_def Let_def additional_images_text_def)

lemma views_pages_merge:
  assumes "distinct_tags b" and "distinct_tags r"
  shows "differences (proj env c R (merge_pages r b)) (proj env c R r) =
    {h \<in> differences (proj env c R b) (proj env c R r). fh_field h \<noteq> pages_field}"
proof -
  let ?m = "merge_pages r b"
  note d = merge_pages_facts(4) [OF assms(1), of r]
  have lower: "lower_units product_on_pages_lower = lower_units product_on_pages"
    by (simp add: product_on_pages_def product_on_pages_lower_def units_def code_def lower_unit_def)
  have tags: "minimum_quantity \<noteq> product_on_pages" "product_type \<noteq> product_on_pages"
    by (simp_all add: minimum_quantity_def product_type_def product_on_pages_def)
  have custom: "custom_view env c ?m u = custom_view env c b u" for u
    by (simp add: custom_view_def defaulted_fields_def resolve_effective_custom_def unknown_value_def
        merge_pages_facts tags)
  have fields: "view_field (proj env c R ?m) = view_field (proj env c R b)"
  proof
    fix g
    show "view_field (proj env c R ?m) g = view_field (proj env c R b) g"
      using view_field_fixed [of g] view_field_other [of g] custom
      by (cases "\<exists>u. g = custom_key u"; cases "g \<in> set fixed_names") (auto simp: merge_pages_fixed)
  qed
  have preserved: "view_preserved (proj env c R ?m) k = view_preserved (proj env c R b) k" for k
  proof -
    consider u where "k = unknown_key u" | u where "k = block_key u"
      | "\<And>u. k \<noteq> unknown_key u" "\<And>u. k \<noteq> block_key u" by blast
    then show ?thesis
    proof cases
      case (1 u)
      have "u \<notin> projected_tags \<Longrightarrow> u \<noteq> product_on_pages" by auto
      then show ?thesis
        by (simp add: 1 view_preserved_unknown [OF d] view_preserved_unknown [OF assms(1)] unknown_view_def
            unknown_value_def merge_pages_facts)
    next
      case (2 u)
      have "lower_units u \<noteq> lower_units product_on_pages \<Longrightarrow> u \<noteq> product_on_pages \<and> u \<noteq> product_on_pages_lower"
        using lower by auto
      then show ?thesis
        by (simp add: 2 view_preserved_block [OF d] view_preserved_block [OF assms(1)] block_view_def
            merge_pages_facts)
    next
      case 3
      then show ?thesis by (simp add: view_preserved_other)
    qed
  qed
  have pages: "cp_pages (proj env c R ?m) = cp_pages (proj env c R r)"
    by (simp add: build_comparison_projection_def resolve_page_identities_def page_names_merge)
  have "view_field (proj env c R p) pages_field = None" for p
    by (rule view_field_other) (simp_all add: other_not_fixed)
  then show ?thesis
    by (auto simp: differences_def fields preserved pages)
qed

text \<open>
  The page assignments of a product are accepted together: accepting one reviewed page hunk
  brings every assignment to the remote's. So an open finding whose remote has a verified page and
  an unverified one, each a hunk of its own, lets the first be accepted and holds the second, and
  accepting the first assigns the second too.
\<close>

theorem verified_accept_takes_held_page:
  assumes "distinct_tags b" and "distinct_tags r" and "dr_status d = Open_drift" and "pd_has_local parsed"
    and "hunk pages_field None (Some verified) \<in> set (diff_comparison_projections env
          (Some (build_comparison_projection env c R b)) (build_comparison_projection env c R r))"
    and "hunk pages_field None (Some unverified) \<in> set (diff_comparison_projections env
          (Some (build_comparison_projection env c R b)) (build_comparison_projection env c R r))"
    and "\<not> is_unverified_page_value (Some verified)" and "is_unverified_page_value (Some unverified)"
  shows "held_reason_for_hunk d parsed pages_field linked (Some (None, Some verified)) = None \<and>
    held_reason_for_hunk d parsed pages_field linked (Some (None, Some unverified)) = Some Unavailable_assignment \<and>
    (\<exists>m. apply_single_field_hunk b r pages_field = Some m \<and>
       unverified \<notin> set (cp_pages (build_comparison_projection env c R b)) \<and>
       unverified \<in> set (cp_pages (build_comparison_projection env c R m)) \<and>
       set (diff_comparison_projections env (Some (build_comparison_projection env c R m))
         (build_comparison_projection env c R r)) =
       {h \<in> set (diff_comparison_projections env (Some (build_comparison_projection env c R b))
         (build_comparison_projection env c R r)). fh_field h \<noteq> pages_field})"
proof -
  have "view_field (proj env c R p) pages_field = None" for p
    by (rule view_field_other) (simp_all add: other_not_fixed)
  then have "unverified \<in> set (cp_pages (proj env c R r)) - set (cp_pages (proj env c R b))"
    using assms(6) by (auto simp: set_diff differences_def)
  moreover have "cp_pages (proj env c R (merge_pages r b)) = cp_pages (proj env c R r)"
    by (simp add: build_comparison_projection_def resolve_page_identities_def page_names_merge)
  ultimately show ?thesis
    using assms(3,4,7,8) views_pages_merge [OF assms(1,2)]
    by (simp add: held_reason_for_hunk_def apply_pages set_diff)
qed

definition sample_drift :: drift_row where
  "sample_drift = \<lparr>dr_id = [1], dr_workspace = [1], dr_sku = [65], dr_detected_at = [], dr_status = Open_drift,
     dr_local_hash = None, dr_remote_hash = [], dr_local_json = Some (Readable (sample_product [66] [] [])),
     dr_remote_json = Readable (sample_product [66] [[67], [68]] []),
     dr_diff_json = Some (Readable (C_object [])), dr_change_set = None\<rparr>"

text \<open>Two pages of the remote, \<open>C\<close> known to the page index and \<open>D\<close> not.\<close>

theorem verified_accept_takes_held_page_witness:
  "\<exists>parsed b r R m unverified. parse_drift_diff sample_drift = Some parsed \<and>
     held_reason_for_hunk sample_drift parsed pages_field (Some []) (Some (None, Some unverified)) = Some Unavailable_assignment \<and>
     apply_single_field_hunk b r pages_field = Some m \<and>
     unverified \<notin> set (cp_pages (build_comparison_projection sample_env [] R b)) \<and>
     unverified \<in> set (cp_pages (build_comparison_projection sample_env [] R m))"
proof -
  let ?R = "\<lambda>n. if n = [67] then Some [49] else None"
  let ?b = "sample_product [66] [] []" and ?r = "sample_product [66] [[67], [68]] []"
  let ?u = "units ''name:'' @ [100]" and ?v = "units ''id:'' @ [49]"
  obtain parsed where parsed: "parse_drift_diff sample_drift = Some parsed" "pd_has_local parsed"
    by (simp add: parse_drift_diff_def raw_diff_def sample_drift_def Let_def jget_def)
  have single: "normalize_text_strict sample_env (Some [n]) = Some [n]" if "n = 67 \<or> n = 68" for n
    using that sample_text [of "[n]"] by (auto simp: trim_units_def is_space_unit_def)
  have pages: "set (cp_pages (proj sample_env [] ?R ?b)) = {}" "set (cp_pages (proj sample_env [] ?R ?r)) = {?v, ?u}"
    by (simp_all add: build_comparison_projection_def resolve_page_identities_def page_names_def sample_product_def
        unknown_elements_def advanced_blocks_def List.map_filter_simps single page_identity_def lower_unit_def insert_commute)
  then have hunks: "hunk pages_field None (Some ?v) \<in> set (diff_comparison_projections sample_env (Some (proj sample_env [] ?R ?b)) (proj sample_env [] ?R ?r))"
    "hunk pages_field None (Some ?u) \<in> set (diff_comparison_projections sample_env (Some (proj sample_env [] ?R ?b)) (proj sample_env [] ?R ?r))"
    by (simp_all add: set_diff differences_def)
  have kinds: "\<not> is_unverified_page_value (Some ?v)" "is_unverified_page_value (Some ?u)"
    by (simp_all add: is_unverified_page_value_def starts_with_def units_def code_def)
  have status: "dr_status sample_drift = Open_drift" by (simp add: sample_drift_def)
  from verified_accept_takes_held_page [OF sample_facts(2,2) status parsed(2) hunks kinds, of "Some []"] parsed(1)
  show ?thesis by blast
qed


section \<open>Where the merge does not converge\<close>

text \<open>
  When the remote carries a defaulted tag both as a blank custom field and as a preserved
  element, its effective value is the preserved one, and accepting the field's hunk drops both: the
  product then has the default, not the remote's value, and the field stays an outstanding hunk.
\<close>

theorem shadowed_custom_not_accepted:
  assumes "tag \<in> {minimum_quantity, product_type}"
    and "map_of (pr_custom r) tag = Some blank" and "trim_units blank = []"
  shows "apply_single_field_hunk b r (custom_key tag) = Some (merge_custom tag r b) \<and>
    resolve_effective_custom (merge_custom tag r b) tag = None \<and>
    (non_blank (unknown_value r tag) \<longrightarrow> resolve_effective_custom r tag = unknown_value r tag) \<and>
    custom_view env c (merge_custom tag r b) tag =
      (if tag = minimum_quantity then normalize_quantity env (Some (Quantity_text (units ''0'')))
       else resolve_controlled env c (custom_key product_type) (normalize_text_strict env (Some (units ''Tangible''))))"
proof -
  have none: "resolve_effective_custom (merge_custom tag r b) tag = None"
    using assms(2,3)
    by (simp add: resolve_effective_custom_def merge_custom_def set_or_delete_custom_def unknown_value_def
        non_blank_def AList.delete_conv')
  then show ?thesis
    using assms by (auto simp: apply_custom resolve_effective_custom_def [of r] non_blank_def custom_view_def
        defaulted_fields_def field_value_of_def or_else_def)
qed

text \<open>A blank \<open>MinimumQuantity\<close> beside a preserved one of three.\<close>

theorem shadowed_custom_not_accepted_witness:
  "\<exists>b r h. h \<in> set (diff_comparison_projections sample_env (Some (build_comparison_projection sample_env [] (\<lambda>_. None) b))
        (build_comparison_projection sample_env [] (\<lambda>_. None) r)) \<and> fh_field h = custom_key minimum_quantity \<and>
     fh_remote h = Some [51] \<and>
     view_field (build_comparison_projection sample_env [] (\<lambda>_. None) (merge_custom minimum_quantity r b)) (custom_key minimum_quantity) = Some [48]"
proof -
  let ?b = "sample_product [66] [] []" and ?P = "proj sample_env [] (\<lambda>_. None)"
  let ?r = "set_unknown [(minimum_quantity, C_string [51])] (sample_product [66] [] [(minimum_quantity, [])])"
  have m: "map_of (pr_custom ?r) minimum_quantity = Some []" "trim_units [] = []"
    by (simp_all add: sample_product_def trim_units_def)
  note all = shadowed_custom_not_accepted [OF _ m, of ?b sample_env "[]"]
  have digits: "normalize_quantity sample_env (Some (Quantity_text [c])) = Some [c]" if "c = 48 \<or> c = 51" for c
    using that by (auto simp: normalize_quantity_def sample_text trim_units_def is_space_unit_def number_of_def
        parse_decimal_def digit_unit_def short_decimal_def significant_whole_def significant_fraction_def
        decimal_text_def Let_def)
  have zero: "units ''0'' = [48]" by (simp add: units_def code_def)
  have effective: "resolve_effective_custom ?r minimum_quantity = Some [51]" "resolve_effective_custom ?b minimum_quantity = None"
    by (simp_all add: resolve_effective_custom_def non_blank_def unknown_value_def unknown_text_def sample_product_def
        set_unknown_def unknown_elements_def trim_units_def is_space_unit_def)
  have "custom_view sample_env [] ?r minimum_quantity = Some [51]" "custom_view sample_env [] ?b minimum_quantity = Some [48]"
    by (simp_all add: custom_view_def defaulted_fields_def field_value_of_def effective or_else_def digits zero)
  then have "hunk (custom_key minimum_quantity) (Some [48]) (Some [51]) \<in> set (diff_comparison_projections sample_env (Some (?P ?b)) (?P ?r))"
    by (auto simp: set_diff differences_def)
  moreover have "view_field (?P (merge_custom minimum_quantity ?r ?b)) (custom_key minimum_quantity) = Some [48]"
    using all by (simp add: zero digits)
  ultimately show ?thesis by (metis hunk_sel(1,3))
qed

end
