(* ===== verification/DriftQueue.thy ===== *)
theory DriftQueue
  imports DriftMerge "HOL-Library.Product_Lexorder"
begin

text \<open>
  The queue of drift findings (\<open>src/src/db/repositories/drift-repo.ts\<close>,
  \<open>src/src/db/repositories/drift-hunk-repo.ts\<close>): a table of findings with a partial unique index
  over the outstanding ones, and the table of acknowledged rejections. Times and fresh identifiers
  are arguments. Between the read and the write of an upsert another process may run; its effect on
  the table is an argument too.
\<close>

section \<open>Rows and reads\<close>

definition is_outstanding :: "drift_row \<Rightarrow> bool" where
  "is_outstanding r \<longleftrightarrow> dr_status r = Open_drift \<or> dr_status r = In_reconcile"

definition at_product :: "code_units \<Rightarrow> code_units \<Rightarrow> drift_row \<Rightarrow> bool" where
  "at_product ws sku r \<longleftrightarrow> dr_workspace r = ws \<and> dr_sku r = sku"

type_synonym drift_table = "drift_row list"

definition survivor_rank :: "drift_row \<Rightarrow> nat \<times> nat \<times> code_units \<times> code_units" where
  "survivor_rank r =
     (if dr_status r = In_reconcile then 0 else 1, if dr_change_set r \<noteq> None then 0 else 1,
      dr_detected_at r, dr_id r)"

definition list_outstanding_drift_for_sku :: "code_units \<Rightarrow> code_units \<Rightarrow> drift_table \<Rightarrow> drift_row list" where
  "list_outstanding_drift_for_sku ws sku rows =
     sort_key survivor_rank (filter (\<lambda>r. at_product ws sku r \<and> is_outstanding r) rows)"

definition find_drift_by_id :: "code_units \<Rightarrow> drift_table \<Rightarrow> drift_row option" where
  "find_drift_by_id i rows = find (\<lambda>r. dr_id r = i) rows"

definition has_blocking_drift_for_sku :: "code_units \<Rightarrow> code_units \<Rightarrow> drift_table \<Rightarrow> bool" where
  "has_blocking_drift_for_sku ws sku rows = list_ex (\<lambda>r. at_product ws sku r \<and> is_outstanding r) rows"

definition has_blocking_drift_excluding ::
    "code_units \<Rightarrow> code_units \<Rightarrow> code_units \<Rightarrow> drift_table \<Rightarrow> bool" where
  "has_blocking_drift_excluding ws sku cs rows =
     list_ex (\<lambda>r. at_product ws sku r \<and> is_outstanding r \<and> dr_change_set r \<noteq> Some cs) rows"

definition has_open_drift_for_sku :: "code_units \<Rightarrow> code_units \<Rightarrow> drift_table \<Rightarrow> bool" where
  "has_open_drift_for_sku ws sku rows = list_ex (\<lambda>r. at_product ws sku r \<and> dr_status r = Open_drift) rows"

section \<open>Lists and counts\<close>

datatype status_filter = Any_status | Blocking | Exactly drift_status

definition status_matches :: "status_filter \<Rightarrow> drift_row \<Rightarrow> bool" where
  "status_matches f r =
     (case f of Any_status \<Rightarrow> True | Blocking \<Rightarrow> is_outstanding r | Exactly s \<Rightarrow> dr_status r = s)"

text \<open>
  The field filter is \<open>LIKE '%"field"%'\<close> on the stored text, which in SQLite ignores the case of
  ASCII letters; the text is the deterministic JSON of the record, indented by two.
\<close>

definition ascii_lower :: "code_units \<Rightarrow> code_units" where
  "ascii_lower s = map (\<lambda>c. if 65 \<le> c \<and> c \<le> 90 then c + 32 else c) s"

definition field_matches :: "code_units option \<Rightarrow> drift_row \<Rightarrow> bool" where
  "field_matches f r =
     (case f of
        None \<Rightarrow> True
      | Some name \<Rightarrow>
          name = [] \<or>
          (case dr_diff_json r of
             Some (Readable v) \<Rightarrow>
               has_part (ascii_lower (serialize_canonical_json v 2 0)) (ascii_lower (34 # name @ [34]))
           | _ \<Rightarrow> False))"

definition drift_matches :: "code_units \<Rightarrow> status_filter \<Rightarrow> code_units option \<Rightarrow> drift_row \<Rightarrow> bool" where
  "drift_matches ws f name r \<longleftrightarrow> dr_workspace r = ws \<and> status_matches f r \<and> field_matches name r"

text \<open>\<open>ORDER BY detected_at DESC, id ASC\<close>: by id, then stably by time, latest first.\<close>

definition newest_first :: "drift_row list \<Rightarrow> drift_row list" where
  "newest_first rows = rev (sort_key dr_detected_at (rev (sort_key dr_id rows)))"

definition drift_max_page_size :: nat where "drift_max_page_size = 100"

definition list_drift ::
    "code_units \<Rightarrow> status_filter \<Rightarrow> nat option \<Rightarrow> nat \<Rightarrow> code_units option \<Rightarrow> drift_table \<Rightarrow> drift_row list" where
  "list_drift ws f limit offset name rows =
     (let matching = newest_first (filter (drift_matches ws f name) rows)
      in case limit of
           None \<Rightarrow> matching
         | Some n \<Rightarrow> take (min (max n 1) drift_max_page_size) (drop offset matching))"

definition count_drift :: "code_units \<Rightarrow> status_filter \<Rightarrow> code_units option \<Rightarrow> drift_table \<Rightarrow> nat" where
  "count_drift ws f name rows = length (filter (drift_matches ws f name) rows)"

definition count_blocking_drift :: "code_units \<Rightarrow> drift_table \<Rightarrow> nat" where
  "count_blocking_drift ws = count_drift ws Blocking None"

definition count_open_drift :: "code_units \<Rightarrow> drift_table \<Rightarrow> nat" where
  "count_open_drift ws = count_drift ws (Exactly Open_drift) None"

definition count_reconcile_drift :: "code_units \<Rightarrow> drift_table \<Rightarrow> nat" where
  "count_reconcile_drift ws = count_drift ws (Exactly In_reconcile) None"

record drift_counts =
  dc_open :: nat
  dc_reconcile :: nat
  dc_blocking :: nat
  dc_total :: nat

text \<open>One pass over the groups \<open>GROUP BY status\<close>.\<close>

definition status_groups :: "code_units \<Rightarrow> drift_table \<Rightarrow> (drift_status \<times> nat) list" where
  "status_groups ws rows =
     (let own = map dr_status (filter (\<lambda>r. dr_workspace r = ws) rows)
      in map (\<lambda>s. (s, length (filter (\<lambda>t. t = s) own))) (remdups own))"

definition add_group :: "drift_counts \<Rightarrow> drift_status \<times> nat \<Rightarrow> drift_counts" where
  "add_group c g =
     (let c' = c\<lparr>dc_total := dc_total c + snd g\<rparr>
      in case fst g of
           Open_drift \<Rightarrow> c'\<lparr>dc_open := snd g\<rparr>
         | In_reconcile \<Rightarrow> c'\<lparr>dc_reconcile := snd g\<rparr>
         | Terminal s \<Rightarrow> c')"

definition get_drift_counts :: "code_units \<Rightarrow> drift_table \<Rightarrow> drift_counts" where
  "get_drift_counts ws rows =
     (let c = foldl add_group \<lparr>dc_open = 0, dc_reconcile = 0, dc_blocking = 0, dc_total = 0\<rparr> (status_groups ws rows)
      in c\<lparr>dc_blocking := dc_open c + dc_reconcile c\<rparr>)"

section \<open>Writes\<close>

record drift_input =
  di_workspace :: code_units
  di_sku :: code_units
  di_local_hash :: "code_units option"
  di_remote_hash :: code_units
  di_local_json :: "product stored_json option"
  di_remote_json :: "product stored_json"
  di_diff_json :: "canonical_json stored_json option"

definition new_drift :: "drift_input \<Rightarrow> code_units \<Rightarrow> code_units \<Rightarrow> drift_row" where
  "new_drift x i now =
     \<lparr>dr_id = i, dr_workspace = di_workspace x, dr_sku = di_sku x, dr_detected_at = now, dr_status = Open_drift,
      dr_local_hash = di_local_hash x, dr_remote_hash = di_remote_hash x, dr_local_json = di_local_json x,
      dr_remote_json = di_remote_json x, dr_diff_json = di_diff_json x, dr_change_set = None\<rparr>"

text \<open>
  The insertion; \<^term>\<open>None\<close> is the constraint error of the partial unique index, which a database
  whose migration failed may lack.
\<close>

definition create_drift :: "bool \<Rightarrow> drift_input \<Rightarrow> code_units \<Rightarrow> code_units \<Rightarrow> drift_table \<Rightarrow> drift_table option" where
  "create_drift indexed x i now rows =
     (if indexed \<and> has_blocking_drift_for_sku (di_workspace x) (di_sku x) rows then None
      else Some (rows @ [new_drift x i now]))"

definition update_row :: "code_units \<Rightarrow> (drift_row \<Rightarrow> drift_row) \<Rightarrow> drift_table \<Rightarrow> drift_table" where
  "update_row i f rows = map (\<lambda>r. if dr_id r = i then f r else r) rows"

definition delete_rows :: "code_units list \<Rightarrow> drift_table \<Rightarrow> drift_table" where
  "delete_rows ids rows = filter (\<lambda>r. dr_id r \<notin> set ids) rows"

datatype upsert_outcome = Inserted code_units | Noop drift_row | Updated code_units

definition refresh_row :: "drift_input \<Rightarrow> code_units \<Rightarrow> drift_row \<Rightarrow> drift_row" where
  "refresh_row x now r =
     r\<lparr>dr_local_hash := di_local_hash x, dr_remote_hash := di_remote_hash x, dr_local_json := di_local_json x,
       dr_remote_json := di_remote_json x, dr_diff_json := di_diff_json x, dr_detected_at := now\<rparr>"

definition link_row :: "code_units \<Rightarrow> drift_row \<Rightarrow> drift_row" where
  "link_row cs r = r\<lparr>dr_change_set := Some cs, dr_status := In_reconcile\<rparr>"

text \<open>The collapse of further outstanding rows into the survivor, keeping a reconcile link.\<close>

definition link_to_preserve :: "bool \<Rightarrow> drift_row \<Rightarrow> drift_row list \<Rightarrow> code_units" where
  "link_to_preserve preserve_link survivor dups =
     (let own = or_else (dr_change_set survivor) []
      in if preserve_link \<and> own = []
         then or_else (find (\<lambda>l. l \<noteq> []) (map (\<lambda>d. or_else (dr_change_set d) []) dups)) [] else own)"

definition collapse_duplicates :: "bool \<Rightarrow> drift_row \<Rightarrow> drift_row list \<Rightarrow> drift_table \<Rightarrow> drift_table" where
  "collapse_duplicates preserve_link survivor dups rows =
     (let link = link_to_preserve preserve_link survivor dups;
          linked = (if link \<noteq> [] \<and> dr_change_set survivor \<noteq> Some link
                    then update_row (dr_id survivor) (link_row link) rows else rows)
      in delete_rows (map dr_id dups) linked)"

definition upsert_attempt ::
    "bool \<Rightarrow> bool \<Rightarrow> (drift_table \<Rightarrow> drift_table) \<Rightarrow> drift_input \<Rightarrow> code_units \<Rightarrow> code_units \<Rightarrow> drift_table \<Rightarrow>
     upsert_outcome option \<times> drift_table" where
  "upsert_attempt indexed preserve_link between x i now rows =
     (case list_outstanding_drift_for_sku (di_workspace x) (di_sku x) rows of
        [] \<Rightarrow>
          let rows' = between rows
          in (case create_drift indexed x i now rows' of
                Some rows'' \<Rightarrow> (Some (Inserted i), rows'')
              | None \<Rightarrow> (None, rows'))
      | survivor # dups \<Rightarrow>
          if dr_remote_hash survivor = di_remote_hash x \<and> dr_local_hash survivor = di_local_hash x \<and> dups = []
          then (Some (Noop survivor), rows)
          else
            let refreshed = update_row (dr_id survivor) (refresh_row x now) (between rows)
            in (Some (Updated (dr_id survivor)),
                if dups \<noteq> [] then collapse_duplicates preserve_link survivor dups refreshed else refreshed))"

text \<open>The upsert: an attempt that lost the race is repeated once; \<^term>\<open>None\<close> is a second constraint error.\<close>

definition upsert_drift ::
    "bool \<Rightarrow> bool \<Rightarrow> (drift_table \<Rightarrow> drift_table) \<Rightarrow> (drift_table \<Rightarrow> drift_table) \<Rightarrow> drift_input \<Rightarrow>
     code_units \<Rightarrow> code_units \<Rightarrow> drift_table \<Rightarrow> upsert_outcome option \<times> drift_table" where
  "upsert_drift indexed preserve_link between1 between2 x i now rows =
     (case upsert_attempt indexed preserve_link between1 x i now rows of
        (Some outcome, rows') \<Rightarrow> (Some outcome, rows')
      | (None, rows') \<Rightarrow> upsert_attempt indexed preserve_link between2 x i now rows')"

definition clear_matched_open_drift :: "code_units \<Rightarrow> code_units \<Rightarrow> drift_table \<Rightarrow> drift_table" where
  "clear_matched_open_drift ws sku rows = filter (\<lambda>r. \<not> (at_product ws sku r \<and> dr_status r = Open_drift)) rows"

definition resolve_drift :: "code_units \<Rightarrow> code_units \<Rightarrow> drift_table \<Rightarrow> drift_table" where
  "resolve_drift i status = update_row i (\<lambda>r. r\<lparr>dr_status := Terminal status\<rparr>)"

definition update_drift_hunk_state ::
    "code_units \<Rightarrow> code_units option \<Rightarrow> product stored_json option \<Rightarrow> canonical_json stored_json option \<Rightarrow>
     code_units \<Rightarrow> drift_table \<Rightarrow> drift_table" where
  "update_drift_hunk_state i local_hash local_json diff_json now =
     update_row i (\<lambda>r. r\<lparr>dr_local_hash := local_hash, dr_local_json := local_json, dr_diff_json := diff_json,
       dr_detected_at := now\<rparr>)"

definition link_drift_to_change_set :: "code_units \<Rightarrow> code_units \<Rightarrow> drift_status option \<Rightarrow> drift_table \<Rightarrow> drift_table" where
  "link_drift_to_change_set i cs status =
     update_row i (\<lambda>r. r\<lparr>dr_change_set := Some cs, dr_status := or_else status (dr_status r)\<rparr>)"

definition reopen_row :: "code_units \<Rightarrow> drift_row \<Rightarrow> drift_row" where
  "reopen_row now r = r\<lparr>dr_status := Open_drift, dr_change_set := None, dr_detected_at := now\<rparr>"

definition reopen_drift_for_change_set :: "code_units \<Rightarrow> code_units \<Rightarrow> code_units \<Rightarrow> drift_table \<Rightarrow> drift_table" where
  "reopen_drift_for_change_set ws cs now rows =
     map (\<lambda>r. if dr_workspace r = ws \<and> dr_change_set r = Some cs \<and> dr_status r = In_reconcile
              then reopen_row now r else r) rows"

definition release_single_reconcile_drift ::
    "code_units \<Rightarrow> code_units \<Rightarrow> code_units \<Rightarrow> drift_table \<Rightarrow> nat \<times> drift_table" where
  "release_single_reconcile_drift i ws now rows =
     (let hit = (\<lambda>r. dr_id r = i \<and> dr_workspace r = ws \<and> dr_status r = In_reconcile)
      in (length (filter hit rows), map (\<lambda>r. if hit r then reopen_row now r else r) rows))"

definition find_linked_drift :: "code_units \<Rightarrow> code_units \<Rightarrow> drift_table \<Rightarrow> drift_row option" where
  "find_linked_drift ws cs rows = find (\<lambda>r. dr_workspace r = ws \<and> dr_change_set r = Some cs) rows"

definition list_linked_drifts :: "code_units \<Rightarrow> code_units \<Rightarrow> drift_table \<Rightarrow> drift_row list" where
  "list_linked_drifts ws cs rows =
     sort_key (\<lambda>r. (dr_sku r, dr_id r)) (filter (\<lambda>r. dr_workspace r = ws \<and> dr_change_set r = Some cs) rows)"

section \<open>Retention\<close>

definition drift_retention_batch_size :: nat where "drift_retention_batch_size = 50"

definition legacy_terminal :: "code_units \<Rightarrow> drift_row \<Rightarrow> bool" where
  "legacy_terminal ws r \<longleftrightarrow> dr_workspace r = ws \<and> \<not> is_outstanding r"

definition list_legacy_terminal_batch :: "code_units \<Rightarrow> nat \<Rightarrow> nat \<Rightarrow> drift_table \<Rightarrow> drift_row list" where
  "list_legacy_terminal_batch ws limit offset rows =
     take (min (max limit 1) (drift_retention_batch_size * 4))
       (drop offset (sort_key (\<lambda>r. (dr_detected_at r, dr_id r)) (filter (legacy_terminal ws) rows)))"

definition count_legacy_terminal :: "code_units \<Rightarrow> drift_table \<Rightarrow> nat" where
  "count_legacy_terminal ws rows = length (filter (legacy_terminal ws) rows)"

definition delete_legacy_terminal_by_id :: "code_units \<Rightarrow> code_units \<Rightarrow> drift_table \<Rightarrow> nat \<times> drift_table" where
  "delete_legacy_terminal_by_id i ws rows =
     (let hit = (\<lambda>r. dr_id r = i \<and> legacy_terminal ws r)
      in (length (filter hit rows), filter (\<lambda>r. \<not> hit r) rows))"

section \<open>Acknowledged rejections\<close>

record ack_key =
  ak_workspace :: code_units
  ak_sku :: code_units
  ak_field :: code_units
  ak_baseline :: code_units
  ak_remote :: code_units
  ak_remote_hash :: code_units
  ak_baseline_commit :: code_units
  ak_projection :: code_units
  ak_built_in :: code_units
  ak_field_catalog :: code_units
  ak_page_hash :: code_units

record ack_row =
  ar_id :: code_units
  ar_key :: ack_key
  ar_decision :: code_units
  ar_actor :: code_units
  ar_created_at :: code_units

definition find_hunk_ack :: "ack_key \<Rightarrow> ack_row list \<Rightarrow> ack_row option" where
  "find_hunk_ack k acks = find (\<lambda>a. ar_key a = k) acks"

text \<open>\<open>INSERT OR IGNORE\<close> under the unique index on the key.\<close>

definition record_hunk_ack ::
    "ack_key \<Rightarrow> code_units \<Rightarrow> code_units \<Rightarrow> code_units \<Rightarrow> code_units \<Rightarrow> ack_row list \<Rightarrow> ack_row list" where
  "record_hunk_ack k decision actor i now acks =
     (if find_hunk_ack k acks = None
      then acks @ [\<lparr>ar_id = i, ar_key = k, ar_decision = decision, ar_actor = actor, ar_created_at = now\<rparr>]
      else acks)"

definition list_hunk_acks_for_sku :: "code_units \<Rightarrow> code_units \<Rightarrow> ack_row list \<Rightarrow> ack_row list" where
  "list_hunk_acks_for_sku ws sku acks = filter (\<lambda>a. ak_workspace (ar_key a) = ws \<and> ak_sku (ar_key a) = sku) acks"


section \<open>One outstanding finding per product\<close>

abbreviation outstanding_at :: "code_units \<Rightarrow> code_units \<Rightarrow> drift_table \<Rightarrow> drift_row list" where
  "outstanding_at ws sku \<equiv> filter (\<lambda>r. at_product ws sku r \<and> is_outstanding r)"

definition ids :: "drift_table \<Rightarrow> code_units list" where
  "ids rows = map dr_id rows"

lemma filter_update_row:
  assumes "\<And>r. r \<in> set rows \<Longrightarrow> dr_id r = i \<Longrightarrow> P (f r) = P r"
  shows "filter P (update_row i f rows) = update_row i f (filter P rows)"
  using assms by (induction rows) (auto simp: update_row_def)

lemma filter_delete_rows: "filter P (delete_rows is rows) = delete_rows is (filter P rows)"
  by (simp add: delete_rows_def conj_commute)

lemma filter_single:
  "distinct xs \<Longrightarrow> x \<in> set xs \<Longrightarrow> (\<And>y. y \<in> set xs \<Longrightarrow> P y \<longleftrightarrow> y = x) \<Longrightarrow> filter P xs = [x]"
proof (induction xs)
  case (Cons a xs)
  show ?case
  proof (cases "a = x")
    case True
    with Cons.prems have "filter P xs = []" by (auto simp: filter_empty_conv)
    with True Cons.prems show ?thesis by auto
  qed (use Cons in auto)
qed simp

lemma refresh_row_simps [simp]:
  "dr_id (refresh_row x now r) = dr_id r" "dr_status (refresh_row x now r) = dr_status r"
  "dr_workspace (refresh_row x now r) = dr_workspace r" "dr_sku (refresh_row x now r) = dr_sku r"
  "dr_change_set (refresh_row x now r) = dr_change_set r"
  by (simp_all add: refresh_row_def)

lemma link_row_simps [simp]:
  "dr_id (link_row l r) = dr_id r" "dr_status (link_row l r) = In_reconcile"
  "dr_workspace (link_row l r) = dr_workspace r" "dr_sku (link_row l r) = dr_sku r"
  "dr_change_set (link_row l r) = Some l"
  by (simp_all add: link_row_def)

lemma update_row_single [simp]: "update_row (dr_id r) f [r] = [f r]"
  by (simp add: update_row_def)

lemma ids_update_row: "(\<And>r. dr_id (f r) = dr_id r) \<Longrightarrow> ids (update_row i f rows) = ids rows"
  by (auto simp: ids_def update_row_def)

text \<open>A row carries an observation: the hashes and texts a check reported.\<close>

definition carries :: "drift_input \<Rightarrow> drift_row \<Rightarrow> bool" where
  "carries x r \<longleftrightarrow> dr_local_hash r = di_local_hash x \<and> dr_remote_hash r = di_remote_hash x"

lemma carries_refresh [simp]: "carries x (refresh_row x now r)" "carries x (link_row l r) = carries x r"
  by (simp_all add: carries_def refresh_row_def link_row_def)

lemma carries_new [simp]: "carries x (new_drift x i now)"
  by (simp add: carries_def new_drift_def)

lemma list_outstanding_set:
  "set (list_outstanding_drift_for_sku ws sku rows) = set (outstanding_at ws sku rows)"
  by (simp add: list_outstanding_drift_for_sku_def)

lemma list_outstanding_Nil:
  "list_outstanding_drift_for_sku ws sku rows = [] \<longleftrightarrow> outstanding_at ws sku rows = []"
  by (metis list_outstanding_set set_empty)

lemma list_outstanding_distinct:
  "distinct (ids rows) \<Longrightarrow> distinct (list_outstanding_drift_for_sku ws sku rows)"
  by (simp add: list_outstanding_drift_for_sku_def ids_def distinct_map)

text \<open>The collapse, on the rows of the product and on the others.\<close>

definition promoted :: "bool \<Rightarrow> drift_row \<Rightarrow> drift_row list \<Rightarrow> drift_row \<Rightarrow> drift_row" where
  "promoted p s dups =
     (if link_to_preserve p s dups \<noteq> [] \<and> dr_change_set s \<noteq> Some (link_to_preserve p s dups)
      then link_row (link_to_preserve p s dups) else id)"

lemma update_row_id [simp]: "update_row i id rows = rows"
  by (induction rows) (simp_all add: update_row_def)

lemma collapse_alt:
  "collapse_duplicates p s dups rows = delete_rows (map dr_id dups) (update_row (dr_id s) (promoted p s dups) rows)"
  by (simp add: collapse_duplicates_def promoted_def Let_def)

lemma update_row_comp:
  "(\<And>r. dr_id (g r) = dr_id r) \<Longrightarrow> update_row i f (update_row i g rows) = update_row i (f \<circ> g) rows"
  by (simp add: update_row_def)

lemma update_delete_other:
  assumes "\<And>r. r \<in> set rows \<Longrightarrow> P r \<Longrightarrow> dr_id r \<noteq> i \<and> dr_id r \<notin> set is"
    and "\<And>r. dr_id r = i \<Longrightarrow> r \<in> set rows \<Longrightarrow> \<not> P (f r)" and "\<And>r. dr_id (f r) = dr_id r"
  shows "filter P (delete_rows is (update_row i f rows)) = filter P rows"
  using assms by (induction rows) (auto simp: update_row_def delete_rows_def)


lemma promoted_simps [simp]:
  "dr_id (promoted p s dups r) = dr_id r" "dr_workspace (promoted p s dups r) = dr_workspace r"
  "dr_sku (promoted p s dups r) = dr_sku r" "carries x (promoted p s dups r) = carries x r"
  "at_product ws sku (promoted p s dups r) = at_product ws sku r"
  by (simp_all add: promoted_def at_product_def)

lemma promoted_outstanding: "is_outstanding r \<Longrightarrow> is_outstanding (promoted p s dups r)"
  by (simp add: promoted_def is_outstanding_def)

lemma refresh_outstanding [simp]:
  "is_outstanding (refresh_row x now r) = is_outstanding r" "at_product ws sku (refresh_row x now r) = at_product ws sku r"
  by (simp_all add: is_outstanding_def at_product_def)

lemma promoted_alone: "promoted p s [] = id"
  by (auto simp: promoted_def link_to_preserve_def Let_def or_else_def split: option.splits)

lemma distinct_singleton: "distinct xs \<Longrightarrow> set xs = {a} \<Longrightarrow> xs = [a]"
  by (cases xs; cases "tl xs") auto

lemma delete_update_rows:
  "(\<And>r. dr_id (f r) = dr_id r) \<Longrightarrow> delete_rows is (update_row i f rows) = update_row i f (delete_rows is rows)"
  by (induction rows) (auto simp: delete_rows_def update_row_def)

lemma promoted_link:
  assumes "q \<in> set (s # dups)" and "p" and "or_else (dr_change_set q) [] \<noteq> []"
    and "dr_change_set r = dr_change_set s"
  shows "or_else (dr_change_set (promoted p s dups r)) [] \<noteq> []"
proof -
  let ?link = "link_to_preserve p s dups"
  have "?link \<noteq> []"
  proof (cases "or_else (dr_change_set s) [] = []")
    case True
    with assms have q: "q \<in> set dups" by auto
    obtain l where "find (\<lambda>l. l \<noteq> []) (map (\<lambda>d. or_else (dr_change_set d) []) dups) = Some l" "l \<noteq> []"
    proof (cases "find (\<lambda>l. l \<noteq> []) (map (\<lambda>d. or_else (dr_change_set d) []) dups)")
      case None
      then show thesis using q assms(3) by (auto simp: find_None_iff)
    next
      case (Some l)
      then show thesis using that by (auto simp: find_Some_iff)
    qed
    then show ?thesis using True assms(2) by (simp add: link_to_preserve_def Let_def or_else_def)
  qed (simp add: link_to_preserve_def Let_def)
  then show ?thesis
    using assms(4) by (auto simp: promoted_def or_else_def)
qed

text \<open>
  What an undisturbed upsert does: it leaves one outstanding finding of the product, which carries
  the observation; every other row is as it was.
\<close>

definition same_rest :: "code_units \<Rightarrow> code_units \<Rightarrow> drift_table \<Rightarrow> drift_table \<Rightarrow> bool" where
  "same_rest ws sku rows rows' \<longleftrightarrow>
     filter (\<lambda>r. \<not> (at_product ws sku r \<and> is_outstanding r)) rows' =
     filter (\<lambda>r. \<not> (at_product ws sku r \<and> is_outstanding r)) rows"

lemma upsert_correct:
  assumes "distinct (ids rows)" and "upsert_attempt indexed p id x i now rows = (outcome, rows')"
  defines "ws \<equiv> di_workspace x" and "sku \<equiv> di_sku x"
  shows "outcome \<noteq> None \<and> same_rest ws sku rows rows' \<and>
    (\<exists>r. outstanding_at ws sku rows' = [r] \<and> carries x r \<and>
       (\<forall>q \<in> set (outstanding_at ws sku rows). p \<and> or_else (dr_change_set q) [] \<noteq> [] \<longrightarrow>
          or_else (dr_change_set r) [] \<noteq> []))"
proof (cases "list_outstanding_drift_for_sku ws sku rows")
  case Nil
  then have none: "outstanding_at ws sku rows = []" by (simp add: list_outstanding_Nil)
  then have "create_drift indexed x i now rows = Some (rows @ [new_drift x i now])"
    by (auto simp: create_drift_def has_blocking_drift_for_sku_def list_ex_iff filter_empty_conv ws_def sku_def)
  then have rows': "outcome = Some (Inserted i)" "rows' = rows @ [new_drift x i now]"
    using assms(2) Nil by (simp_all add: upsert_attempt_def ws_def sku_def)
  have "at_product ws sku (new_drift x i now)" "is_outstanding (new_drift x i now)"
    by (simp_all add: at_product_def is_outstanding_def new_drift_def ws_def sku_def)
  then show ?thesis using none by (simp add: rows' same_rest_def)
next
  case (Cons s dups)
  let ?P = "\<lambda>r. at_product ws sku r \<and> is_outstanding r"
  have members: "set (outstanding_at ws sku rows) = insert s (set dups)"
    using Cons by (metis list.simps(15) list_outstanding_set)
  have d: "distinct (s # dups)" using list_outstanding_distinct [OF assms(1), of ws sku] Cons by simp
  have s: "s \<in> set rows" "?P s" "\<And>q. q \<in> set dups \<Longrightarrow> q \<in> set rows \<and> ?P q"
    using members by auto
  have inj: "q = q'" if "q \<in> set rows" "q' \<in> set rows" "dr_id q = dr_id q'" for q q'
    using assms(1) that by (auto simp: ids_def distinct_map dest: inj_onD)
  have do: "distinct (outstanding_at ws sku rows)"
    using assms(1) by (simp add: ids_def distinct_map)
  show ?thesis
  proof (cases "dr_remote_hash s = di_remote_hash x \<and> dr_local_hash s = di_local_hash x \<and> dups = []")
    case True
    with assms(2) Cons have same: "outcome = Some (Noop s)" "rows' = rows"
      by (simp_all add: upsert_attempt_def ws_def sku_def)
    have "outstanding_at ws sku rows = [s]"
      using do members True by (intro distinct_singleton) simp_all
    with True same show ?thesis by (simp add: carries_def same_rest_def)
  next
    case False
    let ?f = "promoted p s dups \<circ> refresh_row x now"
    have rows': "outcome = Some (Updated (dr_id s))" "rows' = delete_rows (map dr_id dups) (update_row (dr_id s) ?f rows)"
      using assms(2) Cons False
      by (auto simp: upsert_attempt_def ws_def sku_def Let_def collapse_alt update_row_comp promoted_alone delete_rows_def)
    have fs: "?P (?f r)" if "?P r" for r
      using that promoted_outstanding by simp
    have "outstanding_at ws sku (update_row (dr_id s) ?f rows) = update_row (dr_id s) ?f (outstanding_at ws sku rows)"
      using s(1,2) inj fs by (intro filter_update_row) metis
    then have "outstanding_at ws sku rows' = delete_rows (map dr_id dups) (update_row (dr_id s) ?f (outstanding_at ws sku rows))"
      by (simp only: rows'(2) filter_delete_rows)
    also have "\<dots> = update_row (dr_id s) ?f (delete_rows (map dr_id dups) (outstanding_at ws sku rows))"
      by (rule delete_update_rows) simp
    also have "delete_rows (map dr_id dups) (outstanding_at ws sku rows) = [s]"
      unfolding delete_rows_def
    proof (rule filter_single [OF do])
      show "s \<in> set (outstanding_at ws sku rows)" using members by blast
      show "dr_id y \<notin> set (map dr_id dups) \<longleftrightarrow> y = s" if "y \<in> set (outstanding_at ws sku rows)" for y
        using that members d inj s by auto
    qed
    finally have one: "outstanding_at ws sku rows' = [?f s]" by simp
    have "filter (\<lambda>r. \<not> ?P r) rows' = filter (\<lambda>r. \<not> ?P r) rows"
      unfolding rows'
    proof (rule update_delete_other)
      show "dr_id r \<noteq> dr_id s \<and> dr_id r \<notin> set (map dr_id dups)" if "r \<in> set rows" "\<not> ?P r" for r
        using that s inj by (metis (no_types, lifting) imageE list.set_map)
      show "\<not> \<not> ?P (?f r)" if "dr_id r = dr_id s" "r \<in> set rows" for r
        using that s inj fs by metis
    qed simp
    moreover have "or_else (dr_change_set (?f s)) [] \<noteq> []"
      if "q \<in> set (outstanding_at ws sku rows)" "p" "or_else (dr_change_set q) [] \<noteq> []" for q
    proof -
      have "q \<in> set (s # dups)" using that(1) unfolding members by simp
      then show ?thesis using promoted_link [OF _ that(2,3)] by simp
    qed
    ultimately show ?thesis
      using one rows'(1) by (auto simp: same_rest_def)
  qed
qed


section \<open>Properties\<close>

text \<open>
  An undisturbed upsert always succeeds and leaves exactly one outstanding finding of the
  product, which carries the observed hashes; every other row, history included, is untouched; a
  reconcile link that some outstanding row carried is still carried. Repeating the check at a
  later time changes nothing.
\<close>

theorem upsert_leaves_one_finding:
  assumes "distinct (ids rows)"
    and "upsert_drift indexed True id id x i now rows = (outcome, rows')"
  shows "same_rest (di_workspace x) (di_sku x) rows rows' \<and>
    (\<exists>r. outstanding_at (di_workspace x) (di_sku x) rows' = [r] \<and> carries x r \<and>
       ((\<exists>q \<in> set (outstanding_at (di_workspace x) (di_sku x) rows). or_else (dr_change_set q) [] \<noteq> []) \<longrightarrow>
          or_else (dr_change_set r) [] \<noteq> []) \<and>
       upsert_drift indexed True id id x j later rows' = (Some (Noop r), rows'))"
proof -
  obtain o1 r1 where att: "upsert_attempt indexed True id x i now rows = (o1, r1)" by fastforce
  from upsert_correct [OF assms(1) att] obtain r where "o1 \<noteq> None"
    and rest: "same_rest (di_workspace x) (di_sku x) rows r1"
    and one: "outstanding_at (di_workspace x) (di_sku x) r1 = [r]" "carries x r"
    and link: "\<forall>q \<in> set (outstanding_at (di_workspace x) (di_sku x) rows). or_else (dr_change_set q) [] \<noteq> [] \<longrightarrow>
      or_else (dr_change_set r) [] \<noteq> []"
    by auto
  then have r1: "rows' = r1"
    using assms(2) att by (auto simp: upsert_drift_def)
  have "upsert_drift indexed True id id x j later r1 = (Some (Noop r), r1)"
    using one by (simp add: upsert_drift_def upsert_attempt_def list_outstanding_drift_for_sku_def carries_def)
  with rest one link r1 show ?thesis by blast
qed

lemma foldl_groups:
  assumes "distinct (map fst gs)"
  shows "foldl add_group c gs =
    c\<lparr>dc_total := dc_total c + sum_list (map snd gs),
      dc_open := or_else (map_of gs Open_drift) (dc_open c),
      dc_reconcile := or_else (map_of gs In_reconcile) (dc_reconcile c)\<rparr>"
  using assms
proof (induction gs arbitrary: c)
  case (Cons g gs)
  show ?case
    using Cons by (cases g; cases "fst g")
      (auto simp: add_group_def Let_def or_else_def map_of_eq_None_iff [THEN iffD2] split: option.split)
qed (simp add: or_else_def)


lemma sum_group_lengths:
  "sum_list (map (\<lambda>s. length (filter (\<lambda>t. t = s) xs)) (remdups xs)) = length xs"
proof -
  have "sum_list (map (\<lambda>s. length (filter (\<lambda>t. t = s) xs)) (remdups xs)) = (\<Sum>s\<in>set xs. length (filter (\<lambda>t. t = s) xs))"
    by (simp add: sum_list_distinct_conv_sum_set)
  also have "\<dots> = length xs"
    using sum_count_set [of xs "set xs"] by (simp add: count_list_eq_length_filter eq_commute)
  finally show ?thesis .
qed

lemma map_of_groups:
  "map_of (map (\<lambda>s. (s, f s)) xs) s = (if s \<in> set xs then Some (f s) else None)"
  by (induction xs) auto

lemma newest_first_mset: "mset (newest_first rows) = mset rows"
  by (simp add: newest_first_def)

text \<open>
  C32. The dashboard's single pass over the status groups agrees with the filtered counts, which
  agree with the lists: open and reconcile findings are counted apart, blocking is their sum, and a
  product blocks a push exactly when a blocking finding of it is listed.
\<close>

theorem drift_counts_agree:
  "get_drift_counts ws rows =
     \<lparr>dc_open = count_open_drift ws rows, dc_reconcile = count_reconcile_drift ws rows,
      dc_blocking = count_blocking_drift ws rows, dc_total = count_drift ws Any_status None rows\<rparr> \<and>
   mset (list_drift ws f None 0 name rows) = mset (filter (drift_matches ws f name) rows) \<and>
   length (list_drift ws f None 0 name rows) = count_drift ws f name rows \<and>
   (has_blocking_drift_for_sku ws sku rows \<longleftrightarrow>
      (\<exists>r \<in> set (list_drift ws Blocking None 0 None rows). dr_sku r = sku))"
proof -
  let ?own = "filter (\<lambda>r. dr_workspace r = ws) rows"
  have groups: "map_of (status_groups ws rows) s =
      (if s \<in> dr_status ` set ?own then Some (length (filter (\<lambda>r. dr_status r = s) ?own)) else None)" for s
    by (simp add: status_groups_def Let_def map_of_groups filter_map comp_def)
  have total: "sum_list (map snd (status_groups ws rows)) = length ?own"
    using sum_group_lengths [of "map dr_status ?own"] by (simp add: status_groups_def Let_def comp_def)
  have dist: "distinct (map fst (status_groups ws rows))"
    by (simp add: status_groups_def Let_def comp_def)
  have one: "or_else (map_of (status_groups ws rows) s) 0 =
      count_drift ws (Exactly s) None rows" for s
  proof -
    have "drift_matches ws (Exactly s) None = (\<lambda>r. dr_status r = s \<and> dr_workspace r = ws)"
      by (auto simp: fun_eq_iff drift_matches_def status_matches_def field_matches_def)
    then show ?thesis
      by (auto simp: groups count_drift_def or_else_def filter_empty_conv image_iff conj_commute)
  qed
  have blocking: "count_drift ws (Exactly Open_drift) None rows + count_drift ws (Exactly In_reconcile) None rows =
      count_drift ws Blocking None rows"
    by (induction rows) (auto simp: count_drift_def drift_matches_def status_matches_def field_matches_def is_outstanding_def)
  have any: "length ?own = count_drift ws Any_status None rows"
  proof -
    have "drift_matches ws Any_status None = (\<lambda>r. dr_workspace r = ws)"
      by (simp add: fun_eq_iff drift_matches_def status_matches_def field_matches_def)
    then show ?thesis by (simp add: count_drift_def)
  qed
  have lists: "mset (list_drift ws f None 0 name rows) = mset (filter (drift_matches ws f name) rows)" for f name
    by (simp add: list_drift_def Let_def newest_first_mset)
  have "set (list_drift ws Blocking None 0 None rows) = set (filter (drift_matches ws Blocking None) rows)"
    using lists by (rule mset_eq_setD)
  then have "has_blocking_drift_for_sku ws sku rows \<longleftrightarrow>
      (\<exists>r \<in> set (list_drift ws Blocking None 0 None rows). dr_sku r = sku)"
    by (auto simp: has_blocking_drift_for_sku_def list_ex_iff at_product_def drift_matches_def status_matches_def
        field_matches_def)
  moreover have "length (list_drift ws f None 0 name rows) = count_drift ws f name rows"
    using lists [of f name] by (metis count_drift_def size_mset)
  ultimately show ?thesis
    using lists blocking any one
    by (simp add: get_drift_counts_def foldl_groups [OF dist] total count_open_drift_def count_reconcile_drift_def
        count_blocking_drift_def Let_def)
qed


text \<open>The steps the services take on an indexed table; what they check before calling is a premise.\<close>

inductive drift_step :: "drift_table \<Rightarrow> drift_table \<Rightarrow> bool" where
  insert: "create_drift True x i now rows = Some rows' \<Longrightarrow> i \<notin> set (ids rows) \<Longrightarrow> drift_step rows rows'"
| upsert: "upsert_attempt True p id x i now rows = (outcome, rows') \<Longrightarrow> i \<notin> set (ids rows) \<Longrightarrow> drift_step rows rows'"
| clear: "drift_step rows (clear_matched_open_drift ws sku rows)"
| resolve: "find_drift_by_id i rows = Some r \<Longrightarrow> is_outstanding r \<Longrightarrow> drift_step rows (resolve_drift i s rows)"
| rewrite: "drift_step rows (update_drift_hunk_state i lh lj dj now rows)"
| link: "find_drift_by_id i rows = Some r \<Longrightarrow> dr_status r = Open_drift \<Longrightarrow>
    drift_step rows (link_drift_to_change_set i cs (Some In_reconcile) rows)"
| reopen: "drift_step rows (reopen_drift_for_change_set ws cs now rows)"
| release: "drift_step rows (snd (release_single_reconcile_drift i ws now rows))"
| prune: "drift_step rows (snd (delete_legacy_terminal_by_id i ws rows))"

definition unique_outstanding :: "drift_table \<Rightarrow> bool" where
  "unique_outstanding rows \<longleftrightarrow> distinct (ids rows) \<and> (\<forall>ws sku. length (outstanding_at ws sku rows) \<le> 1)"

lemma find_drift_Some: "find_drift_by_id i rows = Some r \<Longrightarrow> r \<in> set rows \<and> dr_id r = i"
  by (auto simp: find_drift_by_id_def find_Some_iff)

lemma length_filter_map_le:
  "(\<And>r. r \<in> set rows \<Longrightarrow> P (f r) \<Longrightarrow> P r) \<Longrightarrow> length (filter P (map f rows)) \<le> length (filter P rows)"
  by (induction rows) (auto simp: le_SucI)

lemma length_filter_filter_le: "length (filter P (filter Q rows)) \<le> length (filter P rows)"
  by (induction rows) auto

lemma unique_map:
  assumes "unique_outstanding rows" and "\<And>r. dr_id (f r) = dr_id r"
    and "\<And>r. r \<in> set rows \<Longrightarrow> is_outstanding (f r) \<Longrightarrow> is_outstanding r"
    and "\<And>r. dr_workspace (f r) = dr_workspace r \<and> dr_sku (f r) = dr_sku r"
  shows "unique_outstanding (map f rows)"
proof -
  have "length (outstanding_at ws sku (map f rows)) \<le> 1" for ws sku
  proof -
    have "length (outstanding_at ws sku (map f rows)) \<le> length (outstanding_at ws sku rows)"
      using assms(3,4) by (intro length_filter_map_le) (auto simp: at_product_def)
    also have "\<dots> \<le> 1" using assms(1) unfolding unique_outstanding_def by blast
    finally show ?thesis .
  qed
  moreover have "distinct (ids (map f rows))"
    using assms(1,2) by (simp add: ids_def unique_outstanding_def comp_def)
  ultimately show ?thesis unfolding unique_outstanding_def by blast
qed

lemma unique_filter:
  assumes "unique_outstanding rows"
  shows "unique_outstanding (filter P rows)"
proof -
  have "length (outstanding_at ws sku (filter P rows)) \<le> 1" for ws sku
    using le_trans [OF length_filter_filter_le] assms unfolding unique_outstanding_def by blast
  moreover have "distinct (ids (filter P rows))"
    using assms by (auto simp: ids_def unique_outstanding_def)
  ultimately show ?thesis unfolding unique_outstanding_def by blast
qed

lemma distinct_ids_delete: "distinct (ids rows) \<Longrightarrow> distinct (ids (delete_rows is rows))"
  by (auto simp: ids_def delete_rows_def)

lemma ids_append_new: "ids (rows @ [new_drift x i now]) = ids rows @ [i]"
  by (simp add: ids_def new_drift_def)

lemma unique_upsert:
  assumes "unique_outstanding rows" and "upsert_attempt True p id x i now rows = (outcome, rows')"
    and "i \<notin> set (ids rows)"
  shows "unique_outstanding rows'"
proof -
  have d: "distinct (ids rows)" using assms(1) by (simp add: unique_outstanding_def)
  obtain r where one: "outstanding_at (di_workspace x) (di_sku x) rows' = [r]"
    and rest: "same_rest (di_workspace x) (di_sku x) rows rows'"
    using upsert_correct [OF d assms(2)] by blast
  have "outstanding_at ws sku rows' = outstanding_at ws sku rows" if "(ws, sku) \<noteq> (di_workspace x, di_sku x)" for ws sku
  proof -
    have "outstanding_at ws sku t =
        outstanding_at ws sku (filter (\<lambda>r. \<not> (at_product (di_workspace x) (di_sku x) r \<and> is_outstanding r)) t)" for t
      using that by (induction t) (auto simp: at_product_def)
    then show ?thesis using rest by (metis same_rest_def)
  qed
  then have "length (outstanding_at ws sku rows') \<le> 1" for ws sku
    using one assms(1) by (cases "(ws, sku) = (di_workspace x, di_sku x)") (auto simp: unique_outstanding_def)
  moreover have "distinct (ids rows')"
    using assms(2,3) d
    by (auto simp: upsert_attempt_def create_drift_def collapse_alt distinct_ids_delete ids_update_row
        ids_append_new Let_def split: list.splits if_splits)
  ultimately show ?thesis by (simp add: unique_outstanding_def)
qed


lemma drift_step_unique:
  assumes "drift_step rows rows'" and "unique_outstanding rows"
  shows "unique_outstanding rows'"
  using assms
proof (cases rule: drift_step.cases)
  case (insert x i now)
  then have "list_outstanding_drift_for_sku (di_workspace x) (di_sku x) rows = []"
    by (auto simp: create_drift_def has_blocking_drift_for_sku_def list_ex_iff
        list_outstanding_Nil filter_empty_conv split: if_splits)
  with insert(1) have "upsert_attempt True True id x i now rows = (Some (Inserted i), rows')"
    by (simp add: upsert_attempt_def)
  then show ?thesis using unique_upsert assms(2) insert(2) by blast
next
  case (upsert p x i now outcome)
  then show ?thesis using unique_upsert assms(2) by blast
next
  case (resolve i r s)
  show ?thesis
    unfolding resolve(1) resolve_drift_def update_row_def
    by (rule unique_map [OF assms(2)]) (auto simp: is_outstanding_def split: if_splits)
next
  case (rewrite i lh lj dj now)
  show ?thesis
    unfolding rewrite update_drift_hunk_state_def update_row_def
    by (rule unique_map [OF assms(2)]) (auto simp: is_outstanding_def split: if_splits)
next
  case (link i r cs)
  have d: "distinct (ids rows)" using assms(2) by (simp add: unique_outstanding_def)
  have "q = r" if "q \<in> set rows" "dr_id q = i" for q
    using find_drift_Some [OF link(2)] that d by (auto simp: ids_def distinct_map dest: inj_onD)
  then show ?thesis
    unfolding link(1) link_drift_to_change_set_def update_row_def
    using link(3) by (intro unique_map [OF assms(2)]) (auto simp: is_outstanding_def split: if_splits)
next
  case (reopen ws cs now)
  show ?thesis
    unfolding reopen reopen_drift_for_change_set_def
    by (rule unique_map [OF assms(2)]) (auto simp: is_outstanding_def reopen_row_def split: if_splits)
next
  case (release i ws now)
  show ?thesis
    unfolding release release_single_reconcile_drift_def
    by (simp add: Let_def, rule unique_map [OF assms(2)]) (auto simp: is_outstanding_def reopen_row_def split: if_splits)
qed (use assms(2) in \<open>auto simp: clear_matched_open_drift_def delete_legacy_terminal_by_id_def Let_def intro: unique_filter\<close>)

text \<open>
  C23. In every table reachable from the empty one each product has at most one outstanding finding
  in a workspace; so a product whose finding was rejected, accepted or reconciled blocks a push only
  through a later one.
\<close>

theorem one_outstanding_finding:
  "drift_step\<^sup>*\<^sup>* [] rows \<Longrightarrow>
     distinct (map dr_id rows) \<and> length (filter (\<lambda>r. at_product ws sku r \<and> is_outstanding r) rows) \<le> 1"
proof -
  assume "drift_step\<^sup>*\<^sup>* [] rows"
  then have "unique_outstanding rows"
  proof (induction rule: rtranclp_induct)
    case base
    show ?case by (simp add: unique_outstanding_def ids_def)
  next
    case (step rows rows')
    then show ?case using drift_step_unique by blast
  qed
  then show ?thesis by (simp add: unique_outstanding_def ids_def)
qed


definition sample_input :: "code_units \<Rightarrow> drift_input" where
  "sample_input remote_hash = \<lparr>di_workspace = [1], di_sku = [65], di_local_hash = Some [2], di_remote_hash = remote_hash,
     di_local_json = None, di_remote_json = Unreadable, di_diff_json = None\<rparr>"

text \<open>A first check of a product, and the table after it.\<close>

theorem one_outstanding_finding_witness:
  "\<exists>rows. drift_step\<^sup>*\<^sup>* [] rows \<and> rows \<noteq> [] \<and>
     length (filter (\<lambda>r. at_product [1] [65] r \<and> is_outstanding r) rows) \<le> 1"
proof -
  have "create_drift True (sample_input [3]) [9] [7] [] = Some [new_drift (sample_input [3]) [9] [7]]"
    by (simp add: create_drift_def has_blocking_drift_for_sku_def)
  then have "drift_step\<^sup>*\<^sup>* [] [new_drift (sample_input [3]) [9] [7]]"
    by (intro r_into_rtranclp drift_step.insert) (auto simp: ids_def)
  from one_outstanding_finding [OF this, of "[1]" "[65]"] this show ?thesis by blast
qed

text \<open>A second check sees a newer remote state and supersedes the finding in place.\<close>

theorem upsert_leaves_one_finding_witness:
  "\<exists>rows rows' r. length rows = 1 \<and>
     upsert_drift True True id id (sample_input [4]) [10] [8] rows = (Some (Updated [9]), rows') \<and>
     outstanding_at [1] [65] rows' = [r] \<and> dr_remote_hash r = [4] \<and>
     upsert_drift True True id id (sample_input [4]) [11] [12] rows' = (Some (Noop r), rows')"
proof -
  let ?row = "new_drift (sample_input [3]) [9] [7]"
  have d: "distinct (ids [?row])" by (simp add: ids_def)
  have "list_outstanding_drift_for_sku [1] [65] [?row] = [?row]"
    by (simp add: list_outstanding_drift_for_sku_def at_product_def is_outstanding_def new_drift_def sample_input_def)
  then obtain rows' where up: "upsert_drift True True id id (sample_input [4]) [10] [8] [?row] = (Some (Updated [9]), rows')"
    by (simp add: upsert_drift_def upsert_attempt_def sample_input_def new_drift_def)
  have at: "di_workspace (sample_input [4]) = [1]" "di_sku (sample_input [4]) = [65]" "di_remote_hash (sample_input [4]) = [4]"
    by (simp_all add: sample_input_def)
  from upsert_leaves_one_finding [OF d up, of "[11]" "[12]"] obtain r where
    "outstanding_at [1] [65] rows' = [r]" "carries (sample_input [4]) r"
    "upsert_drift True True id id (sample_input [4]) [11] [12] rows' = (Some (Noop r), rows')"
    unfolding at by blast
  then have "length [?row] = 1 \<and> upsert_drift True True id id (sample_input [4]) [10] [8] [?row] = (Some (Updated [9]), rows') \<and>
     outstanding_at [1] [65] rows' = [r] \<and> dr_remote_hash r = [4] \<and>
     upsert_drift True True id id (sample_input [4]) [11] [12] rows' = (Some (Noop r), rows')"
    using up at(3) by (simp add: carries_def)
  then show ?thesis by blast
qed

end
