(* ===== verification/ProductFilePath.thy ===== *)
theory ProductFilePath
  imports Prelude
begin

text \<open>
  SKU file names (\<open>src/src/git/product-file-path.ts\<close>): percent-encoding of a SKU into a file
  name of the catalog repository, and the way back. Strings are code units, because the encoder
  prints \<open>charCodeAt\<close> in hexadecimal. \<open>decodeURIComponent\<close> is the ECMAScript library function,
  written out here from its specification (percent octets, UTF-8, UTF-16).
\<close>

section \<open>Hexadecimal digits\<close>

definition hex_upper :: "nat \<Rightarrow> nat" where
  "hex_upper d = (if d < 10 then 48 + d else 55 + d)"

definition hex_value :: "nat \<Rightarrow> nat option" where
  "hex_value c =
     (if 48 \<le> c \<and> c \<le> 57 then Some (c - 48)
      else if 65 \<le> c \<and> c \<le> 70 then Some (c - 55)
      else if 97 \<le> c \<and> c \<le> 102 then Some (c - 87)
      else None)"

lemma hex_value_upper: "d < 16 \<Longrightarrow> hex_value (hex_upper d) = Some d"
  by (auto simp: hex_value_def hex_upper_def)

text \<open>\<open>n.toString(16).toUpperCase()\<close>.\<close>

fun hex_digits :: "nat \<Rightarrow> code_units" where
  "hex_digits n = (if n < 16 then [hex_upper n] else hex_digits (n div 16) @ [hex_upper (n mod 16)])"

declare hex_digits.simps [simp del]

lemma pad_hex_digits: "n < 256 \<Longrightarrow> pad_start 2 48 (hex_digits n) = [hex_upper (n div 16), hex_upper (n mod 16)]"
  by (auto simp: pad_start_def hex_digits.simps [of n] hex_digits.simps [of "n div 16"] hex_upper_def)

section \<open>The encoder\<close>

definition filename_safe :: "nat \<Rightarrow> bool" where
  "filename_safe c \<longleftrightarrow> (97 \<le> c \<and> c \<le> 122) \<or> (65 \<le> c \<and> c \<le> 90) \<or> (48 \<le> c \<and> c \<le> 57) \<or>
     c = 46 \<or> c = 95 \<or> c = 45"

definition filename_safe_re :: "code_units \<Rightarrow> bool" where
  "filename_safe_re s \<longleftrightarrow> s \<noteq> [] \<and> list_all filename_safe s"

fun encode_loop :: "code_units \<Rightarrow> code_units" where
  "encode_loop [] = []"
| "encode_loop (c # cs) =
     (if filename_safe_re [c] then c # encode_loop cs
      else 37 # pad_start 2 48 (hex_digits c) @ encode_loop cs)"

definition encode_sku_for_filename :: "code_units \<Rightarrow> code_units" where
  "encode_sku_for_filename sku = (if filename_safe_re sku then sku else encode_loop sku)"

section \<open>The decoder\<close>

text \<open>One percent octet \<open>%XX\<close>, after the percent sign.\<close>

fun pct_octet :: "code_units \<Rightarrow> (nat \<times> code_units) option" where
  "pct_octet (h # l # rest) =
     (case (hex_value h, hex_value l) of
        (Some a, Some b) \<Rightarrow> Some (16 * a + b, rest)
      | _ \<Rightarrow> None)"
| "pct_octet _ = None"

text \<open>\<open>n\<close> continuation octets \<open>%XX\<close> of the form \<open>10xxxxxx\<close>, accumulated into the code point.\<close>

fun continuation :: "nat \<Rightarrow> nat \<Rightarrow> code_units \<Rightarrow> (nat \<times> code_units) option" where
  "continuation 0 v cs = Some (v, cs)"
| "continuation (Suc n) v (c # cs) =
     (if c \<noteq> 37 then None
      else case pct_octet cs of
        None \<Rightarrow> None
      | Some (b, rest) \<Rightarrow>
          if b div 64 = 2 then continuation n (64 * v + b mod 64) rest else None)"
| "continuation (Suc n) v [] = None"

text \<open>A UTF-8 sequence whose first octet is \<open>b\<close>, at least 128; overlong forms, surrogates and code points past 10FFFF are refused.\<close>

definition utf8_sequence :: "nat \<Rightarrow> code_units \<Rightarrow> (nat \<times> code_units) option" where
  "utf8_sequence b cs =
     (if b < 192 then None
      else if b < 224 then
        (case continuation 1 (b - 192) cs of
           Some (v, rest) \<Rightarrow> if 128 \<le> v then Some (v, rest) else None | None \<Rightarrow> None)
      else if b < 240 then
        (case continuation 2 (b - 224) cs of
           Some (v, rest) \<Rightarrow>
             if 2048 \<le> v \<and> \<not> (55296 \<le> v \<and> v \<le> 57343) then Some (v, rest) else None
         | None \<Rightarrow> None)
      else if b < 248 then
        (case continuation 3 (b - 240) cs of
           Some (v, rest) \<Rightarrow> if 65536 \<le> v \<and> v \<le> 1114111 then Some (v, rest) else None
         | None \<Rightarrow> None)
      else None)"

definition utf16_units :: "nat \<Rightarrow> code_units" where
  "utf16_units v =
     (if v < 65536 then [v]
      else [55296 + (v - 65536) div 1024, 56320 + (v - 65536) mod 1024])"

lemma pct_octet_length: "pct_octet cs = Some (b, rest) \<Longrightarrow> length rest < length cs"
  by (induction cs rule: pct_octet.induct) (auto split: option.splits)

lemma continuation_length: "continuation n v cs = Some (w, rest) \<Longrightarrow> length rest \<le> length cs"
proof (induction n v cs rule: continuation.induct)
  case (2 n v c cs)
  then show ?case
    by (fastforce dest: pct_octet_length split: if_splits option.splits)
qed auto

lemma utf8_sequence_length: "utf8_sequence b cs = Some (w, rest) \<Longrightarrow> length rest \<le> length cs"
  by (auto simp: utf8_sequence_def dest: continuation_length split: if_splits option.splits)

function decode_uri_component :: "code_units \<Rightarrow> code_units option" where
  "decode_uri_component [] = Some []"
| "decode_uri_component (c # cs) =
     (if c \<noteq> 37 then map_option (Cons c) (decode_uri_component cs)
      else case pct_octet cs of
        None \<Rightarrow> None
      | Some (b, rest) \<Rightarrow>
          if b < 128 then map_option (Cons b) (decode_uri_component rest)
          else (case utf8_sequence b rest of
            None \<Rightarrow> None
          | Some (v, rest') \<Rightarrow> map_option (append (utf16_units v)) (decode_uri_component rest')))"
  by pat_completeness auto
termination
  by (relation "measure length") (auto dest!: pct_octet_length utf8_sequence_length)

text \<open>The fallback: \<open>filename.replace(/%([0-9A-Fa-f]{2})/g, ...)\<close>.\<close>

function manual_decode :: "code_units \<Rightarrow> code_units" where
  "manual_decode [] = []"
| "manual_decode (c # cs) =
     (if c \<noteq> 37 then c # manual_decode cs
      else case pct_octet cs of
        None \<Rightarrow> c # manual_decode cs
      | Some (b, rest) \<Rightarrow> b # manual_decode rest)"
  by pat_completeness auto
termination
  by (relation "measure length") (auto dest!: pct_octet_length)

definition decode_sku_from_filename :: "code_units \<Rightarrow> code_units" where
  "decode_sku_from_filename filename =
     (case decode_uri_component filename of
        Some sku \<Rightarrow> sku
      | None \<Rightarrow> manual_decode filename)"

section \<open>Paths\<close>

definition strip_json_extension :: "code_units \<Rightarrow> code_units" where
  "strip_json_extension filename =
     (if ends_with filename (units ''.json'') then take (length filename - 5) filename else filename)"

definition sku_to_product_file_path :: "code_units \<Rightarrow> code_units" where
  "sku_to_product_file_path sku =
     units ''products/'' @ encode_sku_for_filename sku @ units ''.json''"

definition product_file_path_to_sku :: "code_units \<Rightarrow> code_units" where
  "product_file_path_to_sku file_path =
     (let basename = last (split_on 47 file_path);
          without_ext = strip_json_extension basename
      in decode_sku_from_filename without_ext)"

section \<open>Lemmas\<close>

lemma filename_safe_not_special: "filename_safe c \<Longrightarrow> c \<noteq> 37 \<and> c \<noteq> 47"
  by (auto simp: filename_safe_def)

lemma hex_upper_range: "d < 16 \<Longrightarrow> hex_upper d \<noteq> 47 \<and> hex_upper d \<noteq> 37"
  by (auto simp: hex_upper_def)

lemma encode_loop_no_slash: "\<forall>c \<in> set cs. c < 256 \<Longrightarrow> 47 \<notin> set (encode_loop cs)"
proof (induction cs)
  case (Cons c cs)
  then have c: "c < 256" by simp
  then have "c div 16 < 16" "c mod 16 < 16" by simp_all
  with Cons c show ?case
    using hex_upper_range [of "c div 16"] hex_upper_range [of "c mod 16"]
    by (auto simp: filename_safe_re_def pad_hex_digits dest: filename_safe_not_special)
qed simp

lemma encode_no_slash:
  assumes "\<forall>c \<in> set sku. c < 256"
  shows "47 \<notin> set (encode_sku_for_filename sku)"
  using assms encode_loop_no_slash
  by (auto simp: encode_sku_for_filename_def filename_safe_re_def list_all_iff
      dest: filename_safe_not_special)

lemma decode_safe: "list_all filename_safe cs \<Longrightarrow> decode_uri_component cs = Some cs"
  by (induction cs) (auto dest: filename_safe_not_special)

text \<open>A code unit below 128 is recovered from its two hexadecimal digits.\<close>

lemma pct_octet_hex:
  assumes "c < 256"
  shows "pct_octet (hex_upper (c div 16) # hex_upper (c mod 16) # rest) = Some (c, rest)"
proof -
  have "c div 16 < 16" "c mod 16 < 16"
    using assms by simp_all
  then show ?thesis
    by (simp add: hex_value_upper)
qed

lemma decode_encode_loop:
  "\<forall>c \<in> set cs. c < 128 \<Longrightarrow> decode_uri_component (encode_loop cs) = Some cs"
proof (induction cs)
  case (Cons c cs)
  then have c: "c < 128" by simp
  show ?case
  proof (cases "filename_safe c")
    case True
    with Cons show ?thesis
      by (auto simp: filename_safe_re_def dest: filename_safe_not_special)
  next
    case False
    with Cons c pct_octet_hex [of c "encode_loop cs"] show ?thesis
      by (simp add: filename_safe_re_def pad_hex_digits del: pct_octet.simps)
  qed
qed simp

lemma strip_json_append [simp]: "strip_json_extension (s @ units ''.json'') = s"
  by (simp add: strip_json_extension_def ends_with_def units_def)

lemma split_on_append: "split_on c (xs @ c # ys) = split_on c xs @ split_on c ys"
  by (induction xs) (auto split: list.splits)

lemma last_split_on_sep: "c \<notin> set ys \<Longrightarrow> last (split_on c (xs @ c # ys)) = ys"
  by (simp add: split_on_append split_on_no_sep)

lemma basename_of_path:
  assumes "\<forall>c \<in> set sku. c < 256"
  shows "last (split_on 47 (sku_to_product_file_path sku)) =
    encode_sku_for_filename sku @ units ''.json''"
proof -
  have path: "sku_to_product_file_path sku =
      units ''products'' @ 47 # (encode_sku_for_filename sku @ units ''.json'')"
    by (simp add: sku_to_product_file_path_def units_def code_def)
  have "47 \<notin> set (encode_sku_for_filename sku @ units ''.json'')"
    using encode_no_slash [OF assms] by (simp add: units_def code_def)
  then show ?thesis
    unfolding path by (rule last_split_on_sep)
qed

section \<open>Properties\<close>

text \<open>
  C37. File names are reversible for ASCII SKUs: whatever ASCII characters a SKU holds (slashes,
  spaces, percent signs, dots), the product file path computed for it reads back as that SKU, so
  distinct ASCII SKUs never share a file.
\<close>

theorem sku_path_roundtrip:
  assumes "\<forall>c \<in> set sku. c < 128"
  shows "product_file_path_to_sku (sku_to_product_file_path sku) = sku"
proof -
  have "decode_uri_component (encode_sku_for_filename sku) = Some sku"
    using decode_encode_loop [OF assms]
    by (simp add: encode_sku_for_filename_def filename_safe_re_def decode_safe)
  moreover have "\<forall>c \<in> set sku. c < 256"
    using assms by auto
  ultimately show ?thesis
    by (simp add: product_file_path_to_sku_def basename_of_path decode_sku_from_filename_def)
qed

theorem sku_path_roundtrip_witness:
  "product_file_path_to_sku (sku_to_product_file_path (units ''A/B 10%.json'')) = units ''A/B 10%.json''"
  by (rule sku_path_roundtrip) code_simp


end
