(* ===== verification/ProductStore.thy ===== *)
theory ProductStore
  imports DriftQueue ProductFilePath
begin

text \<open>
  Where products are kept: the product files of the workspace and its Git repository
  (\<open>src/src/git/workspace-files.ts\<close>, \<open>src/src/git/git-client.ts\<close>), the catalog index
  (\<open>src/src/db/repositories/product-index-repo.ts\<close>), the page tables
  (\<open>src/src/db/repositories/page-repo.ts\<close>) and the change sets
  (\<open>src/src/db/repositories/change-set-repo.ts\<close>), as far as the drift workflow uses them. A stored
  product is the product its text parses to, or unreadable.
\<close>

section \<open>The text of a product\<close>

definition nullable_int :: "int option \<Rightarrow> js_value" where
  "nullable_int v = (case v of None \<Rightarrow> V_null | Some i \<Rightarrow> V_number (Int_num i))"

definition text_record :: "(code_units \<times> code_units) list \<Rightarrow> js_value" where
  "text_record ps = plain_object (map (map_prod id V_string) ps)"

text \<open>A parsed JSON value as a JavaScript value.\<close>

fun js_of_json :: "canonical_json \<Rightarrow> js_value" where
  "js_of_json C_null = V_null"
| "js_of_json (C_bool b) = V_bool b"
| "js_of_json (C_int i) = V_number (Int_num i)"
| "js_of_json (C_frac t) = V_number (Frac_num t)"
| "js_of_json (C_string s) = V_string s"
| "js_of_json (C_array vs) = plain_array (map js_of_json vs)"
| "js_of_json (C_object ps) = plain_object (map (\<lambda>(k, v). (k, js_of_json v)) ps)"

definition core_value :: "core_product \<Rightarrow> js_value" where
  "core_value c = object_of
     [(''name'', V_string (co_name c)), (''price'', nullable_string (co_price c)),
      (''salePrice'', nullable_string (co_sale_price c)), (''description'', nullable_string (co_description c)),
      (''inventory'', object_of
        [(''quantityOnHand'', nullable_int (iv_quantity (co_inventory c))),
         (''lowStockThreshold'', nullable_int (iv_low_stock (co_inventory c))),
         (''outOfStockLimit'', nullable_int (iv_out_of_stock (co_inventory c)))]),
      (''availability'', nullable_string (co_availability c)), (''weight'', nullable_string (co_weight c)),
      (''taxable'', V_bool (co_taxable c)),
      (''media'', object_of
        [(''primary'', nullable_string (md_primary (co_media c))),
         (''additional'', plain_array (map V_string (md_additional (co_media c))))]),
      (''seo'', object_of
        [(''fileName'', nullable_string (se_file_name (co_seo c))),
         (''searchKeywords'', nullable_string (se_search_keywords (co_seo c))),
         (''googleProductCategory'', nullable_string (se_google_category (co_seo c)))]),
      (''productOnPages'', plain_array (map V_string (co_pages c)))]"

definition shopsite_value :: "shopsite_meta \<Rightarrow> js_value" where
  "shopsite_value s = object_of
     [(''productId'', nullable_string (sm_product_id s)), (''productGuid'', nullable_string (sm_product_guid s)),
      (''xmlVersion'', V_string (sm_xml_version s)), (''lastPulledAt'', nullable_string (sm_last_pulled_at s)),
      (''lastRemoteHash'', nullable_string (sm_last_remote_hash s)),
      (''lastSyncedAt'', nullable_string (sm_last_synced_at s)),
      (''source'', object_of
        [(''dbname'', V_string (ps_dbname (sm_source s))), (''uniqueName'', V_string (ps_unique_name (sm_source s)))]),
      (''preserved'', object_of
        [(''unknownElements'', plain_object (map (\<lambda>(k, v). (k, js_of_json v)) (pf_unknown (sm_preserved s)))),
         (''advancedBlocks'', text_record (pf_blocks (sm_preserved s))),
         (''rawAttributes'', text_record (pf_attributes (sm_preserved s)))])]"

definition provenance_value :: "image_provenance \<Rightarrow> js_value" where
  "provenance_value i = object_of
     ([(''localPath'', V_string (ip_local_path i)), (''sourceUrl'', V_string (ip_source_url i)),
       (''contentHash'', V_string (ip_content_hash i))] @
      (case ip_asset_id i of Some a \<Rightarrow> [(''assetId'', V_string a)] | None \<Rightarrow> []) @
      [(''rightsApprovalId'', V_string (ip_rights_approval i)),
       (''rightsAuthorityHash'', V_string (ip_rights_hash i))])"

definition metadata_value :: "product_metadata \<Rightarrow> js_value" where
  "metadata_value m = object_of
     ([(''createdAt'', V_string (pm_created_at m)), (''updatedAt'', V_string (pm_updated_at m)),
       (''archivedAt'', nullable_string (pm_archived_at m))] @
      (case pm_provenance m of
         Some is \<Rightarrow> [(''imageProvenance'', plain_array (map provenance_value is))] | None \<Rightarrow> []))"

definition product_value :: "product \<Rightarrow> js_value" where
  "product_value p = object_of
     [(''schemaVersion'', V_number (Int_num 1)), (''id'', V_string (pr_id p)), (''sku'', V_string (pr_sku p)),
      (''status'', V_string (status_text (pr_status p))), (''core'', core_value (pr_core p)),
      (''customFields'', text_record (pr_custom p)), (''shopsite'', shopsite_value (pr_shopsite p)),
      (''metadata'', metadata_value (pr_metadata p))]"

text \<open>Writing a product as deterministic JSON: it fails on a value outside the JSON domain.\<close>

definition stored_product :: "product \<Rightarrow> (json_error, product stored_json) result" where
  "stored_product p = map_sum id (\<lambda>_. Readable p) (canonicalize_json (product_value p))"

lemma stored_product_Inr: "stored_product p = Inr s \<Longrightarrow> s = Readable p"
  by (cases "canonicalize_json (product_value p)") (auto simp: stored_product_def)

section \<open>Workspace files and the repository\<close>

type_synonym product_files = "(code_units \<times> product stored_json) list"

record workspace_repo =
  wr_is_repo :: bool
  wr_head :: code_units
  wr_head_files :: product_files
  wr_staged :: product_files
  wr_files :: product_files

text \<open>
  The Git processes a workspace runs: whether the status output is non-empty, whether \<open>git add\<close>
  succeeds, and the hash a commit makes; \<^term>\<open>None\<close> is a failing process.
\<close>

record git_calls =
  gc_status :: "workspace_repo \<Rightarrow> bool option"
  gc_add :: "workspace_repo \<Rightarrow> bool"
  gc_commit :: "workspace_repo \<Rightarrow> code_units option"

definition write_product_file :: "product \<Rightarrow> workspace_repo \<Rightarrow> (json_error, workspace_repo) result" where
  "write_product_file p w =
     map_sum id (\<lambda>text. w\<lparr>wr_files := AList.update (sku_to_product_file_path (pr_sku p)) text (wr_files w)\<rparr>)
       (stored_product p)"

definition read_product_file :: "code_units \<Rightarrow> workspace_repo \<Rightarrow> product stored_json option" where
  "read_product_file sku w = map_of (wr_files w) (sku_to_product_file_path sku)"

definition read_file_at_head :: "code_units \<Rightarrow> workspace_repo \<Rightarrow> product stored_json option" where
  "read_file_at_head path w = (if wr_head w = [] then None else map_of (wr_head_files w) path)"

definition git_add :: "git_calls \<Rightarrow> code_units \<Rightarrow> workspace_repo \<Rightarrow> workspace_repo option" where
  "git_add g path w =
     (if gc_add g w
      then case map_of (wr_files w) path of
             Some text \<Rightarrow> Some (w\<lparr>wr_staged := AList.update path text (wr_staged w)\<rparr>)
           | None \<Rightarrow> None
      else None)"

text \<open>A commit records everything staged, not only the path added last; the latest content of a path comes first.\<close>

definition git_commit :: "git_calls \<Rightarrow> workspace_repo \<Rightarrow> workspace_repo option" where
  "git_commit g w =
     map_option (\<lambda>h. w\<lparr>wr_head := h, wr_head_files := wr_staged w @ wr_head_files w, wr_staged := []\<rparr>) (gc_commit g w)"

definition some_text :: "code_units \<Rightarrow> code_units option" where
  "some_text s = (if s = [] then None else Some s)"

section \<open>The catalog index\<close>

record index_row =
  ix_id :: code_units
  ix_sku :: code_units
  ix_file_path :: code_units
  ix_title :: code_units
  ix_status :: code_units
  ix_price :: "code_units option"
  ix_quantity :: "int option"
  ix_image :: "code_units option"
  ix_hash :: code_units
  ix_approved_commit :: "code_units option"
  ix_pulled_hash :: "code_units option"
  ix_synced_hash :: "code_units option"
  ix_synced_at :: "code_units option"
  ix_sync_status :: code_units
  ix_advanced :: nat
  ix_warnings :: nat
  ix_created_at :: code_units
  ix_updated_at :: code_units
  ix_description :: "code_units option"
  ix_keywords :: "code_units option"
  ix_custom :: "(code_units \<times> code_units) list"

type_synonym index_table = "index_row list"

text \<open>\<open>v ? String(v) : null\<close>.\<close>

definition blank_null :: "code_units option \<Rightarrow> code_units option" where
  "blank_null v = (if present v then v else None)"

definition read_index_row :: "index_row \<Rightarrow> index_row" where
  "read_index_row r =
     r\<lparr>ix_price := blank_null (ix_price r), ix_image := blank_null (ix_image r),
       ix_approved_commit := blank_null (ix_approved_commit r), ix_pulled_hash := blank_null (ix_pulled_hash r),
       ix_synced_hash := blank_null (ix_synced_hash r), ix_synced_at := blank_null (ix_synced_at r),
       ix_description := blank_null (ix_description r), ix_keywords := blank_null (ix_keywords r)\<rparr>"

definition find_product_by_sku :: "code_units \<Rightarrow> index_table \<Rightarrow> index_row option" where
  "find_product_by_sku sku rows = map_option read_index_row (find (\<lambda>r. ix_sku r = sku) rows)"

text \<open>The insertion; \<^term>\<open>None\<close> is a violated key (id, SKU or file path).\<close>

definition insert_product_index :: "index_row \<Rightarrow> index_table \<Rightarrow> index_table option" where
  "insert_product_index row rows =
     (if list_ex (\<lambda>r. ix_id r = ix_id row \<or> ix_sku r = ix_sku row \<or> ix_file_path r = ix_file_path row) rows
      then None else Some (rows @ [row]))"

text \<open>The columns an update gives; \<^term>\<open>None\<close> leaves a column as it is.\<close>

record index_patch =
  up_title :: "code_units option"
  up_status :: "code_units option"
  up_price :: "code_units option option"
  up_quantity :: "int option option"
  up_image :: "code_units option option"
  up_hash :: "code_units option"
  up_approved_commit :: "code_units option option"
  up_pulled_hash :: "code_units option option"
  up_synced_hash :: "code_units option option"
  up_synced_at :: "code_units option option"
  up_sync_status :: "code_units option"
  up_advanced :: "nat option"
  up_warnings :: "nat option"
  up_description :: "code_units option option"
  up_keywords :: "code_units option option"
  up_custom :: "(code_units \<times> code_units) list option"

definition no_patch :: index_patch where
  "no_patch = \<lparr>up_title = None, up_status = None, up_price = None, up_quantity = None, up_image = None,
     up_hash = None, up_approved_commit = None, up_pulled_hash = None, up_synced_hash = None, up_synced_at = None,
     up_sync_status = None, up_advanced = None, up_warnings = None, up_description = None, up_keywords = None,
     up_custom = None\<rparr>"

definition patch_row :: "index_patch \<Rightarrow> code_units \<Rightarrow> index_row \<Rightarrow> index_row" where
  "patch_row u now r =
     r\<lparr>ix_updated_at := now, ix_title := or_else (up_title u) (ix_title r), ix_status := or_else (up_status u) (ix_status r),
       ix_price := or_else (up_price u) (ix_price r), ix_quantity := or_else (up_quantity u) (ix_quantity r),
       ix_image := or_else (up_image u) (ix_image r), ix_hash := or_else (up_hash u) (ix_hash r),
       ix_approved_commit := or_else (up_approved_commit u) (ix_approved_commit r),
       ix_pulled_hash := or_else (up_pulled_hash u) (ix_pulled_hash r),
       ix_synced_hash := or_else (up_synced_hash u) (ix_synced_hash r),
       ix_synced_at := or_else (up_synced_at u) (ix_synced_at r),
       ix_sync_status := or_else (up_sync_status u) (ix_sync_status r),
       ix_advanced := or_else (up_advanced u) (ix_advanced r), ix_warnings := or_else (up_warnings u) (ix_warnings r),
       ix_description := or_else (up_description u) (ix_description r),
       ix_keywords := or_else (up_keywords u) (ix_keywords r), ix_custom := or_else (up_custom u) (ix_custom r)\<rparr>"

definition update_product_index :: "code_units \<Rightarrow> index_patch \<Rightarrow> code_units \<Rightarrow> index_table \<Rightarrow> index_table" where
  "update_product_index sku u now rows = map (\<lambda>r. if ix_sku r = sku then patch_row u now r else r) rows"

definition delete_product_index_by_sku :: "code_units \<Rightarrow> index_table \<Rightarrow> index_table" where
  "delete_product_index_by_sku sku rows = filter (\<lambda>r. ix_sku r \<noteq> sku) rows"

definition restore_product_index_snapshot :: "index_row option \<Rightarrow> code_units \<Rightarrow> index_table \<Rightarrow> index_table option" where
  "restore_product_index_snapshot row sku rows =
     (let rest = delete_product_index_by_sku sku rows
      in case row of None \<Rightarrow> Some rest | Some r \<Rightarrow> insert_product_index r rest)"

section \<open>Who owns a file name\<close>

definition owned_file_name :: "code_units option \<Rightarrow> code_units option" where
  "owned_file_name raw =
     (case raw of
        None \<Rightarrow> None
      | Some r \<Rightarrow>
          if trim_units r = [] then None
          else let trimmed = trim_units r;
                   name = (if ends_with (lower_units trimmed) file_name_extension then trimmed
                           else trimmed @ file_name_extension)
               in if lower_units name = file_name_extension then None else Some name)"

definition list_catalog_filename_owners :: "index_table \<Rightarrow> (code_units \<times> code_units) list" where
  "list_catalog_filename_owners rows =
     List.map_filter (\<lambda>r. map_option (\<lambda>n. (ix_sku r, n)) (owned_file_name (map_of (ix_custom r) file_name_tag)))
       (filter (\<lambda>r. ix_sku r \<noteq> []) rows)"

text \<open>The map from lowered name to owner: catalog first, then drafts; the first entry of a name counts.\<close>

definition filename_owners :: "index_table \<Rightarrow> (code_units \<times> product stored_json) list \<Rightarrow> (code_units \<times> code_units) list" where
  "filename_owners rows drafts =
     map (\<lambda>(sku, name). (lower_units name, sku)) (list_catalog_filename_owners rows) @
     List.map_filter (\<lambda>(sku, text). case text of
         Readable p \<Rightarrow> Some (lower_units (resolve_base_file_name p), sku) | Unreadable \<Rightarrow> None) drafts"

section \<open>Pages\<close>

record page_row =
  pg_id :: code_units
  pg_name :: code_units
  pg_identity_kind :: code_units
  pg_identity_key :: "code_units option"
  pg_identity_status :: code_units
  pg_availability :: code_units

definition get_page_by_name :: "page_row list \<Rightarrow> code_units \<Rightarrow> page_row option" where
  "get_page_by_name pages name = find (\<lambda>p. pg_name p = name) pages"

definition page_verified :: "page_row \<Rightarrow> bool" where
  "page_verified p \<longleftrightarrow> pg_identity_status p = units ''verified'' \<and> pg_availability p = units ''available''"

record page_import =
  pi_workspace :: code_units
  pi_status :: code_units
  pi_created_at :: code_units
  pi_source_hash :: code_units

definition get_active_page_import_hash :: "page_import list \<Rightarrow> code_units \<Rightarrow> code_units option" where
  "get_active_page_import_hash imports ws =
     (case rev (sort_key pi_created_at
         (filter (\<lambda>i. pi_workspace i = ws \<and> pi_status i = units ''active'') imports)) of
        i # _ \<Rightarrow> Some (pi_source_hash i) | [] \<Rightarrow> None)"

text \<open>\<open>replaceAll(old, new)\<close> with a pattern that is not empty.\<close>

function replace_all :: "code_units \<Rightarrow> code_units \<Rightarrow> code_units \<Rightarrow> code_units" where
  "replace_all old new [] = []"
| "replace_all old new (c # cs) =
     (if old \<noteq> [] \<and> starts_with (c # cs) old then new @ replace_all old new (drop (length old) (c # cs))
      else c # replace_all old new cs)"
  by pat_completeness auto
termination
  by (relation "measure (\<lambda>(old, new, s). length s)") auto

definition decode_xml_entities :: "code_units \<Rightarrow> code_units" where
  "decode_xml_entities s =
     replace_all (units ''&apos;'') [39] (replace_all (units ''&quot;'') [34]
       (replace_all (units ''&gt;'') [62] (replace_all (units ''&lt;'') [60] (replace_all (units ''&amp;'') [38] s))))"

function indexed_names :: "code_units \<Rightarrow> code_units list" where
  "indexed_names [] = []"
| "indexed_names (c # cs) =
     (case name_match (c # cs) of
        Some (name, rest) \<Rightarrow>
          let n = decode_xml_entities (trim_units name)
          in if n = [] then indexed_names rest else n # indexed_names rest
      | None \<Rightarrow> indexed_names cs)"
  by pat_completeness auto
termination
  by (relation "measure length") (auto dest!: name_match_shorter)

record page_join =
  pj_sku :: code_units
  pj_page :: code_units
  pj_page_id :: "code_units option"

definition preserved_page_names :: "product \<Rightarrow> code_units list" where
  "preserved_page_names p =
     first_occurrences
       ((case map_of (unknown_elements p) product_on_pages of
           Some v \<Rightarrow> if js_truthy v then indexed_names (js_text v) else []
         | None \<Rightarrow> []) @
        (case first_some [map_of (advanced_blocks p) product_on_pages,
                          map_of (advanced_blocks p) product_on_pages_lower] of
           Some b \<Rightarrow> indexed_names b
         | None \<Rightarrow> []))"

definition index_product_page_assignments :: "page_row list \<Rightarrow> product \<Rightarrow> page_join list \<Rightarrow> page_join list" where
  "index_product_page_assignments pages p joins =
     (let names = preserved_page_names p
      in if names = [] then joins
         else filter (\<lambda>j. pj_sku j \<noteq> pr_sku p) joins @
           map (\<lambda>n. \<lparr>pj_sku = pr_sku p, pj_page = n,
             pj_page_id = (case get_page_by_name pages n of
                Some pg \<Rightarrow> if page_verified pg then Some (pg_id pg) else None | None \<Rightarrow> None)\<rparr>) names)"

section \<open>Change sets\<close>

record change_set =
  cs_id :: code_units
  cs_workspace :: code_units
  cs_title :: code_units
  cs_description :: "code_units option"
  cs_status :: code_units
  cs_base_commit :: code_units
  cs_approved_commit :: "code_units option"
  cs_created_at :: code_units
  cs_updated_at :: code_units
  cs_approved_at :: "code_units option"

record change_set_item =
  ci_id :: code_units
  ci_change_set :: code_units
  ci_sku :: code_units
  ci_operation :: code_units
  ci_draft :: "product stored_json"
  ci_base :: "product stored_json option"
  ci_draft_hash :: code_units
  ci_validation :: code_units
  ci_run :: "code_units option"
  ci_created_at :: code_units
  ci_updated_at :: code_units

definition create_change_set ::
    "code_units \<Rightarrow> code_units \<Rightarrow> code_units option \<Rightarrow> code_units \<Rightarrow> code_units \<Rightarrow> code_units \<Rightarrow>
     change_set list \<Rightarrow> change_set list" where
  "create_change_set ws title description base_commit i now sets =
     sets @ [\<lparr>cs_id = i, cs_workspace = ws, cs_title = title, cs_description = description, cs_status = units ''draft'',
       cs_base_commit = base_commit, cs_approved_commit = None, cs_created_at = now, cs_updated_at = now,
       cs_approved_at = None\<rparr>]"

definition find_change_set_by_id :: "code_units \<Rightarrow> change_set list \<Rightarrow> change_set option" where
  "find_change_set_by_id i sets = find (\<lambda>s. cs_id s = i) sets"

definition find_change_set_by_workspace_id :: "code_units \<Rightarrow> code_units \<Rightarrow> change_set list \<Rightarrow> change_set option" where
  "find_change_set_by_workspace_id ws i sets = find (\<lambda>s. cs_workspace s = ws \<and> cs_id s = i) sets"

definition update_change_set_status ::
    "code_units \<Rightarrow> code_units \<Rightarrow> code_units option \<Rightarrow> code_units \<Rightarrow> change_set list \<Rightarrow> change_set list" where
  "update_change_set_status i status approved now sets =
     map (\<lambda>s. if cs_id s \<noteq> i then s
       else if present approved
         then s\<lparr>cs_status := status, cs_updated_at := now, cs_approved_commit := approved, cs_approved_at := Some now\<rparr>
         else s\<lparr>cs_status := status, cs_updated_at := now\<rparr>) sets"

text \<open>
  The item upsert, on the pair of change set and SKU. \<open>run\<close> is the classification run given: absent,
  null or a run; an onboarding run already bound survives a null.
\<close>

definition bound_run :: "(code_units \<Rightarrow> bool) \<Rightarrow> code_units option option \<Rightarrow> code_units option \<Rightarrow> code_units option" where
  "bound_run onboarding_run run old =
     (case run of
        None \<Rightarrow> old
      | Some None \<Rightarrow> (case old of Some r \<Rightarrow> if onboarding_run r then old else None | None \<Rightarrow> None)
      | Some (Some r) \<Rightarrow> Some r)"

definition upsert_change_set_item ::
    "(code_units \<Rightarrow> bool) \<Rightarrow> code_units option option \<Rightarrow> change_set_item \<Rightarrow> change_set_item list \<Rightarrow> change_set_item list" where
  "upsert_change_set_item onboarding_run run x items =
     (let same = (\<lambda>y. ci_change_set y = ci_change_set x \<and> ci_sku y = ci_sku x)
      in if list_ex same items
         then map (\<lambda>y. if same y
           then y\<lparr>ci_operation := ci_operation x, ci_draft := ci_draft x,
             ci_base := (if ci_base x = None then ci_base y else ci_base x), ci_draft_hash := ci_draft_hash x,
             ci_validation := units ''unknown'', ci_run := bound_run onboarding_run run (ci_run y),
             ci_updated_at := ci_updated_at x\<rparr> else y) items
         else items @ [x\<lparr>ci_validation := units ''unknown'', ci_run := bound_run onboarding_run run None\<rparr>])"

definition list_change_set_items :: "code_units \<Rightarrow> change_set_item list \<Rightarrow> change_set_item list" where
  "list_change_set_items cs items = sort_key ci_sku (filter (\<lambda>x. ci_change_set x = cs) items)"

definition list_non_discarded_drafts ::
    "code_units \<Rightarrow> change_set list \<Rightarrow> change_set_item list \<Rightarrow> (code_units \<times> product stored_json) list" where
  "list_non_discarded_drafts ws sets items =
     map (\<lambda>x. (ci_sku x, ci_draft x))
       (sort_key ci_sku (filter (\<lambda>x. list_ex (\<lambda>s. cs_id s = ci_change_set x \<and> cs_workspace s = ws \<and>
          cs_status s \<noteq> units ''discarded'') sets) items))"

end
