(* ===== verification/DriftDetect.thy ===== *)
theory DriftDetect
  imports ProductStore
begin

text \<open>
  Drift detection (\<open>detectDrift\<close> of \<open>src/src/shopsite/drift.ts\<close>): every product of the remote store
  is compared with the approved baseline, and the difference is kept as one outstanding finding. The
  decoded remote products are an argument, as are fresh identifiers and times, one of each for a
  product. The state the services share is one record.
\<close>

section \<open>The state\<close>

record audit_entry =
  au_entity :: code_units
  au_entity_id :: code_units
  au_action :: code_units
  au_sku :: code_units
  au_field :: "code_units option"
  au_decision :: code_units
  au_commit :: "code_units option"
  au_change_set :: "code_units option"
  au_actor :: code_units
  au_at :: code_units

record drift_world =
  dw_rows :: drift_table
  dw_acks :: "ack_row list"
  dw_index :: index_table
  dw_repo :: workspace_repo
  dw_pages :: "page_row list"
  dw_imports :: "page_import list"
  dw_joins :: "page_join list"
  dw_sets :: "change_set list"
  dw_items :: "change_set_item list"
  dw_audit :: "audit_entry list"

section \<open>The context of a check\<close>

record detect_context =
  dx_workspace :: code_units
  dx_env :: js_env
  dx_controlled :: controlled_fields
  dx_resolver :: "code_units \<Rightarrow> code_units option"
  dx_commit :: "code_units option"
  dx_dirty :: bool
  dx_source :: baseline_source
  dx_context :: comparison_context

definition default_resolver :: "page_row list \<Rightarrow> code_units \<Rightarrow> code_units option" where
  "default_resolver pages name =
     (case get_page_by_name pages name of
        Some pg \<Rightarrow>
          if page_verified pg \<and> present (pg_identity_key pg)
          then Some (pg_identity_kind pg @ [58] @ or_else (pg_identity_key pg) []) else None
      | None \<Rightarrow> None)"

text \<open>\<open>page_hash\<close>: the option given by the caller; absent, the active import's hash is read.\<close>

definition open_check ::
    "git_calls \<Rightarrow> js_env \<Rightarrow> controlled_fields \<Rightarrow> (code_units \<Rightarrow> code_units option) option \<Rightarrow>
     code_units option option \<Rightarrow> code_units \<Rightarrow> drift_world \<Rightarrow> detect_context" where
  "open_check g env controlled resolver page_hash ws w =
     (let repo = dw_repo w;
          commit = (if wr_is_repo repo then some_text (wr_head repo) else None)
      in \<lparr>dx_workspace = ws, dx_env = env, dx_controlled = controlled,
          dx_resolver = or_else resolver (default_resolver (dw_pages w)), dx_commit = commit,
          dx_dirty = (wr_is_repo repo \<and> gc_status g repo = Some True),
          dx_source = (if commit = None then From_working_tree else From_head),
          dx_context = build_comparison_context
            (or_else page_hash (get_active_page_import_hash (dw_imports w) ws))\<rparr>)"

definition readable :: "product stored_json option \<Rightarrow> product option" where
  "readable s = (case s of Some (Readable p) \<Rightarrow> Some p | _ \<Rightarrow> None)"

definition read_pinned_baseline :: "baseline_source \<Rightarrow> code_units \<Rightarrow> workspace_repo \<Rightarrow> product option" where
  "read_pinned_baseline source sku repo =
     readable (if source = From_head then read_file_at_head (sku_to_product_file_path sku) repo
               else read_product_file sku repo)"

definition check_projection :: "detect_context \<Rightarrow> product \<Rightarrow> comparison_projection" where
  "check_projection x p = build_comparison_projection (dx_env x) (dx_controlled x) (dx_resolver x) p"

section \<open>The finding written\<close>

definition hunk_value :: "field_hunk \<Rightarrow> js_value" where
  "hunk_value h = object_of
     [(''field'', V_string (fh_field h)), (''baselineValue'', nullable_string (fh_baseline h)),
      (''remoteValue'', nullable_string (fh_remote h))]"

fun source_text :: "baseline_source \<Rightarrow> code_units" where
  "source_text From_head = units ''head''"
| "source_text From_working_tree = units ''working-tree''"

definition context_value :: "comparison_context \<Rightarrow> js_value" where
  "context_value c = object_of
     [(''projectionVersion'', V_string (cx_projection_version c)),
      (''builtInPolicyVersion'', V_string (cx_built_in_policy c)),
      (''fieldCatalogVersion'', V_string (cx_field_catalog c)),
      (''pageImportHash'', nullable_string (cx_page_import_hash c))]"

definition diff_record :: "detect_context \<Rightarrow> product option \<Rightarrow> code_units \<Rightarrow> field_hunk list \<Rightarrow> js_value" where
  "diff_record x baseline sku hunks = object_of
     [(''localSku'', nullable_string (map_option pr_sku baseline)), (''remoteSku'', V_string sku),
      (''hasLocalProduct'', V_bool (baseline \<noteq> None)), (''hasRemoteChanges'', V_bool True),
      (''hunks'', plain_array (map hunk_value hunks)), (''baselineCommit'', nullable_string (dx_commit x)),
      (''baselineSource'', V_string (source_text (dx_source x))), (''baselineDirty'', V_bool (dx_dirty x)),
      (''projectionVersion'', V_string catalog_comparison_projection_version),
      (''context'', context_value (dx_context x))]"

text \<open>The key of a hunk's acknowledgement in a context.\<close>

definition hunk_ack_key ::
    "code_units \<Rightarrow> code_units \<Rightarrow> field_hunk \<Rightarrow> code_units \<Rightarrow> code_units option \<Rightarrow> comparison_context \<Rightarrow> ack_key" where
  "hunk_ack_key ws sku h remote_hash commit c =
     \<lparr>ak_workspace = ws, ak_sku = sku, ak_field = fh_field h, ak_baseline = or_else (fh_baseline h) [],
      ak_remote = or_else (fh_remote h) [], ak_remote_hash = remote_hash, ak_baseline_commit = or_else commit [],
      ak_projection = cx_projection_version c, ak_built_in = cx_built_in_policy c,
      ak_field_catalog = cx_field_catalog c, ak_page_hash = or_else (cx_page_import_hash c) []\<rparr>"

definition visible_hunks :: "detect_context \<Rightarrow> code_units \<Rightarrow> code_units \<Rightarrow> ack_row list \<Rightarrow> field_hunk list \<Rightarrow> field_hunk list" where
  "visible_hunks x sku remote_hash acks hunks =
     filter (\<lambda>h. find_hunk_ack
       (hunk_ack_key (dx_workspace x) sku h remote_hash (dx_commit x) (dx_context x)) acks = None) hunks"

section \<open>One product\<close>

datatype detect_error = Decode_failed | Json_failed json_error | Constraint_failed

text \<open>The hashes of the baseline, when there is one, and of the remote.\<close>

definition observed_hashes ::
    "detect_context \<Rightarrow> product option \<Rightarrow> product \<Rightarrow> (json_error, code_units option \<times> code_units) result" where
  "observed_hashes x baseline remote =
     bind_res (case baseline of
         None \<Rightarrow> Inr None
       | Some b \<Rightarrow> map_sum id (Some \<circ> units) (hash_comparison_projection (check_projection x b))) (\<lambda>local_hash.
       bind_res (hash_comparison_projection (check_projection x remote)) (\<lambda>remote_hash.
         Inr (local_hash, units remote_hash)))"

definition finding_input ::
    "detect_context \<Rightarrow> product option \<Rightarrow> product \<Rightarrow> code_units option \<Rightarrow> code_units \<Rightarrow> field_hunk list \<Rightarrow>
     (json_error, drift_input) result" where
  "finding_input x baseline remote local_hash remote_hash hunks =
     bind_res (case baseline of None \<Rightarrow> Inr None | Some b \<Rightarrow> map_sum id Some (stored_product b)) (\<lambda>local_json.
     bind_res (stored_product remote) (\<lambda>remote_json.
     bind_res (canonicalize_json (diff_record x baseline (pr_sku remote) hunks)) (\<lambda>diff.
       Inr \<lparr>di_workspace = dx_workspace x, di_sku = pr_sku remote, di_local_hash = local_hash,
         di_remote_hash = remote_hash, di_local_json = local_json, di_remote_json = remote_json,
         di_diff_json = Some (Readable diff)\<rparr>)))"

text \<open>A difference: the hunks not acknowledged become the finding, or the open finding is cleared.\<close>

definition record_difference ::
    "detect_context \<Rightarrow> bool \<Rightarrow> code_units \<Rightarrow> code_units \<Rightarrow> product option \<Rightarrow> product \<Rightarrow> code_units option \<Rightarrow> code_units \<Rightarrow>
     drift_world \<Rightarrow> (detect_error, drift_row option) result \<times> drift_world" where
  "record_difference x indexed i now baseline remote local_hash remote_hash w =
     (let sku = pr_sku remote;
          all_hunks = diff_comparison_projections (dx_env x) (map_option (check_projection x) baseline)
            (check_projection x remote);
          visible = visible_hunks x sku remote_hash (dw_acks w) all_hunks
      in if visible = []
         then (Inr None, if all_hunks \<noteq> []
           then w\<lparr>dw_rows := clear_matched_open_drift (dx_workspace x) sku (dw_rows w)\<rparr> else w)
         else case finding_input x baseline remote local_hash remote_hash visible of
           Inl e \<Rightarrow> (Inl (Json_failed e), w)
         | Inr input \<Rightarrow>
             (case upsert_drift indexed True id id input i now (dw_rows w) of
                (None, rows) \<Rightarrow> (Inl Constraint_failed, w\<lparr>dw_rows := rows\<rparr>)
              | (Some (Noop r), rows) \<Rightarrow> (Inr None, w\<lparr>dw_rows := rows\<rparr>)
              | (Some (Inserted j), rows) \<Rightarrow> (Inr (find_drift_by_id j rows), w\<lparr>dw_rows := rows\<rparr>)
              | (Some (Updated j), rows) \<Rightarrow> (Inr (find_drift_by_id j rows), w\<lparr>dw_rows := rows\<rparr>)))"

definition observation_patch :: "code_units \<Rightarrow> bool \<Rightarrow> bool \<Rightarrow> index_row \<Rightarrow> code_units \<Rightarrow> index_patch" where
  "observation_patch remote_hash synced unmoved row now =
     no_patch\<lparr>up_pulled_hash := Some (Some remote_hash),
       up_sync_status := Some (if synced then units ''synced'' else if unmoved then units ''not_synced''
                               else units ''drifted''),
       up_synced_hash := Some (if synced then Some remote_hash else ix_synced_hash row),
       up_synced_at := Some (if synced then Some now else ix_synced_at row)\<rparr>"

definition detect_product ::
    "detect_context \<Rightarrow> bool \<Rightarrow> code_units \<Rightarrow> code_units \<Rightarrow> product \<Rightarrow> drift_world \<Rightarrow>
     (detect_error, drift_row option) result \<times> drift_world" where
  "detect_product x indexed i now remote w =
     (let sku = pr_sku remote; baseline = read_pinned_baseline (dx_source x) sku (dw_repo w)
      in case observed_hashes x baseline remote of
           Inl e \<Rightarrow> (Inl (Json_failed e), w)
         | Inr (local_hash, remote_hash) \<Rightarrow>
             let row = find_product_by_sku sku (dw_index w);
                 synced = (local_hash = Some remote_hash);
                 unmoved = (\<exists>r \<in> set_option row. ix_synced_hash r = Some remote_hash);
                 (outcome, w') =
                   (if synced then (Inr None, w\<lparr>dw_rows := clear_matched_open_drift (dx_workspace x) sku (dw_rows w)\<rparr>)
                    else if unmoved then (Inr None, w)
                    else record_difference x indexed i now baseline remote local_hash remote_hash w)
             in case (outcome, row) of
                  (Inr d, Some r) \<Rightarrow>
                    (Inr d, w'\<lparr>dw_index := update_product_index sku
                       (observation_patch remote_hash synced unmoved r now) now (dw_index w')\<rparr>)
                | _ \<Rightarrow> (outcome, w'))"

section \<open>The check\<close>

text \<open>The loop stops at the first error; what it has written stays.\<close>

fun detect_loop ::
    "detect_context \<Rightarrow> bool \<Rightarrow> (nat \<Rightarrow> code_units) \<Rightarrow> (nat \<Rightarrow> code_units) \<Rightarrow> nat \<Rightarrow> product list \<Rightarrow> drift_row list \<Rightarrow>
     drift_world \<Rightarrow> detect_error option \<times> drift_row list \<times> drift_world" where
  "detect_loop x indexed fresh clock n [] drifts w = (None, drifts, w)"
| "detect_loop x indexed fresh clock n (remote # remotes) drifts w =
     (if pr_sku remote = [] then detect_loop x indexed fresh clock (Suc n) remotes drifts w
      else case detect_product x indexed (fresh n) (clock n) remote w of
             (Inl e, w') \<Rightarrow> (Some e, drifts, w')
           | (Inr d, w') \<Rightarrow>
               detect_loop x indexed fresh clock (Suc n) remotes
                 (drifts @ (case d of Some r \<Rightarrow> [r] | None \<Rightarrow> [])) w')"

record detection_result =
  dt_count :: nat
  dt_drifts :: "drift_row list"
  dt_errors :: "detect_error list"
  dt_commit :: "code_units option"
  dt_dirty :: bool
  dt_source :: baseline_source
  dt_version :: code_units
  dt_context :: comparison_context

definition detect_drift ::
    "detect_context \<Rightarrow> bool \<Rightarrow> (nat \<Rightarrow> code_units) \<Rightarrow> (nat \<Rightarrow> code_units) \<Rightarrow> product list option \<Rightarrow> drift_world \<Rightarrow>
     detection_result \<times> drift_world" where
  "detect_drift x indexed fresh clock decoded w =
     (let (failure, drifts, w') =
        (case decoded of None \<Rightarrow> (Some Decode_failed, [], w)
         | Some remotes \<Rightarrow> detect_loop x indexed fresh clock 0 remotes [] w)
      in (\<lparr>dt_count = (if failure = None then length drifts else 0), dt_drifts = drifts,
           dt_errors = (case failure of None \<Rightarrow> [] | Some e \<Rightarrow> [e]), dt_commit = dx_commit x, dt_dirty = dx_dirty x,
           dt_source = dx_source x, dt_version = catalog_comparison_projection_version, dt_context = dx_context x\<rparr>, w'))"


section \<open>Reading the finding back\<close>

lemma hunk_round_trip: "json_of (hunk_value h) = Some c \<Longrightarrow> hunk_of_json c = Some h"
proof -
  assume "json_of (hunk_value h) = Some c"
  then have member: "(k, v) \<in> set [(''field'', V_string (fh_field h)), (''baselineValue'', nullable_string (fh_baseline h)),
      (''remoteValue'', nullable_string (fh_remote h))] \<Longrightarrow>
      \<exists>w. json_of v = Some w \<and> jget (units k) (Some c) = Some w" for k v
    unfolding hunk_value_def by (rule object_member) simp_all
  obtain f where "json_of (V_string (fh_field h)) = Some f" "jget (units ''field'') (Some c) = Some f"
    using member [of "''field''"] by auto
  moreover obtain b where "json_of (nullable_string (fh_baseline h)) = Some b"
      "jget (units ''baselineValue'') (Some c) = Some b"
    using member [of "''baselineValue''"] by auto
  moreover obtain r where "json_of (nullable_string (fh_remote h)) = Some r"
      "jget (units ''remoteValue'') (Some c) = Some r"
    using member [of "''remoteValue''"] by auto
  ultimately show ?thesis
    using json_of_string [of "fh_field h" f] json_of_nullable [of "fh_baseline h" b] json_of_nullable [of "fh_remote h" r]
    by (auto simp: hunk_of_json_def hunk_def)
qed

text \<open>The recorded context, compared with the current one property by property.\<close>

definition stale_context :: "canonical_json \<Rightarrow> comparison_context \<Rightarrow> bool" where
  "stale_context recorded current \<longleftrightarrow>
     js_truthy recorded \<and>
     (jget (units ''projectionVersion'') (Some recorded) \<noteq> Some (C_string (cx_projection_version current)) \<or>
      jget (units ''builtInPolicyVersion'') (Some recorded) \<noteq> Some (C_string (cx_built_in_policy current)) \<or>
      jget (units ''fieldCatalogVersion'') (Some recorded) \<noteq> Some (C_string (cx_field_catalog current)) \<or>
      or_else (jget (units ''pageImportHash'') (Some recorded)) C_null \<noteq>
        (case cx_page_import_hash current of Some s \<Rightarrow> C_string s | None \<Rightarrow> C_null))"

lemma stored_nullable: "json_of (nullable_string v) = Some c \<Longrightarrow> c = (case v of Some s \<Rightarrow> C_string s | None \<Rightarrow> C_null)"
  using json_of_nullable [of v c] by (cases c; cases v) (auto simp: jstring_def)

lemma context_round_trip:
  assumes "json_of (context_value x) = Some c"
  shows "jstring (jget (units ''builtInPolicyVersion'') (Some c)) = Some (cx_built_in_policy x)"
    and "jstring (jget (units ''fieldCatalogVersion'') (Some c)) = Some (cx_field_catalog x)"
    and "jstring (jget (units ''pageImportHash'') (Some c)) = cx_page_import_hash x"
    and "stale_context c current \<longleftrightarrow> x \<noteq> current"
proof -
  have member: "(k, v) \<in> set [(''projectionVersion'', V_string (cx_projection_version x)),
      (''builtInPolicyVersion'', V_string (cx_built_in_policy x)),
      (''fieldCatalogVersion'', V_string (cx_field_catalog x)),
      (''pageImportHash'', nullable_string (cx_page_import_hash x))] \<Longrightarrow>
      \<exists>w. json_of v = Some w \<and> jget (units k) (Some c) = Some w" for k v
    using assms unfolding context_value_def by (rule object_member) simp_all
  have v: "jget (units ''projectionVersion'') (Some c) = Some (C_string (cx_projection_version x))"
    using member [of "''projectionVersion''"] json_of_string by force
  have b: "jget (units ''builtInPolicyVersion'') (Some c) = Some (C_string (cx_built_in_policy x))"
    using member [of "''builtInPolicyVersion''"] json_of_string by force
  have f: "jget (units ''fieldCatalogVersion'') (Some c) = Some (C_string (cx_field_catalog x))"
    using member [of "''fieldCatalogVersion''"] json_of_string by force
  have h: "jget (units ''pageImportHash'') (Some c) =
      Some (case cx_page_import_hash x of Some s \<Rightarrow> C_string s | None \<Rightarrow> C_null)"
    using member [of "''pageImportHash''"] stored_nullable by force
  show "jstring (jget (units ''builtInPolicyVersion'') (Some c)) = Some (cx_built_in_policy x)"
    and "jstring (jget (units ''fieldCatalogVersion'') (Some c)) = Some (cx_field_catalog x)"
    and "jstring (jget (units ''pageImportHash'') (Some c)) = cx_page_import_hash x"
    by (simp_all add: b f h jstring_def split: option.split)
  have "js_truthy c" using v by (cases c) (simp_all add: jget_def)
  then show "stale_context c current \<longleftrightarrow> x \<noteq> current"
    by (cases x; cases current)
      (auto simp: stale_context_def v b f h or_else_def split: option.splits)
qed

lemma diff_record_round_trip:
  assumes "json_of (diff_record x baseline sku hunks) = Some c"
  shows "\<exists>ctx. json_of (context_value (dx_context x)) = Some ctx \<and>
    parse_drift_diff (d\<lparr>dr_diff_json := Some (Readable c)\<rparr>) = Some
      \<lparr>pd_hunks = hunks, pd_baseline_commit = dx_commit x, pd_baseline_source = dx_source x,
       pd_baseline_dirty = dx_dirty x, pd_projection_version = catalog_comparison_projection_version,
       pd_has_local = (baseline \<noteq> None \<and> dr_local_json d \<noteq> None), pd_context = ctx, pd_raw = c\<rparr>"
proof -
  have member: "(k, v) \<in> set
     [(''localSku'', nullable_string (map_option pr_sku baseline)), (''remoteSku'', V_string sku),
      (''hasLocalProduct'', V_bool (baseline \<noteq> None)), (''hasRemoteChanges'', V_bool True),
      (''hunks'', plain_array (map hunk_value hunks)), (''baselineCommit'', nullable_string (dx_commit x)),
      (''baselineSource'', V_string (source_text (dx_source x))), (''baselineDirty'', V_bool (dx_dirty x)),
      (''projectionVersion'', V_string catalog_comparison_projection_version),
      (''context'', context_value (dx_context x))] \<Longrightarrow>
      \<exists>w. json_of v = Some w \<and> jget (units k) (Some c) = Some w" for k v
    using assms unfolding diff_record_def by (rule object_member) simp_all
  obtain hs where hs: "json_of (plain_array (map hunk_value hunks)) = Some hs" "jget (units ''hunks'') (Some c) = Some hs"
    using member [of "''hunks''"] by auto
  then have "hs = C_array (map (\<lambda>h. the (json_of (hunk_value h))) hunks)"
    and "h \<in> set hunks \<Longrightarrow> json_of (hunk_value h) \<noteq> None" for h
    using array_elements [OF hs(1)] by (auto simp: o_def)
  moreover have "List.map_filter hunk_of_json (map (\<lambda>h. the (json_of (hunk_value h))) hs') = hs'"
    if "\<And>h. h \<in> set hs' \<Longrightarrow> json_of (hunk_value h) \<noteq> None" for hs'
    using that
  proof (induction hs')
    case (Cons h hs')
    from Cons.prems [of h] obtain c where c: "json_of (hunk_value h) = Some c" by auto
    then show ?case using Cons.IH Cons.prems hunk_round_trip [OF c] by (simp add: List.map_filter_simps)
  qed (simp add: List.map_filter_simps)
  ultimately have hunks: "(case jget (units ''hunks'') (Some c) of Some (C_array hs) \<Rightarrow> List.map_filter hunk_of_json hs | _ \<Rightarrow> []) = hunks"
    using hs(2) by simp
  have commit: "jstring (jget (units ''baselineCommit'') (Some c)) = dx_commit x"
    using member [of "''baselineCommit''"] json_of_nullable by fastforce
  have source: "jget (units ''baselineSource'') (Some c) = Some (C_string (source_text (dx_source x)))"
    using member [of "''baselineSource''"] json_of_string by force
  have dirty: "jget (units ''baselineDirty'') (Some c) = Some (C_bool (dx_dirty x))"
    and local: "jget (units ''hasLocalProduct'') (Some c) = Some (C_bool (baseline \<noteq> None))"
    using member [of "''baselineDirty''"] member [of "''hasLocalProduct''"] by auto
  have version: "jget (units ''projectionVersion'') (Some c) = Some (C_string catalog_comparison_projection_version)"
    using member [of "''projectionVersion''"] json_of_string by force
  obtain ctx where ctx: "json_of (context_value (dx_context x)) = Some ctx" "jget (units ''context'') (Some c) = Some ctx"
    using member [of "''context''"] by auto
  have "c \<noteq> C_null" using version by (auto simp: jget_def)
  then have "raw_diff (d\<lparr>dr_diff_json := Some (Readable c)\<rparr>) = Some c"
    by (cases c) (simp_all add: raw_diff_def)
  moreover have "(source_text (dx_source x) = units ''working-tree'') = (dx_source x = From_working_tree)"
    by (cases "dx_source x") simp_all
  ultimately show ?thesis
    using ctx hunks commit
    by (cases "dx_source x") (simp_all add: parse_drift_diff_def Let_def source dirty local version or_else_def jstring_def)
qed
end
