(* ===== verification/DriftResolve.thy ===== *)
theory DriftResolve
  imports DriftDetect
begin

text \<open>
  Resolution of drift findings: one hunk at a time (\<open>src/src/shopsite/drift-hunk-service.ts\<close>), by a
  change set for manual merge (\<open>src/src/shopsite/drift-reconcile-service.ts\<close>) and for a whole product
  (\<open>acceptRemoteForDrift\<close> of \<open>src/src/shopsite/drift.ts\<close>, with the route that calls it). A refusal keeps
  the state the operation had reached when it was thrown. Values of the stored diff that are not
  text where text is written read as absent.
\<close>

section \<open>Refusals\<close>

datatype drift_refusal =
    Invalid_decision | Missing_field | Drift_not_found | Not_outstanding | Unreadable_diff
  | No_hunk | No_hunk_with_values | Ambiguous_hunk | Hunk_held hunk_held_reason | Unsupported_field
  | Stale_remote | Stale_recorded_baseline | Stale_head | Stale_context
  | Unreadable_baseline | Unreadable_remote | Not_in_catalog | Merge_failed
  | Filename_collision code_units code_units | Not_converged | Sku_is_identity | Not_linked
  | Bad_json json_error | Git_failed | Index_conflict | Missing_sku | Price_differs

text \<open>The HTTP status attached to the error, where the service attaches one.\<close>

fun refusal_status :: "drift_refusal \<Rightarrow> nat option" where
  "refusal_status Invalid_decision = Some 400"
| "refusal_status Missing_field = Some 400"
| "refusal_status Drift_not_found = Some 404"
| "refusal_status Not_outstanding = Some 400"
| "refusal_status No_hunk = Some 404"
| "refusal_status No_hunk_with_values = Some 404"
| "refusal_status Ambiguous_hunk = Some 400"
| "refusal_status (Hunk_held r) = Some 409"
| "refusal_status Unsupported_field = Some 400"
| "refusal_status Stale_remote = Some 409"
| "refusal_status Stale_recorded_baseline = Some 409"
| "refusal_status Stale_head = Some 409"
| "refusal_status Stale_context = Some 409"
| "refusal_status Unreadable_baseline = Some 400"
| "refusal_status Unreadable_remote = Some 400"
| "refusal_status Not_in_catalog = Some 409"
| "refusal_status (Filename_collision n s) = Some 409"
| "refusal_status Not_converged = Some 500"
| "refusal_status Sku_is_identity = Some 400"
| "refusal_status Not_linked = Some 409"
| "refusal_status _ = None"

section \<open>Fields linked to a change set\<close>

text \<open>The services project products without a page resolver and without controlled values.\<close>

definition plain_projection :: "js_env \<Rightarrow> product \<Rightarrow> comparison_projection" where
  "plain_projection env p = build_comparison_projection env [] (\<lambda>_. None) p"

definition item_fields :: "js_env \<Rightarrow> change_set_item \<Rightarrow> code_units list option" where
  "item_fields env x =
     (case (ci_base x, ci_draft x) of
        (Some Unreadable, _) \<Rightarrow> None
      | (_, Unreadable) \<Rightarrow> None
      | (base, Readable draft) \<Rightarrow>
          Some (map fh_field (diff_comparison_projections env
            (map_option (plain_projection env) (readable base)) (plain_projection env draft))))"

definition reconciled_fields :: "js_env \<Rightarrow> change_set_item list \<Rightarrow> drift_row \<Rightarrow> code_units list option" where
  "reconciled_fields env items d =
     (if dr_status d \<noteq> In_reconcile then Some []
      else if \<not> present (dr_change_set d) then None
      else let own = list_change_set_items (or_else (dr_change_set d) []) items
           in if own = [] \<or> list_ex (\<lambda>x. item_fields env x = None) own then None
              else Some (concat (List.map_filter (item_fields env) own)))"

section \<open>The guards of a hunk\<close>

datatype hunk_decision = Accept_hunk | Reject_hunk

record resolve_input =
  ri_drift :: code_units
  ri_field :: code_units
  ri_decision :: code_units
  ri_baseline :: "code_units option option"
  ri_remote :: "code_units option option"
  ri_expected_remote :: "code_units option"
  ri_expected_commit :: "code_units option"
  ri_actor :: "code_units option"

definition text_of :: "code_units option \<Rightarrow> code_units" where
  "text_of v = or_else v []"

definition choose_hunk :: "resolve_input \<Rightarrow> field_hunk list \<Rightarrow> (drift_refusal, nat \<times> field_hunk) result" where
  "choose_hunk input hunks =
     (let candidates = filter (\<lambda>(i, h). fh_field h = ri_field input) (enumerate 0 hunks)
      in if candidates = [] then Inl No_hunk
         else if ri_baseline input \<noteq> None \<or> ri_remote input \<noteq> None
         then (case find (\<lambda>(i, h). text_of (fh_baseline h) = text_of (or_else (ri_baseline input) None) \<and>
                 text_of (fh_remote h) = text_of (or_else (ri_remote input) None)) candidates of
                 Some c \<Rightarrow> Inr c | None \<Rightarrow> Inl No_hunk_with_values)
         else if length candidates > 1 then Inl Ambiguous_hunk
         else Inr (hd candidates))"

definition head_moved :: "workspace_repo \<Rightarrow> code_units option \<Rightarrow> bool" where
  "head_moved repo recorded \<longleftrightarrow>
     wr_is_repo repo \<and> present recorded \<and> wr_head repo \<noteq> [] \<and> Some (wr_head repo) \<noteq> recorded"

definition current_context :: "code_units \<Rightarrow> drift_world \<Rightarrow> comparison_context" where
  "current_context ws w = build_comparison_context (get_active_page_import_hash (dw_imports w) ws)"

record hunk_case =
  hc_decision :: hunk_decision
  hc_drift :: drift_row
  hc_parsed :: parsed_drift_diff
  hc_index :: nat
  hc_hunk :: field_hunk

definition parse_decision :: "code_units \<Rightarrow> (drift_refusal, hunk_decision) result" where
  "parse_decision s =
     (if s = units ''accept'' then Inr Accept_hunk
      else if s = units ''reject'' then Inr Reject_hunk else Inl Invalid_decision)"

text \<open>The finding, when it is the workspace's and outstanding.\<close>

definition outstanding_finding :: "code_units \<Rightarrow> code_units \<Rightarrow> drift_table \<Rightarrow> (drift_refusal, drift_row) result" where
  "outstanding_finding ws i rows =
     (case find_drift_by_id i rows of
        None \<Rightarrow> Inl Drift_not_found
      | Some d \<Rightarrow>
          if dr_workspace d \<noteq> ws then Inl Drift_not_found
          else if \<not> is_outstanding d then Inl Not_outstanding else Inr d)"

definition hold_refusal :: "hunk_decision \<Rightarrow> hunk_held_reason option \<Rightarrow> (drift_refusal, unit) result" where
  "hold_refusal decision held =
     (case held of
        None \<Rightarrow> Inr ()
      | Some r \<Rightarrow> guard_res (r = Unavailable_assignment \<and> decision = Reject_hunk) (Hunk_held r))"

definition freshness_refusal ::
    "code_units \<Rightarrow> resolve_input \<Rightarrow> drift_row \<Rightarrow> parsed_drift_diff \<Rightarrow> drift_world \<Rightarrow> (drift_refusal, unit) result" where
  "freshness_refusal ws input d parsed w =
     bind_res (guard_res (ri_expected_remote input \<in> {None, Some (dr_remote_hash d)}) Stale_remote) (\<lambda>_.
     bind_res (guard_res (ri_expected_commit input = None \<or> ri_expected_commit input = pd_baseline_commit parsed)
       Stale_recorded_baseline) (\<lambda>_.
     bind_res (guard_res (\<not> head_moved (dw_repo w) (pd_baseline_commit parsed)) Stale_head) (\<lambda>_.
       guard_res (\<not> stale_context (pd_context parsed) (current_context ws w)) Stale_context)))"

definition hunk_guards ::
    "js_env \<Rightarrow> code_units \<Rightarrow> resolve_input \<Rightarrow> drift_world \<Rightarrow> (drift_refusal, hunk_case) result" where
  "hunk_guards env ws input w =
     bind_res (parse_decision (ri_decision input)) (\<lambda>decision.
     bind_res (guard_res (trim_units (ri_field input) \<noteq> []) Missing_field) (\<lambda>_.
     bind_res (outstanding_finding ws (ri_drift input) (dw_rows w)) (\<lambda>d.
     bind_res (case parse_drift_diff d of None \<Rightarrow> Inl Unreadable_diff | Some p \<Rightarrow> Inr p) (\<lambda>parsed.
     bind_res (choose_hunk input (pd_hunks parsed)) (\<lambda>(i, h).
     bind_res (hold_refusal decision (held_reason_for_hunk d parsed (ri_field input)
       (reconciled_fields env (dw_items w) d) (Some (fh_baseline h, fh_remote h)))) (\<lambda>_.
     bind_res (guard_res (is_supported_hunk_field (ri_field input)) Unsupported_field) (\<lambda>_.
     bind_res (freshness_refusal ws input d parsed w) (\<lambda>_.
       Inr \<lparr>hc_decision = decision, hc_drift = d, hc_parsed = parsed, hc_index = i, hc_hunk = h\<rparr>))))))))"

section \<open>Rewriting a finding\<close>

definition nullable_json :: "code_units option \<Rightarrow> canonical_json" where
  "nullable_json v = (case v of Some s \<Rightarrow> C_string s | None \<Rightarrow> C_null)"

definition hunk_json :: "field_hunk \<Rightarrow> canonical_json" where
  "hunk_json h = C_object
     [(units ''baselineValue'', nullable_json (fh_baseline h)), (units ''field'', C_string (fh_field h)),
      (units ''remoteValue'', nullable_json (fh_remote h))]"

text \<open>\<open>{...raw, ...changes}\<close> written with sorted keys; the raw diff of a row with hunks is an object.\<close>

definition overwrite_json :: "canonical_json \<Rightarrow> (code_units \<times> canonical_json) list \<Rightarrow> canonical_json" where
  "overwrite_json raw changes =
     C_object (sort_key fst (AList.updates (map fst changes) (map snd changes)
       (case raw of C_object ps \<Rightarrow> ps | _ \<Rightarrow> [])))"

definition without_index :: "nat \<Rightarrow> 'a list \<Rightarrow> 'a list" where
  "without_index i xs = take i xs @ drop (Suc i) xs"

record hunk_result =
  hr_drift :: code_units
  hr_sku :: code_units
  hr_field :: code_units
  hr_decision :: hunk_decision
  hr_commit :: "code_units option"
  hr_remaining :: nat
  hr_resolved_all :: bool

definition hunk_audit ::
    "code_units \<Rightarrow> hunk_case \<Rightarrow> code_units \<Rightarrow> code_units \<Rightarrow> code_units option \<Rightarrow> code_units \<Rightarrow> code_units \<Rightarrow> audit_entry" where
  "hunk_audit action hk field decision commit actor now =
     \<lparr>au_entity = units ''drift_hunk'', au_entity_id = dr_id (hc_drift hk), au_action = action,
      au_sku = dr_sku (hc_drift hk), au_field = Some field, au_decision = decision, au_commit = commit,
      au_change_set = None, au_actor = actor, au_at = now\<rparr>"

section \<open>Rejecting a hunk\<close>

text \<open>The acknowledgement binds the reviewed values and the recorded context.\<close>

definition reject_ack_key :: "hunk_case \<Rightarrow> ack_key" where
  "reject_ack_key hk =
     (let d = hc_drift hk; parsed = hc_parsed hk; ctx = Some (pd_context parsed)
      in \<lparr>ak_workspace = dr_workspace d, ak_sku = dr_sku d, ak_field = fh_field (hc_hunk hk),
          ak_baseline = text_of (fh_baseline (hc_hunk hk)), ak_remote = text_of (fh_remote (hc_hunk hk)),
          ak_remote_hash = dr_remote_hash d, ak_baseline_commit = text_of (pd_baseline_commit parsed),
          ak_projection = pd_projection_version parsed,
          ak_built_in = or_else (jstring (jget (units ''builtInPolicyVersion'') ctx)) built_in_output_policy_version,
          ak_field_catalog = or_else (jstring (jget (units ''fieldCatalogVersion'') ctx)) field_catalog_version,
          ak_page_hash = text_of (jstring (jget (units ''pageImportHash'') ctx))\<rparr>)"

definition reject_hunk ::
    "hunk_case \<Rightarrow> code_units \<Rightarrow> code_units \<Rightarrow> code_units \<Rightarrow> drift_world \<Rightarrow> hunk_result \<times> drift_world" where
  "reject_hunk hk actor i now w =
     (let d = hc_drift hk; parsed = hc_parsed hk; field = fh_field (hc_hunk hk);
          remaining = without_index (hc_index hk) (pd_hunks parsed);
          rows = (if remaining = [] then resolve_drift (dr_id d) (units ''kept_local'') (dw_rows w)
                  else update_drift_hunk_state (dr_id d) (dr_local_hash d) (dr_local_json d)
                    (Some (Readable (overwrite_json (pd_raw parsed)
                      [(units ''hunks'', C_array (map hunk_json remaining))]))) now (dw_rows w))
      in (\<lparr>hr_drift = dr_id d, hr_sku = dr_sku d, hr_field = field, hr_decision = Reject_hunk, hr_commit = None,
           hr_remaining = length remaining, hr_resolved_all = (remaining = [])\<rparr>,
          w\<lparr>dw_acks := record_hunk_ack (reject_ack_key hk) (units ''rejected'') actor i now (dw_acks w),
            dw_rows := rows,
            dw_audit := dw_audit w @ [hunk_audit (units ''drift_hunk_rejected'') hk field (units ''rejected'') None actor now]\<rparr>))"

section \<open>Accepting a hunk\<close>

definition claimed_file_name :: "product \<Rightarrow> code_units option" where
  "claimed_file_name p =
     (case normalize_file_name (first_some [custom_file_name p, se_file_name (co_seo (pr_core p))]) of
        Some n \<Rightarrow> Some n | None \<Rightarrow> Some (resolve_base_file_name p))"

definition name_owners :: "code_units \<Rightarrow> drift_world \<Rightarrow> (code_units \<times> code_units) list" where
  "name_owners ws w = filename_owners (dw_index w) (list_non_discarded_drafts ws (dw_sets w) (dw_items w))"

definition collision_refusal ::
    "code_units option \<Rightarrow> code_units \<Rightarrow> (code_units \<times> code_units) list \<Rightarrow> (drift_refusal, unit) result" where
  "collision_refusal name sku owners =
     (case resolve_reimport_filename name sku owners of
        Hold_collision n owner \<Rightarrow> Inl (Filename_collision n owner) | _ \<Rightarrow> Inr ())"

definition merge_accepted :: "code_units \<Rightarrow> code_units \<Rightarrow> drift_row \<Rightarrow> drift_world \<Rightarrow>
    (drift_refusal, product \<times> product) result" where
  "merge_accepted ws field d w =
     bind_res (guard_res (dr_local_json d \<noteq> Some Unreadable) Unreadable_baseline) (\<lambda>_.
     bind_res (case dr_remote_json d of Readable r \<Rightarrow> Inr r | Unreadable \<Rightarrow> Inl Unreadable_remote) (\<lambda>remote.
     bind_res (case readable (dr_local_json d) of Some b \<Rightarrow> Inr b | None \<Rightarrow> Inl Not_in_catalog) (\<lambda>baseline.
     bind_res (case apply_single_field_hunk baseline remote field of Some m \<Rightarrow> Inr m | None \<Rightarrow> Inl Merge_failed) (\<lambda>merged.
     bind_res (if is_filename_field field
       then collision_refusal (claimed_file_name merged) (pr_sku merged) (name_owners ws w) else Inr ()) (\<lambda>_.
       Inr (merged, remote))))))"

text \<open>
  The commit of a written product: the hash to report, or \<^term>\<open>None\<close> when a Git process fails, and
  the repository as it is then.
\<close>

definition commit_written ::
    "git_calls \<Rightarrow> code_units \<Rightarrow> code_units option \<Rightarrow> workspace_repo \<Rightarrow> code_units option option \<times> workspace_repo" where
  "commit_written g path recorded repo =
     (if \<not> wr_is_repo repo then (Some None, repo)
      else case git_add g path repo of
        None \<Rightarrow> (None, repo)
      | Some added \<Rightarrow>
          (case gc_status g added of
             None \<Rightarrow> (None, added)
           | Some False \<Rightarrow> (Some (first_some [some_text (wr_head added), recorded]), added)
           | Some True \<Rightarrow>
               (case git_commit g added of
                  None \<Rightarrow> (None, added)
                | Some committed \<Rightarrow> (Some (some_text (wr_head committed)), committed))))"

definition content_patch :: "product \<Rightarrow> code_units \<Rightarrow> index_patch" where
  "content_patch p hash =
     no_patch\<lparr>up_title := Some (co_name (pr_core p)), up_status := Some (status_text (pr_status p)),
       up_price := Some (co_price (pr_core p)), up_quantity := Some (iv_quantity (co_inventory (pr_core p))),
       up_image := Some (md_primary (co_media (pr_core p))), up_hash := Some hash,
       up_advanced := Some (if advanced_blocks p \<noteq> [] then 1 else 0),
       up_description := Some (co_description (pr_core p)),
       up_keywords := Some (se_search_keywords (co_seo (pr_core p))), up_custom := Some (pr_custom p)\<rparr>"

definition accepted_patch ::
    "product \<Rightarrow> code_units \<Rightarrow> code_units \<Rightarrow> bool \<Rightarrow> code_units option \<Rightarrow> index_row \<Rightarrow> code_units \<Rightarrow> index_patch" where
  "accepted_patch merged merged_hash remote_hash matches commit row now =
     (content_patch merged merged_hash)
       \<lparr>up_pulled_hash := Some (Some remote_hash),
        up_synced_hash := Some (if matches then Some remote_hash else ix_synced_hash row),
        up_synced_at := Some (if matches then Some now else ix_synced_at row),
        up_sync_status := Some (if matches then units ''synced'' else units ''drifted''),
        up_approved_commit := (if present commit then Some commit else None)\<rparr>"

definition index_accepted ::
    "product \<Rightarrow> code_units \<Rightarrow> code_units \<Rightarrow> bool \<Rightarrow> code_units option \<Rightarrow> code_units \<Rightarrow> index_table \<Rightarrow> index_table" where
  "index_accepted merged merged_hash remote_hash matches commit now rows =
     (case find_product_by_sku (pr_sku merged) rows of
        None \<Rightarrow> rows
      | Some row \<Rightarrow> update_product_index (pr_sku merged)
          (accepted_patch merged merged_hash remote_hash matches commit row now) now rows)"

definition same_hunk :: "field_hunk \<Rightarrow> field_hunk \<Rightarrow> bool" where
  "same_hunk h g \<longleftrightarrow> fh_field h = fh_field g \<and> text_of (fh_baseline h) = text_of (fh_baseline g) \<and>
     text_of (fh_remote h) = text_of (fh_remote g)"

text \<open>The row after an accept, its remaining hunks recomputed against the merged product.\<close>

definition settle_row ::
    "hunk_case \<Rightarrow> product \<Rightarrow> code_units \<Rightarrow> field_hunk list \<Rightarrow> code_units option \<Rightarrow> code_units \<Rightarrow> drift_table \<Rightarrow> drift_table" where
  "settle_row hk merged merged_hash new_hunks commit now rows =
     (let d = hc_drift hk
      in if new_hunks = [] then resolve_drift (dr_id d) (units ''accepted_remote'') rows
         else update_drift_hunk_state (dr_id d) (Some merged_hash) (Some (Readable merged))
           (Some (Readable (overwrite_json (pd_raw (hc_parsed hk))
             [(units ''hunks'', C_array (map hunk_json new_hunks)),
              (units ''baselineCommit'', nullable_json (first_some [commit, pd_baseline_commit (hc_parsed hk)])),
              (units ''baselineDirty'', C_bool False)]))) now rows)"

text \<open>What follows the commit: the index, the remaining hunks, the row and the audit entry.\<close>

definition finish_accept ::
    "js_env \<Rightarrow> hunk_case \<Rightarrow> product \<Rightarrow> product \<Rightarrow> code_units \<Rightarrow> code_units \<Rightarrow> code_units option \<Rightarrow> code_units \<Rightarrow> code_units \<Rightarrow>
     drift_world \<Rightarrow> (drift_refusal, hunk_result) result \<times> drift_world" where
  "finish_accept env hk merged remote merged_hash plain_remote_hash commit actor now w =
     (let d = hc_drift hk; field = fh_field (hc_hunk hk);
          indexed = w\<lparr>dw_index := index_accepted merged merged_hash (dr_remote_hash d) (merged_hash = plain_remote_hash)
            commit now (dw_index w)\<rparr>;
          new_hunks = diff_comparison_projections env (Some (plain_projection env merged)) (plain_projection env remote)
      in if list_ex (same_hunk (hc_hunk hk)) new_hunks then (Inl Not_converged, indexed)
         else (Inr \<lparr>hr_drift = dr_id d, hr_sku = dr_sku d, hr_field = field, hr_decision = Accept_hunk,
                 hr_commit = commit, hr_remaining = length new_hunks, hr_resolved_all = (new_hunks = [])\<rparr>,
               indexed\<lparr>dw_rows := settle_row hk merged merged_hash new_hunks commit now (dw_rows indexed),
                 dw_audit := dw_audit indexed @
                   [hunk_audit (units ''drift_hunk_accepted'') hk field (units ''accepted'') commit actor now]\<rparr>))"

definition accept_hunk ::
    "js_env \<Rightarrow> git_calls \<Rightarrow> code_units \<Rightarrow> hunk_case \<Rightarrow> code_units \<Rightarrow> code_units \<Rightarrow> drift_world \<Rightarrow>
     (drift_refusal, hunk_result) result \<times> drift_world" where
  "accept_hunk env g ws hk actor now w =
     (let d = hc_drift hk; field = fh_field (hc_hunk hk)
      in case merge_accepted ws field d w of
           Inl e \<Rightarrow> (Inl e, w)
         | Inr (merged, remote) \<Rightarrow>
             (case write_product_file merged (dw_repo w) of
                Inl e \<Rightarrow> (Inl (Bad_json e), w)
              | Inr written \<Rightarrow>
                  let w1 = w\<lparr>dw_repo := written,
                        dw_joins := (if field = pages_field
                          then index_product_page_assignments (dw_pages w) merged (dw_joins w) else dw_joins w)\<rparr>
                  in (case (hash_comparison_projection (plain_projection env merged),
                            hash_comparison_projection (plain_projection env remote)) of
                        (Inl e, _) \<Rightarrow> (Inl (Bad_json e), w1)
                      | (_, Inl e) \<Rightarrow> (Inl (Bad_json e), w1)
                      | (Inr merged_hash, Inr remote_hash) \<Rightarrow>
                          (case commit_written g (sku_to_product_file_path (pr_sku merged))
                                  (pd_baseline_commit (hc_parsed hk)) (dw_repo w1) of
                             (None, repo) \<Rightarrow> (Inl Git_failed, w1\<lparr>dw_repo := repo\<rparr>)
                           | (Some commit, repo) \<Rightarrow>
                               finish_accept env hk merged remote (units merged_hash) (units remote_hash) commit actor now
                                 (w1\<lparr>dw_repo := repo\<rparr>)))))"

definition resolve_single_hunk ::
    "js_env \<Rightarrow> git_calls \<Rightarrow> code_units \<Rightarrow> resolve_input \<Rightarrow> code_units \<Rightarrow> code_units \<Rightarrow> drift_world \<Rightarrow>
     (drift_refusal, hunk_result) result \<times> drift_world" where
  "resolve_single_hunk env g ws input i now w =
     (case hunk_guards env ws input w of
        Inl e \<Rightarrow> (Inl e, w)
      | Inr hk \<Rightarrow>
          let actor = or_else (ri_actor input) ws
          in if hc_decision hk = Reject_hunk then map_prod Inr id (reject_hunk hk actor i now w)
             else accept_hunk env g ws hk actor now w)"

section \<open>Views of the hunks\<close>

datatype drift_product_kind = New_remote | Changed_product

definition product_kind_for_drift :: "parsed_drift_diff \<Rightarrow> drift_product_kind" where
  "product_kind_for_drift parsed = (if pd_has_local parsed then Changed_product else New_remote)"

record hunk_view =
  hv_id :: code_units
  hv_drift :: code_units
  hv_workspace :: code_units
  hv_sku :: code_units
  hv_field :: code_units
  hv_baseline :: "code_units option"
  hv_remote :: "code_units option"
  hv_remote_hash :: code_units
  hv_commit :: "code_units option"
  hv_source :: baseline_source
  hv_version :: code_units
  hv_detected_at :: code_units
  hv_status :: drift_status
  hv_held :: "hunk_held_reason option"
  hv_supported :: bool
  hv_kind :: drift_product_kind

text \<open>\<open>linked\<close>: the reconciled fields, when the caller supplies them.\<close>

definition expand_drift_to_hunks ::
    "js_env \<Rightarrow> change_set_item list \<Rightarrow> drift_row \<Rightarrow> code_units list option option \<Rightarrow> hunk_view list option" where
  "expand_drift_to_hunks env items d linked =
     map_option (\<lambda>parsed.
       let reconciled = or_else linked (reconciled_fields env items d)
       in map (\<lambda>(i, h).
            \<lparr>hv_id = dr_id d @ [58] @ fh_field h @ [58] @ units (show_nat i), hv_drift = dr_id d,
             hv_workspace = dr_workspace d, hv_sku = dr_sku d, hv_field = fh_field h, hv_baseline = fh_baseline h,
             hv_remote = fh_remote h, hv_remote_hash = dr_remote_hash d, hv_commit = pd_baseline_commit parsed,
             hv_source = pd_baseline_source parsed, hv_version = pd_projection_version parsed,
             hv_detected_at = dr_detected_at d, hv_status = dr_status d,
             hv_held = held_reason_for_hunk d parsed (fh_field h) reconciled (Some (fh_baseline h, fh_remote h)),
             hv_supported = is_supported_hunk_field (fh_field h), hv_kind = product_kind_for_drift parsed\<rparr>)
          (enumerate 0 (pd_hunks parsed))) (parse_drift_diff d)"

end
