(* ===== verification/DriftReconcile.thy ===== *)
theory DriftReconcile
  imports DriftResolve
begin

text \<open>
  The resolutions that settle more than one hunk: the reconcile change set and its reopening
  (\<open>src/src/shopsite/drift-reconcile-service.ts\<close>), the acceptance of a whole remote product
  (\<open>acceptRemoteForDrift\<close> of \<open>src/src/shopsite/drift.ts\<close>), and the action endpoint
  (\<open>src/src/server/routes/drift-routes.ts\<close>). The legacy hash of a draft is a parameter.
\<close>

section \<open>The reconcile change set\<close>

text \<open>The fields to reconcile: the given ones, all outstanding ones when none is given.\<close>

definition select_fields :: "code_units list option \<Rightarrow> field_hunk list \<Rightarrow> (drift_refusal, code_units list) result" where
  "select_fields given hunks =
     (let outstanding = map fh_field hunks
      in if outstanding = [] then Inl No_hunk
         else if or_else given [] = [] then Inr (first_occurrences outstanding)
         else let selected = first_occurrences (or_else given [])
              in if list_all (\<lambda>f. f \<in> set outstanding) selected then Inr selected else Inl No_hunk)"

fun merge_fields :: "product \<Rightarrow> code_units list \<Rightarrow> product \<Rightarrow> (drift_refusal, product) result" where
  "merge_fields remote [] draft = Inr draft"
| "merge_fields remote (f # fs) draft =
     (if \<not> is_supported_hunk_field f \<and> f \<noteq> pages_field \<and> f \<noteq> units ''sku'' then Inl Unsupported_field
      else if f = units ''sku'' then Inl Sku_is_identity
      else case apply_single_field_hunk draft remote f of
             None \<Rightarrow> Inl Merge_failed
           | Some d \<Rightarrow> merge_fields remote fs d)"

record reconcile_input =
  rc_drift :: code_units
  rc_fields :: "code_units list option"
  rc_actor :: "code_units option"

record reconcile_result =
  rr_drift :: code_units
  rr_sku :: code_units
  rr_change_set :: code_units
  rr_fields :: "code_units list"
  rr_kind :: drift_product_kind

text \<open>The guards and the frozen draft.\<close>

definition plan_reconcile ::
    "code_units \<Rightarrow> reconcile_input \<Rightarrow> drift_world \<Rightarrow>
     (drift_refusal, drift_row \<times> parsed_drift_diff \<times> code_units list \<times> product) result" where
  "plan_reconcile ws input w =
     bind_res (case find_drift_by_id (rc_drift input) (dw_rows w) of None \<Rightarrow> Inl Drift_not_found | Some d \<Rightarrow> Inr d) (\<lambda>d.
     bind_res (guard_res (dr_workspace d = ws) Drift_not_found) (\<lambda>_.
     bind_res (guard_res (dr_status d = Open_drift) Not_outstanding) (\<lambda>_.
     bind_res (case parse_drift_diff d of None \<Rightarrow> Inl Unreadable_diff | Some p \<Rightarrow> Inr p) (\<lambda>parsed.
     bind_res (select_fields (rc_fields input) (pd_hunks parsed)) (\<lambda>selected.
     bind_res (guard_res (dr_local_json d \<noteq> Some Unreadable) Unreadable_baseline) (\<lambda>_.
     bind_res (case dr_remote_json d of Readable r \<Rightarrow> Inr r | Unreadable \<Rightarrow> Inl Unreadable_remote) (\<lambda>remote.
     bind_res (case readable (dr_local_json d) of
         Some b \<Rightarrow> if pd_has_local parsed then Inr b else Inl Not_in_catalog | None \<Rightarrow> Inl Not_in_catalog) (\<lambda>baseline.
     bind_res (merge_fields remote selected baseline) (\<lambda>draft.
     bind_res (collision_refusal (claimed_file_name draft) (pr_sku draft) (name_owners ws w)) (\<lambda>_.
       Inr (d, parsed, selected, draft)))))))))))"

definition reconcile_title :: "code_units \<Rightarrow> code_units list \<Rightarrow> code_units" where
  "reconcile_title sku fs =
     units ''Drift reconcile: '' @ sku @ units '' ('' @ units (show_nat (length fs)) @ units '' field(s))''"

definition reconcile_description :: "code_units \<Rightarrow> code_units list \<Rightarrow> code_units option \<Rightarrow> code_units" where
  "reconcile_description sku fs commit =
     units ''Manual merge for drift. SKU: '' @ sku @ units ''. Fields: '' @ join (units '', '') fs @
     units ''. Frozen baseline: '' @ or_else commit (units ''unknown'') @ units ''.''"

definition reconcile_audit ::
    "drift_row \<Rightarrow> code_units \<Rightarrow> code_units option \<Rightarrow> code_units \<Rightarrow> code_units \<Rightarrow> code_units \<Rightarrow> audit_entry" where
  "reconcile_audit d action change_set decision actor now =
     \<lparr>au_entity = units ''drift'', au_entity_id = dr_id d, au_action = action, au_sku = dr_sku d, au_field = None,
      au_decision = decision, au_commit = None, au_change_set = change_set, au_actor = actor, au_at = now\<rparr>"

definition create_reconcile_change_set ::
    "(product \<Rightarrow> code_units) \<Rightarrow> code_units \<Rightarrow> reconcile_input \<Rightarrow> code_units \<Rightarrow> code_units \<Rightarrow> code_units \<Rightarrow> drift_world \<Rightarrow>
     (drift_refusal, reconcile_result) result \<times> drift_world" where
  "create_reconcile_change_set hash_json ws input cs item now w =
     (case plan_reconcile ws input w of
        Inl e \<Rightarrow> (Inl e, w)
      | Inr (d, parsed, selected, draft) \<Rightarrow>
          let repo = dw_repo w;
              base_commit = (if wr_is_repo repo then first_some [some_text (wr_head repo), pd_baseline_commit parsed]
                             else pd_baseline_commit parsed);
              w1 = w\<lparr>dw_sets := create_change_set ws (reconcile_title (dr_sku d) selected)
                (Some (reconcile_description (dr_sku d) selected (pd_baseline_commit parsed)))
                (or_else base_commit (units ''unknown'')) cs now (dw_sets w)\<rparr>
          in (case stored_product draft of
                Inl e \<Rightarrow> (Inl (Bad_json e), w1)
              | Inr text \<Rightarrow>
                  (Inr \<lparr>rr_drift = dr_id d, rr_sku = dr_sku d, rr_change_set = cs, rr_fields = selected,
                     rr_kind = product_kind_for_drift parsed\<rparr>,
                   w1\<lparr>dw_items := upsert_change_set_item (\<lambda>_. False) None
                        \<lparr>ci_id = item, ci_change_set = cs, ci_sku = dr_sku d, ci_operation = units ''update'',
                         ci_draft = text, ci_base = dr_local_json d, ci_draft_hash = hash_json draft,
                         ci_validation = units ''unknown'', ci_run = None, ci_created_at = now, ci_updated_at = now\<rparr>
                        (dw_items w1),
                      dw_rows := link_drift_to_change_set (dr_id d) cs (Some In_reconcile) (dw_rows w1),
                      dw_audit := dw_audit w1 @ [reconcile_audit d (units ''created_reconcile_change_set'') (Some cs)
                        (units ''reconciled'') (or_else (rc_actor input) ws) now]\<rparr>)))"

text \<open>The explicit reopening: the change set is kept.\<close>

record reopen_result =
  ro_drift :: code_units
  ro_sku :: code_units
  ro_change_set :: "code_units option"

definition reopen_reconcile_drift ::
    "code_units \<Rightarrow> code_units \<Rightarrow> code_units option \<Rightarrow> code_units \<Rightarrow> drift_world \<Rightarrow>
     (drift_refusal, reopen_result) result \<times> drift_world" where
  "reopen_reconcile_drift ws i actor now w =
     (case find_drift_by_id i (dw_rows w) of
        None \<Rightarrow> (Inl Drift_not_found, w)
      | Some d \<Rightarrow>
          if dr_workspace d \<noteq> ws then (Inl Drift_not_found, w)
          else if dr_status d \<noteq> In_reconcile then (Inl Not_outstanding, w)
          else let (released, rows) = release_single_reconcile_drift (dr_id d) ws now (dw_rows w)
               in if released \<noteq> 1 then (Inl Not_linked, w\<lparr>dw_rows := rows\<rparr>)
                  else (Inr \<lparr>ro_drift = dr_id d, ro_sku = dr_sku d, ro_change_set = dr_change_set d\<rparr>,
                        w\<lparr>dw_rows := rows,
                          dw_audit := dw_audit w @ [reconcile_audit d (units ''drift_reconcile_reopened'')
                            (dr_change_set d) (units ''reopened'') (or_else actor ws) now]\<rparr>))"

text \<open>The import of a product that is new in the store is always refused.\<close>

definition import_new_remote_product :: "code_units \<Rightarrow> code_units \<Rightarrow> drift_world \<Rightarrow> drift_refusal" where
  "import_new_remote_product ws i w =
     (case find_drift_by_id i (dw_rows w) of
        None \<Rightarrow> Drift_not_found
      | Some d \<Rightarrow>
          if dr_workspace d \<noteq> ws then Drift_not_found
          else if dr_status d \<noteq> Open_drift then Not_outstanding else Not_in_catalog)"

section \<open>Accepting a whole product\<close>

definition accept_remote_guards :: "drift_row \<Rightarrow> drift_world \<Rightarrow> (drift_refusal, product) result" where
  "accept_remote_guards d w =
     bind_res (case dr_remote_json d of Readable r \<Rightarrow> Inr r | Unreadable \<Rightarrow> Inl Unreadable_remote) (\<lambda>remote.
     bind_res (guard_res (pr_sku remote \<noteq> []) Missing_sku) (\<lambda>_.
     bind_res (case (readable (dr_local_json d), readable (read_product_file (pr_sku remote) (dw_repo w))) of
         (Some observed, Some current) \<Rightarrow>
           guard_res (list_all (\<lambda>p. co_price (pr_core p) = co_price (pr_core remote) \<and>
             co_sale_price (pr_core p) = co_sale_price (pr_core remote)) [observed, current]) Price_differs
       | _ \<Rightarrow> Inl Not_in_catalog) (\<lambda>_.
     bind_res (let pulled = normalize_file_name (first_some
         [custom_file_name remote, se_file_name (co_seo (pr_core remote))])
       in if pulled = None then Inr ()
          else collision_refusal pulled (pr_sku remote) (name_owners (dr_workspace d) w)) (\<lambda>_.
       Inr remote))))"

definition synced_row :: "product \<Rightarrow> code_units \<Rightarrow> code_units \<Rightarrow> code_units \<Rightarrow> index_row" where
  "synced_row p hash remote_hash now =
     \<lparr>ix_id = pr_id p, ix_sku = pr_sku p, ix_file_path = sku_to_product_file_path (pr_sku p),
      ix_title = co_name (pr_core p), ix_status = status_text (pr_status p), ix_price = co_price (pr_core p),
      ix_quantity = iv_quantity (co_inventory (pr_core p)), ix_image = md_primary (co_media (pr_core p)),
      ix_hash = hash, ix_approved_commit = None, ix_pulled_hash = Some remote_hash, ix_synced_hash = Some remote_hash,
      ix_synced_at = Some now, ix_sync_status = units ''synced'',
      ix_advanced = (if advanced_blocks p \<noteq> [] then 1 else 0), ix_warnings = 0,
      ix_created_at = pm_created_at (pr_metadata p), ix_updated_at = pm_updated_at (pr_metadata p),
      ix_description = co_description (pr_core p), ix_keywords = se_search_keywords (co_seo (pr_core p)),
      ix_custom = pr_custom p\<rparr>"

definition synced_patch :: "product \<Rightarrow> code_units \<Rightarrow> code_units \<Rightarrow> code_units \<Rightarrow> index_patch" where
  "synced_patch p hash remote_hash now =
     (content_patch p hash)
       \<lparr>up_pulled_hash := Some (Some remote_hash), up_synced_hash := Some (Some remote_hash),
        up_synced_at := Some (Some now), up_sync_status := Some (units ''synced'')\<rparr>"

definition index_synced :: "product \<Rightarrow> code_units \<Rightarrow> code_units \<Rightarrow> code_units \<Rightarrow> index_table \<Rightarrow> index_table option" where
  "index_synced p hash remote_hash now rows =
     (if find_product_by_sku (pr_sku p) rows \<noteq> None
      then Some (update_product_index (pr_sku p) (synced_patch p hash remote_hash now) now rows)
      else insert_product_index (synced_row p hash remote_hash now) rows)"

text \<open>The commit: none when nothing changed or outside a repository.\<close>

definition commit_remote ::
    "git_calls \<Rightarrow> product \<Rightarrow> code_units \<Rightarrow> drift_world \<Rightarrow> (drift_refusal, code_units option) result \<times> drift_world" where
  "commit_remote g p now w =
     (let repo = dw_repo w; path = sku_to_product_file_path (pr_sku p)
      in if \<not> wr_is_repo repo then (Inr None, w)
         else case git_add g path repo of
           None \<Rightarrow> (Inl Git_failed, w)
         | Some added \<Rightarrow>
             (case gc_status g added of
                None \<Rightarrow> (Inl Git_failed, w\<lparr>dw_repo := added\<rparr>)
              | Some False \<Rightarrow> (Inr None, w\<lparr>dw_repo := added\<rparr>)
              | Some True \<Rightarrow>
                  (case git_commit g added of
                     None \<Rightarrow> (Inl Git_failed, w\<lparr>dw_repo := added\<rparr>)
                   | Some committed \<Rightarrow>
                       (Inr (Some (wr_head committed)),
                        w\<lparr>dw_repo := committed,
                          dw_index := update_product_index (pr_sku p)
                            (no_patch\<lparr>up_approved_commit := Some (Some (wr_head committed))\<rparr>) now (dw_index w)\<rparr>))))"

definition accept_remote_for_drift ::
    "js_env \<Rightarrow> git_calls \<Rightarrow> drift_row \<Rightarrow> code_units \<Rightarrow> drift_world \<Rightarrow>
     (drift_refusal, product \<times> code_units option) result \<times> drift_world" where
  "accept_remote_for_drift env g d now w =
     (case accept_remote_guards d w of
        Inl e \<Rightarrow> (Inl e, w)
      | Inr remote \<Rightarrow>
          (case write_product_file remote (dw_repo w) of
             Inl e \<Rightarrow> (Inl (Bad_json e), w)
           | Inr written \<Rightarrow>
               let w1 = w\<lparr>dw_repo := written\<rparr>
               in (case comparison_hash_for_product env [] (\<lambda>_. None) remote of
                     Inl e \<Rightarrow> (Inl (Bad_json e), w1)
                   | Inr hash \<Rightarrow>
                       (case index_synced remote (units hash) (dr_remote_hash d) now (dw_index w1) of
                          None \<Rightarrow> (Inl Index_conflict, w1)
                        | Some rows \<Rightarrow>
                            (case commit_remote g remote now (w1\<lparr>dw_index := rows\<rparr>) of
                               (Inl e, w2) \<Rightarrow> (Inl e, w2)
                             | (Inr commit, w2) \<Rightarrow> (Inr (remote, commit), w2))))))"

section \<open>The action endpoint\<close>

datatype drift_action = Keep_local | Accept_remote | Create_change_set "code_units list option"

datatype action_outcome =
    Kept_local code_units | Accepted_remote code_units "code_units option" | Created_change_set reconcile_result

definition action_audit ::
    "drift_row \<Rightarrow> code_units \<Rightarrow> code_units option \<Rightarrow> code_units \<Rightarrow> code_units \<Rightarrow> audit_entry" where
  "action_audit d action commit actor now =
     \<lparr>au_entity = units ''drift'', au_entity_id = dr_id d, au_action = action, au_sku = dr_sku d, au_field = None,
      au_decision = action, au_commit = commit, au_change_set = None, au_actor = actor, au_at = now\<rparr>"

definition drift_action_endpoint ::
    "js_env \<Rightarrow> git_calls \<Rightarrow> (product \<Rightarrow> code_units) \<Rightarrow> code_units \<Rightarrow> code_units \<Rightarrow> drift_action \<Rightarrow> code_units \<Rightarrow>
     code_units \<Rightarrow> code_units \<Rightarrow> drift_world \<Rightarrow> (drift_refusal, action_outcome) result \<times> drift_world" where
  "drift_action_endpoint env g hash_json ws i action cs item now w =
     (case find_drift_by_id i (dw_rows w) of
        None \<Rightarrow> (Inl Drift_not_found, w)
      | Some d \<Rightarrow>
          if dr_workspace d \<noteq> ws then (Inl Drift_not_found, w)
          else if dr_status d \<noteq> Open_drift then (Inl Not_outstanding, w)
          else (case action of
            Keep_local \<Rightarrow>
              (Inr (Kept_local (dr_sku d)),
               w\<lparr>dw_rows := resolve_drift i (units ''kept_local'') (dw_rows w),
                 dw_audit := dw_audit w @ [action_audit d (units ''kept_local'') None ws now]\<rparr>)
          | Accept_remote \<Rightarrow>
              (case accept_remote_for_drift env g d now w of
                 (Inl e, w1) \<Rightarrow> (Inl e, w1)
               | (Inr (p, commit), w1) \<Rightarrow>
                   (Inr (Accepted_remote (dr_sku d) commit),
                    w1\<lparr>dw_rows := resolve_drift i (units ''accepted_remote'') (dw_rows w1),
                      dw_audit := dw_audit w1 @ [action_audit d (units ''accepted_remote'') commit ws now]\<rparr>))
          | Create_change_set fs \<Rightarrow>
              map_prod (map_sum id Created_change_set) id
                (create_reconcile_change_set hash_json ws
                  \<lparr>rc_drift = i, rc_fields = map_option (map trim_units) fs, rc_actor = Some ws\<rparr> cs item now w)))"

end
