(* ===== verification/DriftLifecycle.thy ===== *)
theory DriftLifecycle
  imports DriftReconcile
begin

text \<open>
  What the drift workflow guarantees over its shared state: findings read back as written, rejected
  hunks stay hidden, accepted ones land in the workspace, reconciled fields stay held; and where it
  falls short of that.
\<close>

section \<open>Findings in the table\<close>

lemma find_update_row:
  assumes "\<And>r. dr_id (f r) = dr_id r"
  shows "find_drift_by_id i (update_row j f rows) =
    map_option (\<lambda>r. if i = j then f r else r) (find_drift_by_id i rows)"
  by (induction rows) (auto simp: find_drift_by_id_def update_row_def assms)

lemma find_resolve: "find_drift_by_id i (resolve_drift j s rows) =
    map_option (\<lambda>r. if i = j then r\<lparr>dr_status := Terminal s\<rparr> else r) (find_drift_by_id i rows)"
  unfolding resolve_drift_def by (rule find_update_row) simp

lemma find_hunk_state: "find_drift_by_id i (update_drift_hunk_state j lh lj dj now rows) =
    map_option (\<lambda>r. if i = j then r\<lparr>dr_local_hash := lh, dr_local_json := lj, dr_diff_json := dj, dr_detected_at := now\<rparr>
      else r) (find_drift_by_id i rows)"
  unfolding update_drift_hunk_state_def by (rule find_update_row) simp

lemma find_drift_id: "find_drift_by_id i rows = Some r \<Longrightarrow> dr_id r = i"
  by (auto dest: find_drift_Some)

section \<open>What the guards establish\<close>

lemma enumerate_member: "(i, h) \<in> set (enumerate 0 xs) \<longleftrightarrow> i < length xs \<and> xs ! i = h"
  by (auto simp: in_set_enumerate_eq)

lemma choose_hunk_Inr:
  assumes "choose_hunk input hunks = Inr (i, h)"
  shows "i < length hunks \<and> hunks ! i = h \<and> fh_field h = ri_field input"
proof -
  let ?c = "filter (\<lambda>(i, h). fh_field h = ri_field input) (enumerate 0 hunks)"
  from assms consider "find (\<lambda>(i, h). text_of (fh_baseline h) = text_of (or_else (ri_baseline input) None) \<and>
        text_of (fh_remote h) = text_of (or_else (ri_remote input) None)) ?c = Some (i, h)"
    | "?c \<noteq> []" "hd ?c = (i, h)"
    unfolding choose_hunk_def Let_def by (simp split: if_splits option.splits)
  then have "(i, h) \<in> set ?c"
  proof cases
    case 1
    then show ?thesis unfolding find_Some_iff by (metis nth_mem)
  next
    case 2
    then show ?thesis by (metis hd_in_set)
  qed
  then show ?thesis by (auto simp: enumerate_member)
qed

lemma hunk_guards_Inr:
  assumes "hunk_guards env ws input w = Inr hk"
  shows "find_drift_by_id (ri_drift input) (dw_rows w) = Some (hc_drift hk)"
    and "dr_workspace (hc_drift hk) = ws" and "is_outstanding (hc_drift hk)"
    and "parse_drift_diff (hc_drift hk) = Some (hc_parsed hk)"
    and "hc_index hk < length (pd_hunks (hc_parsed hk))" and "pd_hunks (hc_parsed hk) ! hc_index hk = hc_hunk hk"
    and "fh_field (hc_hunk hk) = ri_field input"
    and "parse_decision (ri_decision input) = Inr (hc_decision hk)"
    and "hold_refusal (hc_decision hk) (held_reason_for_hunk (hc_drift hk) (hc_parsed hk) (ri_field input)
      (reconciled_fields env (dw_items w) (hc_drift hk)) (Some (fh_baseline (hc_hunk hk), fh_remote (hc_hunk hk)))) = Inr ()"
    and "is_supported_hunk_field (ri_field input)"
    and "freshness_refusal ws input (hc_drift hk) (hc_parsed hk) w = Inr ()"
  using assms
  by (auto simp: hunk_guards_def bind_res_Inr_iff outstanding_finding_def dest!: choose_hunk_Inr
      split: option.splits if_splits)

lemma freshD: "freshness_refusal ws input d parsed w = Inr () \<Longrightarrow> \<not> head_moved (dw_repo w) (pd_baseline_commit parsed)"
  by (auto simp: freshness_refusal_def bind_res_Inr_iff)


section \<open>A finding whose baseline commit is no longer HEAD\<close>

lemma stored_local_Inr: "map_sum id Some (stored_product b) = Inr a \<Longrightarrow> a = Some (Readable b)"
  by (cases "stored_product b") (auto dest: stored_product_Inr)

lemma finding_input_fields:
  "finding_input x baseline remote lh rh hunks = Inr input \<Longrightarrow>
     di_workspace input = dx_workspace x \<and> di_sku input = pr_sku remote \<and> di_local_hash input = lh \<and>
     di_remote_hash input = rh \<and> di_local_json input = map_option Readable baseline \<and>
     di_remote_json input = Readable remote \<and>
     (\<exists>c. json_of (diff_record x baseline (pr_sku remote) hunks) = Some c \<and> di_diff_json input = Some (Readable c))"
  by (auto simp: finding_input_def bind_res_Inr_iff json_of_def dest!: stored_product_Inr stored_local_Inr split: option.splits)

lemma clear_keeps:
  assumes "list_outstanding_drift_for_sku ws sku rows = [d]" and "d \<in> set (clear_matched_open_drift ws sku rows)"
  shows "clear_matched_open_drift ws sku rows = rows"
proof -
  have only: "r = d" if "r \<in> set rows" "at_product ws sku r" "is_outstanding r" for r
  proof -
    have "r \<in> set (list_outstanding_drift_for_sku ws sku rows)"
      using that by (simp add: list_outstanding_drift_for_sku_def)
    with assms(1) show ?thesis by simp
  qed
  have "\<not> (at_product ws sku r \<and> dr_status r = Open_drift)" if "r \<in> set rows" for r
    using only [OF that] assms(2) by (auto simp: clear_matched_open_drift_def is_outstanding_def)
  then show ?thesis by (simp add: clear_matched_open_drift_def filter_id_conv)
qed

lemma recheck_cases:
  assumes one: "list_outstanding_drift_for_sku (dx_workspace x) (pr_sku remote) (dw_rows w) = [d]"
    and hashes: "observed_hashes x (read_pinned_baseline (dx_source x) (pr_sku remote) (dw_repo w)) remote =
      Inr (dr_local_hash d, dr_remote_hash d)"
    and step: "detect_product x indexed i now remote w = (outcome, w')"
  shows "(dw_rows w' = dw_rows w \<or> dw_rows w' = clear_matched_open_drift (dx_workspace x) (pr_sku remote) (dw_rows w)) \<and>
    dw_repo w' = dw_repo w"
proof -
  let ?b = "read_pinned_baseline (dx_source x) (pr_sku remote) (dw_repo w)"
  let ?cleared = "w\<lparr>dw_rows := clear_matched_open_drift (dx_workspace x) (pr_sku remote) (dw_rows w)\<rparr>"
  have rec: "w1 = w \<or> w1 = ?cleared"
    if "record_difference x indexed i now ?b remote (dr_local_hash d) (dr_remote_hash d) w = (out, w1)" for out w1
  proof -
    have "upsert_drift indexed True id id input i now (dw_rows w) = (Some (Noop d), dw_rows w)"
      if "finding_input x ?b remote (dr_local_hash d) (dr_remote_hash d) hunks = Inr input" for input hunks
      using finding_input_fields [OF that] one by (simp add: upsert_drift_def upsert_attempt_def)
    with that show ?thesis
      by (auto simp: record_difference_def Let_def split: if_splits sum.splits)
  qed
  from step have "(dw_rows w' = dw_rows w \<or> dw_rows w' = dw_rows ?cleared) \<and> dw_repo w' = dw_repo w"
    unfolding detect_product_def Let_def hashes
    by (auto split: if_splits sum.splits option.splits prod.splits dest!: rec)
  then show ?thesis by simp
qed

lemma recheck_same_hashes:
  assumes "list_outstanding_drift_for_sku (dx_workspace x) (pr_sku remote) (dw_rows w) = [d]"
    and "observed_hashes x (read_pinned_baseline (dx_source x) (pr_sku remote) (dw_repo w)) remote =
      Inr (dr_local_hash d, dr_remote_hash d)"
    and "detect_product x indexed i now remote w = (outcome, w')"
    and "d \<in> set (dw_rows w')"
  shows "dw_rows w' = dw_rows w" and "dw_repo w' = dw_repo w"
  using recheck_cases [OF assms(1-3)] clear_keeps [OF assms(1)] assms(4) by auto

text \<open>
  C24. A finding whose recorded commit is no longer HEAD, with the observed hashes unchanged (a commit
  for another product is enough), is never refreshed by a check: as long as the check keeps the
  finding it keeps it as it is, so its hunks refuse every decision before and after the check.
\<close>

theorem moved_head_blocks_finding:
  assumes "list_outstanding_drift_for_sku (dx_workspace x) (pr_sku remote) (dw_rows w) = [d]"
    and "find_drift_by_id (dr_id d) (dw_rows w) = Some d"
    and "parse_drift_diff d = Some parsed" and "head_moved (dw_repo w) (pd_baseline_commit parsed)"
    and "observed_hashes x (read_pinned_baseline (dx_source x) (pr_sku remote) (dw_repo w)) remote =
      Inr (dr_local_hash d, dr_remote_hash d)"
    and "detect_product x indexed i now remote w = (outcome, w')" and "d \<in> set (dw_rows w')"
    and "ri_drift input = dr_id d"
  shows "dw_rows w' = dw_rows w \<and>
    (\<exists>e. resolve_single_hunk env g ws input j later w = (Inl e, w)) \<and>
    (\<exists>e. resolve_single_hunk env g ws input j later w' = (Inl e, w'))"
proof -
  note same = recheck_same_hashes [OF assms(1,5,6,7)]
  have "\<exists>e. hunk_guards env ws input v = Inl e" if "dw_rows v = dw_rows w" "dw_repo v = dw_repo w" for v
  proof (cases "hunk_guards env ws input v")
    case (Inr hk)
    note facts = hunk_guards_Inr [OF Inr]
    from facts(1) have "hc_drift hk = d" using assms(2,8) that by simp
    with facts(4) assms(3) have "hc_parsed hk = parsed" by simp
    with freshD [OF facts(11)] assms(4) that show ?thesis by simp
  qed blast
  then show ?thesis using same by (fastforce simp: resolve_single_hunk_def)
qed

section \<open>The finding read back\<close>

text \<open>
  C22. What detection writes is what review reads: the stored finding parses to exactly the hunks,
  baseline and context of the check, with both products as they were compared, and its context is
  stale exactly when a part of the context has changed since.
\<close>

theorem finding_round_trip:
  assumes "finding_input x baseline remote local_hash remote_hash hunks = Inr input"
  shows "\<exists>parsed. parse_drift_diff (new_drift input i now) = Some parsed \<and>
    pd_hunks parsed = hunks \<and> pd_baseline_commit parsed = dx_commit x \<and> pd_baseline_source parsed = dx_source x \<and>
    pd_baseline_dirty parsed = dx_dirty x \<and> pd_has_local parsed = (baseline \<noteq> None) \<and>
    readable (dr_local_json (new_drift input i now)) = baseline \<and> dr_remote_json (new_drift input i now) = Readable remote \<and>
    (stale_context (pd_context parsed) current \<longleftrightarrow> dx_context x \<noteq> current)"
proof -
  note facts = finding_input_fields [OF assms]
  then obtain c where c: "json_of (diff_record x baseline (pr_sku remote) hunks) = Some c"
    and diff: "di_diff_json input = Some (Readable c)" by blast
  from diff_record_round_trip [OF c, of "new_drift input i now"]
  obtain ctx where ctx: "json_of (context_value (dx_context x)) = Some ctx"
    and parsed: "parse_drift_diff ((new_drift input i now)\<lparr>dr_diff_json := Some (Readable c)\<rparr>) = Some
      \<lparr>pd_hunks = hunks, pd_baseline_commit = dx_commit x, pd_baseline_source = dx_source x,
       pd_baseline_dirty = dx_dirty x, pd_projection_version = catalog_comparison_projection_version,
       pd_has_local = (baseline \<noteq> None \<and> dr_local_json (new_drift input i now) \<noteq> None), pd_context = ctx, pd_raw = c\<rparr>"
    by blast
  have "(new_drift input i now)\<lparr>dr_diff_json := Some (Readable c)\<rparr> = new_drift input i now"
    using diff by (simp add: new_drift_def)
  with parsed facts context_round_trip(4) [OF ctx, of current] show ?thesis
    by (cases baseline) (auto simp: new_drift_def readable_def)
qed

section \<open>Distinct hunks\<close>

text \<open>The values a decision identifies a hunk by.\<close>

definition hunk_key :: "field_hunk \<Rightarrow> code_units \<times> code_units \<times> code_units" where
  "hunk_key h = (fh_field h, text_of (fh_baseline h), text_of (fh_remote h))"

lemma text_of_simps [simp]: "text_of None = []" "text_of (Some s) = s"
  by (simp_all add: text_of_def or_else_def)

lemma mset_insert_by [simp]: "mset (insert_by cmp x xs) = add_mset x (mset xs)"
  by (induction xs) auto

lemma mset_sort_by [simp]: "mset (sort_by cmp xs) = mset xs"
  by (induction xs) (auto simp: sort_by_def)

lemma distinct_sort_by [simp]: "distinct (map f (sort_by cmp xs)) = distinct (map f xs)"
  by (metis mset_sort_by mset_map mset_eq_imp_distinct_iff)

lemma distinct_keys_filter:
  "distinct xs \<Longrightarrow> (\<And>x y. f x = Some y \<Longrightarrow> g y = k x) \<Longrightarrow> inj_on k (set xs) \<Longrightarrow> distinct (map g (List.map_filter f xs))"
proof (induction xs)
  case (Cons x xs)
  then have IH: "distinct (map g (List.map_filter f xs))" by auto
  show ?case
  proof (cases "f x")
    case None
    with IH show ?thesis by (simp add: List.map_filter_simps)
  next
    case (Some y)
    have "g y \<noteq> g z" if "z \<in> set (List.map_filter f xs)" for z
    proof -
      from that obtain x' where "x' \<in> set xs" "f x' = Some z" by (auto simp: set_map_filter)
      with Cons.prems Some show ?thesis by (auto simp: inj_on_def)
    qed
    with IH Some show ?thesis by (auto simp: List.map_filter_simps)
  qed
qed (simp add: List.map_filter_simps)

lemma page_identity_nonempty: "[] \<notin> set (cp_pages (build_comparison_projection env c R p))"
  by (auto simp: build_comparison_projection_def resolve_page_identities_def page_identity_def units_def
      split: option.splits if_splits)

lemma distinct_by_field: "distinct (map fh_field xs) \<Longrightarrow> distinct (map hunk_key xs)"
  by (auto simp: distinct_map hunk_key_def inj_on_def)

lemma diff_keys_distinct:
  assumes "[] \<notin> set (cp_pages b)" and "[] \<notin> set (cp_pages r)"
    and "pages_field \<notin> fst ` set (cp_fields b @ cp_fields r)"
    and "\<And>k. preserved_field k \<notin> fst ` set (cp_fields b @ cp_fields r)"
  shows "distinct (map hunk_key (diff_comparison_projections env (Some b) r))"
proof -
  let ?f = "field_hunks (cp_fields b) (cp_fields r)"
  let ?g = "page_hunks (cp_pages b) (cp_pages r)"
  let ?p = "preserved_hunks (cp_preserved b) (cp_preserved r)"
  have keys: "hunk_key ` set xs \<inter> hunk_key ` set ys = {}" if "fh_field ` set xs \<inter> fh_field ` set ys = {}" for xs ys
    using that by (auto simp: hunk_key_def)
  have f: "fh_field ` set ?f \<subseteq> fst ` set (cp_fields b @ cp_fields r)"
    by (auto simp: field_hunks_def set_map_filter split: if_splits intro: rev_image_eqI)
  have g: "fh_field ` set ?g \<subseteq> {pages_field}" by (auto simp: page_hunks_def)
  have p: "fh_field ` set ?p \<subseteq> range preserved_field"
    by (auto simp: preserved_hunks_def set_map_filter split: if_splits)
  have apart: "fh_field ` set xs \<inter> fh_field ` set ys = {}"
    if "fh_field ` set xs \<subseteq> A" "fh_field ` set ys \<subseteq> B" "A \<inter> B = {}" for xs ys :: "field_hunk list" and A B
    using that by blast
  have "fh_field ` set ?f \<inter> fh_field ` set ?g = {}"
    by (rule apart [OF f g]) (simp add: assms(3) del: set_append)
  moreover have "fh_field ` set ?f \<inter> fh_field ` set ?p = {}"
    by (rule apart [OF f p]) (use assms(4) in \<open>force simp del: set_append\<close>)
  moreover have "fh_field ` set ?g \<inter> fh_field ` set ?p = {}"
    by (rule apart [OF g p]) auto
  moreover have "distinct (map hunk_key ?f)"
    unfolding field_hunks_def by (rule distinct_by_field, rule distinct_keys_filter [where k = id]) (auto split: if_splits)
  moreover have "distinct (map hunk_key ?p)"
    unfolding preserved_hunks_def
    by (rule distinct_by_field, rule distinct_keys_filter [where k = preserved_field])
      (auto split: if_splits simp: inj_on_def)
  moreover have "distinct (map hunk_key ?g)"
    using assms(1,2) by (auto simp: page_hunks_def distinct_map inj_on_def hunk_key_def)
  ultimately have "distinct (map hunk_key (?f @ ?g @ ?p))"
    using keys by (simp add: Int_Un_distrib)
  then show ?thesis by (simp add: diff_comparison_projections_def)
qed

lemma custom_loop_names: "fst ` set (custom_fields_loop env c seen es) \<subseteq> range custom_key"
  by (induction env c seen es rule: custom_fields_loop.induct) auto

lemma projection_field_names:
  "fst ` set (cp_fields (build_comparison_projection env c R p)) \<subseteq> set fixed_names \<union> range custom_key"
proof -
  have defaulted: "fst ` set (defaulted_fields env c p) \<subseteq> range custom_key"
    by (simp add: defaulted_fields_def)
  have all: "fst ` set (cp_fields (proj env c R p)) = set fixed_names \<union> fst ` set (defaulted_fields env c p) \<union>
      fst ` set (custom_fields_loop env c [minimum_quantity, product_type] (pr_custom p))"
    by (simp add: build_comparison_projection_def image_Un fixed_keys_set Un_assoc)
  show ?thesis
    unfolding all
    by (intro Un_least order.trans [OF defaulted sup_ge2] order.trans [OF custom_loop_names sup_ge2] sup_ge1)
qed

lemma projection_keys_distinct:
  "distinct (map hunk_key (diff_comparison_projections env (Some (build_comparison_projection env c R b))
     (build_comparison_projection env c R r)))"
proof (rule diff_keys_distinct [OF page_identity_nonempty page_identity_nonempty])
  have "fst ` set (cp_fields (proj env c R b) @ cp_fields (proj env c R r)) \<subseteq> set fixed_names \<union> range custom_key"
    using projection_field_names [of env c R b] projection_field_names [of env c R r] by (simp add: image_Un)
  moreover have "pages_field \<notin> set fixed_names \<union> range custom_key"
    and "preserved_field k \<notin> set fixed_names \<union> range custom_key" for k
    by (auto simp: other_not_fixed)
  ultimately show "pages_field \<notin> fst ` set (cp_fields (proj env c R b) @ cp_fields (proj env c R r))"
    and "preserved_field k \<notin> fst ` set (cp_fields (proj env c R b) @ cp_fields (proj env c R r))" for k
    by blast+
qed

section \<open>Rejecting\<close>

lemma without_index_eq:
  "distinct (map f xs) \<Longrightarrow> i < length xs \<Longrightarrow> without_index i xs = filter (\<lambda>x. f x \<noteq> f (xs ! i)) xs"
proof (induction xs arbitrary: i)
  case (Cons x xs)
  show ?case
  proof (cases i)
    case 0
    have "filter (\<lambda>y. f y \<noteq> f x) xs = xs"
      using Cons.prems by (auto simp: filter_id_conv image_iff)
    with 0 show ?thesis by (simp add: without_index_def)
  next
    case (Suc j)
    with Cons show ?thesis by (auto simp: without_index_def)
  qed
qed simp

lemma find_record_ack:
  "find_hunk_ack k (record_hunk_ack k' decision actor i now acks) = None \<longleftrightarrow> find_hunk_ack k acks = None \<and> k \<noteq> k'"
  by (auto simp: record_hunk_ack_def find_hunk_ack_def find_None_iff)

lemma overwrite_reads_back:
  assumes "raw = C_object ps" and "distinct (map fst ps)" and "(k, v) \<in> set changes" and "distinct (map fst changes)"
  shows "jget k (Some (overwrite_json raw changes)) = Some v"
    and "k' \<notin> fst ` set changes \<Longrightarrow> jget k' (Some (overwrite_json raw changes)) = jget k' (Some raw)"
    and "\<exists>qs. overwrite_json raw changes = C_object qs \<and> distinct (map fst qs)"
proof -
  have d: "distinct (map fst (AList.updates (map fst changes) (map snd changes) ps))"
    using assms(2) by (rule distinct_updates)
  have upd: "jget k (Some (overwrite_json raw changes)) = (map_of ps ++ map_of (rev changes)) k" for k
    by (simp add: assms(1) jget_def overwrite_json_def map_of_sort [OF d] updates_conv' map_upds_def zip_map_fst_snd)
  have "map_of (rev changes) k = Some v"
    using assms(3,4) by (intro map_of_is_SomeI) (simp_all add: rev_map [symmetric])
  then show "jget k (Some (overwrite_json raw changes)) = Some v"
    by (simp add: upd)
  show "k' \<notin> fst ` set changes \<Longrightarrow> jget k' (Some (overwrite_json raw changes)) = jget k' (Some raw)"
    unfolding upd by (simp add: assms(1) jget_def map_add_dom_app_simps dom_map_of_conv_image_fst)
  show "\<exists>qs. overwrite_json raw changes = C_object qs \<and> distinct (map fst qs)"
    using d by (simp add: overwrite_json_def assms(1))
qed

text \<open>A row whose diff was rewritten parses to the new hunks; the rest of the diff is as it was.\<close>

lemma hunk_json_reads [simp]: "hunk_of_json (hunk_json h) = Some h"
proof -
  have "hunk f b r = h" if "fh_field h = f" "fh_baseline h = b" "fh_remote h = r" for f b r
    using that by (auto simp: hunk_def)
  then show ?thesis
    by (simp add: hunk_of_json_def hunk_json_def jget_def jstring_def nullable_json_def split: option.split)
qed

lemma map_filter_hunks [simp]: "List.map_filter hunk_of_json (map hunk_json hs) = hs"
  by (induction hs) (simp_all add: List.map_filter_simps)

definition object_keys_distinct :: "canonical_json \<Rightarrow> bool" where
  "object_keys_distinct raw \<longleftrightarrow> (\<exists>ps. raw = C_object ps \<and> distinct (map fst ps))"

lemma parse_rewritten:
  assumes "parse_drift_diff d = Some parsed" and "object_keys_distinct (pd_raw parsed)"
    and "dr_diff_json d' = Some (Readable (overwrite_json (pd_raw parsed) [(units ''hunks'', C_array (map hunk_json hs))]))"
    and "dr_local_json d' = dr_local_json d"
  shows "parse_drift_diff d' = Some (parsed\<lparr>pd_hunks := hs,
      pd_raw := overwrite_json (pd_raw parsed) [(units ''hunks'', C_array (map hunk_json hs))]\<rparr>)"
    and "object_keys_distinct (overwrite_json (pd_raw parsed) [(units ''hunks'', C_array (map hunk_json hs))])"
proof -
  let ?raw = "pd_raw parsed" and ?changes = "[(units ''hunks'', C_array (map hunk_json hs))]"
  obtain ps where ps: "?raw = C_object ps" "distinct (map fst ps)"
    using assms(2) by (auto simp: object_keys_distinct_def)
  note reads = overwrite_reads_back [OF ps, of "units ''hunks''" "C_array (map hunk_json hs)" ?changes, simplified]
  from reads(3) obtain qs where qs: "overwrite_json ?raw ?changes = C_object qs" "distinct (map fst qs)" by blast
  then show "object_keys_distinct (overwrite_json ?raw ?changes)"
    by (auto simp: object_keys_distinct_def)
  have raw: "raw_diff d' = Some (overwrite_json ?raw ?changes)"
    by (simp add: raw_diff_def assms(3) qs(1))
  show "parse_drift_diff d' = Some (parsed\<lparr>pd_hunks := hs, pd_raw := overwrite_json ?raw ?changes\<rparr>)"
    using assms(1,4) unfolding parse_drift_diff_def raw
    by (auto simp: Let_def reads)
qed

text \<open>
  The finding shows what a check in this context, of these differences, would show: exactly the
  hunks not acknowledged.
\<close>

definition follows_check :: "detect_context \<Rightarrow> field_hunk list \<Rightarrow> ack_row list \<Rightarrow> drift_row \<Rightarrow> bool" where
  "follows_check x all acks d \<longleftrightarrow>
     dr_workspace d = dx_workspace x \<and>
     (case parse_drift_diff d of
        None \<Rightarrow> False
      | Some parsed \<Rightarrow>
          pd_hunks parsed = visible_hunks x (dr_sku d) (dr_remote_hash d) acks all \<and>
          pd_baseline_commit parsed = dx_commit x \<and>
          pd_projection_version parsed = cx_projection_version (dx_context x) \<and>
          json_of (context_value (dx_context x)) = Some (pd_context parsed) \<and>
          object_keys_distinct (pd_raw parsed))"

lemma follows_checkE:
  assumes "follows_check x all acks d"
  obtains parsed where "parse_drift_diff d = Some parsed" "dr_workspace d = dx_workspace x"
    "pd_hunks parsed = visible_hunks x (dr_sku d) (dr_remote_hash d) acks all" "pd_baseline_commit parsed = dx_commit x"
    "pd_projection_version parsed = cx_projection_version (dx_context x)"
    "json_of (context_value (dx_context x)) = Some (pd_context parsed)" "object_keys_distinct (pd_raw parsed)"
  using assms by (auto simp: follows_check_def split: option.splits)

lemma json_of_object:
  assumes "json_of (object_of ps) = Some c" and "distinct (map fst ps)"
  shows "object_keys_distinct c"
proof -
  let ?ps = "map (map_prod units id) ps"
  have "map (map_prod id (map_js_slot canonicalize_json)) (map (map_prod id Data) ?ps) =
      map (\<lambda>(k, r). (k, Data r)) (map (\<lambda>(k, v). (k, canonicalize_json v)) ?ps)"
    by auto
  with assms(1) obtain qs where c: "c = C_object qs"
    and qs: "collect_properties (map (\<lambda>(k, r). (k, Data r)) (map (\<lambda>(k, v). (k, canonicalize_json v)) (sort_key fst ?ps))) = Inr qs"
    by (auto simp: json_of_def object_of_def plain_object_def sort_key_values simp del: map_map split: sum.splits)
  have "map fst qs = map fst (sort_key fst ?ps)"
    using collect_properties_Inr [OF qs] by (simp add: case_prod_beta o_def)
  moreover have "distinct (map units (map fst ps))"
    using assms(2) by (simp add: distinct_map [of units] inj_on_def del: map_map)
  then have "distinct (map fst (sort_key fst ?ps))" by (simp add: o_def)
  ultimately show ?thesis by (simp add: c object_keys_distinct_def)
qed

lemma diff_record_keys:
  assumes "json_of (diff_record x baseline sku hunks) = Some c"
  shows "object_keys_distinct c"
  using assms unfolding diff_record_def by (rule json_of_object) simp

text \<open>A finding as detection writes it follows the check.\<close>

lemma written_follows_check:
  assumes "finding_input x baseline remote local_hash remote_hash (visible_hunks x (pr_sku remote) remote_hash acks all) = Inr input"
    and "cx_projection_version (dx_context x) = catalog_comparison_projection_version"
  shows "follows_check x all acks (new_drift input i now)"
proof -
  note facts = finding_input_fields [OF assms(1)]
  then obtain c where c: "json_of (diff_record x baseline (pr_sku remote)
      (visible_hunks x (pr_sku remote) remote_hash acks all)) = Some c"
    and diff: "di_diff_json input = Some (Readable c)" by blast
  have same: "(new_drift input i now)\<lparr>dr_diff_json := Some (Readable c)\<rparr> = new_drift input i now"
    using diff by (simp add: new_drift_def)
  from diff_record_round_trip [OF c, of "new_drift input i now"] show ?thesis
    unfolding same using facts diff_record_keys [OF c] assms(2)
    by (auto simp: follows_check_def new_drift_def)
qed

lemma hunk_ack_key_eq:
  "hunk_ack_key ws sku g rh commit ctx = hunk_ack_key ws sku h rh commit ctx \<longleftrightarrow> hunk_key g = hunk_key h"
  by (auto simp: hunk_ack_key_def hunk_key_def text_of_def)

lemma reject_ack_of_check:
  assumes "dr_workspace (hc_drift hk) = dx_workspace x" and "pd_baseline_commit (hc_parsed hk) = dx_commit x"
    and "pd_projection_version (hc_parsed hk) = cx_projection_version (dx_context x)"
    and "json_of (context_value (dx_context x)) = Some (pd_context (hc_parsed hk))"
  shows "reject_ack_key hk = hunk_ack_key (dx_workspace x) (dr_sku (hc_drift hk)) (hc_hunk hk) (dr_remote_hash (hc_drift hk))
    (dx_commit x) (dx_context x)"
  using assms context_round_trip(1-3) [OF assms(4)]
  by (simp add: reject_ack_key_def hunk_ack_key_def text_of_def Let_def or_else_def)

lemma accept_decision: "accept_hunk env g ws hk actor now w = (Inr res, w1) \<Longrightarrow> hr_decision res = Accept_hunk"
  by (auto simp: accept_hunk_def finish_accept_def Let_def split: sum.splits prod.splits option.splits if_splits)

lemma distinct_visible: "distinct (map hunk_key all) \<Longrightarrow> distinct (map hunk_key (visible_hunks x sku rh acks all))"
  by (simp add: visible_hunks_def distinct_map_filter)

lemma visible_after_ack:
  "visible_hunks x sku rh (record_hunk_ack (hunk_ack_key (dx_workspace x) sku h rh (dx_commit x) (dx_context x)) dec actor i now acks) all =
   filter (\<lambda>g. hunk_key g \<noteq> hunk_key h) (visible_hunks x sku rh acks all)"
  by (auto simp: visible_hunks_def find_record_ack hunk_ack_key_eq intro!: filter_cong)

lemma reject_keeps_following:
  assumes row: "find_drift_by_id (dr_id d) (dw_rows w) = Some d" and follows: "follows_check x all (dw_acks w) d"
    and keys: "distinct (map hunk_key all)"
    and hk: "hc_drift hk = d" "parse_drift_diff d = Some (hc_parsed hk)" "hc_index hk < length (pd_hunks (hc_parsed hk))"
      "pd_hunks (hc_parsed hk) ! hc_index hk = hc_hunk hk"
    and reject: "reject_hunk hk actor i now w = (res, w1)"
  shows "visible_hunks x (dr_sku d) (dr_remote_hash d) (dw_acks w1) all =
      filter (\<lambda>g. hunk_key g \<noteq> hunk_key (hc_hunk hk)) (visible_hunks x (dr_sku d) (dr_remote_hash d) (dw_acks w) all)"
    and "\<exists>d1. find_drift_by_id (dr_id d) (dw_rows w1) = Some d1 \<and>
      (if visible_hunks x (dr_sku d) (dr_remote_hash d) (dw_acks w1) all = []
       then dr_status d1 = Terminal (units ''kept_local'') else follows_check x all (dw_acks w1) d1)"
    and "hr_remaining res = length (visible_hunks x (dr_sku d) (dr_remote_hash d) (dw_acks w1) all)"
proof -
  let ?old = "visible_hunks x (dr_sku d) (dr_remote_hash d) (dw_acks w) all"
  let ?remaining = "without_index (hc_index hk) (pd_hunks (hc_parsed hk))"
  from follows hk(2) have parsed: "dr_workspace d = dx_workspace x" "pd_hunks (hc_parsed hk) = ?old"
    "pd_baseline_commit (hc_parsed hk) = dx_commit x"
    "pd_projection_version (hc_parsed hk) = cx_projection_version (dx_context x)"
    "json_of (context_value (dx_context x)) = Some (pd_context (hc_parsed hk))"
    "object_keys_distinct (pd_raw (hc_parsed hk))"
    by (auto elim: follows_checkE)
  have w1: "dw_acks w1 = record_hunk_ack (reject_ack_key hk) (units ''rejected'') actor i now (dw_acks w)"
    and rows: "dw_rows w1 = (if ?remaining = [] then resolve_drift (dr_id d) (units ''kept_local'') (dw_rows w)
      else update_drift_hunk_state (dr_id d) (dr_local_hash d) (dr_local_json d)
        (Some (Readable (overwrite_json (pd_raw (hc_parsed hk)) [(units ''hunks'', C_array (map hunk_json ?remaining))])))
        now (dw_rows w))"
    and res: "hr_remaining res = length ?remaining"
    using reject hk(1) by (auto simp: reject_hunk_def Let_def)
  have key: "reject_ack_key hk = hunk_ack_key (dx_workspace x) (dr_sku d) (hc_hunk hk) (dr_remote_hash d) (dx_commit x) (dx_context x)"
    using reject_ack_of_check [of hk x] parsed hk(1) by simp
  show new: "visible_hunks x (dr_sku d) (dr_remote_hash d) (dw_acks w1) all =
      filter (\<lambda>g. hunk_key g \<noteq> hunk_key (hc_hunk hk)) ?old"
    unfolding w1 key by (rule visible_after_ack)
  have remaining: "?remaining = visible_hunks x (dr_sku d) (dr_remote_hash d) (dw_acks w1) all"
    using without_index_eq [of hunk_key "?old" "hc_index hk"] distinct_visible [OF keys] hk(3,4)
    by (simp add: new parsed(2))
  show "hr_remaining res = length (visible_hunks x (dr_sku d) (dr_remote_hash d) (dw_acks w1) all)"
    by (simp add: res remaining)
  show "\<exists>d1. find_drift_by_id (dr_id d) (dw_rows w1) = Some d1 \<and>
      (if visible_hunks x (dr_sku d) (dr_remote_hash d) (dw_acks w1) all = []
       then dr_status d1 = Terminal (units ''kept_local'') else follows_check x all (dw_acks w1) d1)"
  proof (cases "?remaining = []")
    case True
    then show ?thesis using row by (simp add: rows remaining find_resolve)
  next
    case False
    let ?d1 = "d\<lparr>dr_local_hash := dr_local_hash d, dr_local_json := dr_local_json d, dr_diff_json :=
      Some (Readable (overwrite_json (pd_raw (hc_parsed hk)) [(units ''hunks'', C_array (map hunk_json ?remaining))])),
      dr_detected_at := now\<rparr>"
    from parse_rewritten [OF hk(2) parsed(6), of ?d1 ?remaining]
    have "follows_check x all (dw_acks w1) ?d1"
      using parsed remaining by (simp add: follows_check_def)
    moreover have "find_drift_by_id (dr_id d) (dw_rows w1) = Some ?d1"
      using row False by (simp add: rows find_hunk_state)
    ultimately show ?thesis using False remaining by auto
  qed
qed

text \<open>
  C21. Rejecting a hunk of a finding that shows the differences of a check not yet acknowledged hides
  exactly that hunk: the same check shows the others and no more, the finding keeps showing what the
  check shows, and it is closed as kept local when nothing is left. Neither the workspace nor the
  catalog index changes.
\<close>

theorem rejected_hunk_stays_hidden:
  assumes "find_drift_by_id (ri_drift input) (dw_rows w) = Some d"
    and "all = diff_comparison_projections (dx_env x) (Some (check_projection x b)) (check_projection x r)"
    and "follows_check x all (dw_acks w) d"
    and "resolve_single_hunk env g ws input i now w = (Inr res, w1)" and "hr_decision res = Reject_hunk"
  shows "\<exists>h \<in> set (visible_hunks x (dr_sku d) (dr_remote_hash d) (dw_acks w) all).
    fh_field h = ri_field input \<and>
    visible_hunks x (dr_sku d) (dr_remote_hash d) (dw_acks w1) all =
      filter (\<lambda>g. hunk_key g \<noteq> hunk_key h) (visible_hunks x (dr_sku d) (dr_remote_hash d) (dw_acks w) all) \<and>
    hr_remaining res = length (visible_hunks x (dr_sku d) (dr_remote_hash d) (dw_acks w1) all) \<and>
    (\<exists>d1. find_drift_by_id (dr_id d) (dw_rows w1) = Some d1 \<and>
      (if visible_hunks x (dr_sku d) (dr_remote_hash d) (dw_acks w1) all = []
       then dr_status d1 = Terminal (units ''kept_local'') else follows_check x all (dw_acks w1) d1)) \<and>
    dw_repo w1 = dw_repo w \<and> dw_index w1 = dw_index w"
proof -
  have keys: "distinct (map hunk_key all)"
    unfolding assms(2) check_projection_def by (rule projection_keys_distinct)
  from assms(4) obtain hk where guards: "hunk_guards env ws input w = Inr hk"
    and run: "(if hc_decision hk = Reject_hunk then map_prod Inr id (reject_hunk hk (or_else (ri_actor input) ws) i now w)
      else accept_hunk env g ws hk (or_else (ri_actor input) ws) now w) = (Inr res, w1)"
    by (auto simp: resolve_single_hunk_def Let_def split: sum.splits)
  have "hc_decision hk = Reject_hunk"
    using run assms(5) accept_decision by (auto split: if_splits)
  with run have reject: "reject_hunk hk (or_else (ri_actor input) ws) i now w = (res, w1)"
    by (cases "reject_hunk hk (or_else (ri_actor input) ws) i now w") simp
  note facts = hunk_guards_Inr [OF guards]
  have d: "hc_drift hk = d" "dr_id d = ri_drift input"
    using facts(1) assms(1) find_drift_id by auto
  have row: "find_drift_by_id (dr_id d) (dw_rows w) = Some d" using assms(1) d by simp
  have parsed: "parse_drift_diff d = Some (hc_parsed hk)" using facts(4) d by simp
  note kept = reject_keeps_following [OF row assms(3) keys d(1) parsed facts(5,6) reject]
  have "pd_hunks (hc_parsed hk) = visible_hunks x (dr_sku d) (dr_remote_hash d) (dw_acks w) all"
    using assms(3) parsed by (auto elim: follows_checkE)
  then have "hc_hunk hk \<in> set (visible_hunks x (dr_sku d) (dr_remote_hash d) (dw_acks w) all)"
    using facts(5,6) by (metis nth_mem)
  moreover have "dw_repo w1 = dw_repo w \<and> dw_index w1 = dw_index w"
    using reject by (auto simp: reject_hunk_def Let_def)
  ultimately show ?thesis using kept facts(7) by blast
qed
end
