(* ===== verification/DriftAccept.thy ===== *)
theory DriftAccept
  imports DriftLifecycle
begin

text \<open>
  Acceptance: what accepting a hunk or a whole remote product leaves in the workspace, the catalog
  index and the finding, what a reconcile change set holds, and the page assignments acceptance loses
  track of.
\<close>

section \<open>A rewritten finding\<close>

lemma parse_rewritten_accept:
  assumes "parse_drift_diff d = Some parsed" and "object_keys_distinct (pd_raw parsed)"
    and "dr_diff_json d' = Some (Readable (overwrite_json (pd_raw parsed)
      [(units ''hunks'', C_array (map hunk_json hs)), (units ''baselineCommit'', nullable_json commit),
       (units ''baselineDirty'', C_bool False)]))"
    and "dr_local_json d' \<noteq> None" and "pd_has_local parsed"
  shows "\<exists>p. parse_drift_diff d' = Some p \<and> pd_hunks p = hs \<and> pd_baseline_commit p = commit \<and> pd_has_local p"
proof -
  let ?changes = "[(units ''hunks'', C_array (map hunk_json hs)), (units ''baselineCommit'', nullable_json commit),
       (units ''baselineDirty'', C_bool False)]"
  let ?raw = "overwrite_json (pd_raw parsed) ?changes"
  obtain ps where ps: "pd_raw parsed = C_object ps" "distinct (map fst ps)"
    using assms(2) by (auto simp: object_keys_distinct_def)
  have d: "distinct (map fst ?changes)" by simp
  note at = overwrite_reads_back(1) [OF ps _ d] and other = overwrite_reads_back(2) [OF ps]
  from overwrite_reads_back(3) [OF ps, of "units ''hunks''" _ ?changes] d obtain qs where
    qs: "?raw = C_object qs" by auto
  define raw where "raw = ?raw"
  have new: "raw_diff d' = Some raw"
    by (simp add: raw_diff_def assms(3) qs raw_def)
  have h: "jget (units ''hunks'') (Some raw) = Some (C_array (map hunk_json hs))"
    unfolding raw_def by (rule at) simp
  have "jget (units ''baselineCommit'') (Some raw) = Some (nullable_json commit)"
    unfolding raw_def by (rule at) simp
  then have c: "jstring (jget (units ''baselineCommit'') (Some raw)) = commit"
    by (simp add: jstring_def nullable_json_def split: option.split)
  have l: "jget (units ''hasLocalProduct'') (Some raw) = jget (units ''hasLocalProduct'') (Some (pd_raw parsed))"
    unfolding raw_def by (rule other [where v = "C_array (map hunk_json hs)" and k = "units ''hunks''"]) simp_all
  have "raw_diff d = Some (pd_raw parsed)" and "jget (units ''hasLocalProduct'') (Some (pd_raw parsed)) \<noteq> Some (C_bool False)"
    using assms(1,5) by (auto simp: parse_drift_diff_def Let_def)
  then show ?thesis
    unfolding parse_drift_diff_def new using assms(4) by (simp add: Let_def h c l)
qed


section \<open>Writing and committing\<close>

lemma write_product_file_Inr:
  "write_product_file p repo = Inr repo' \<Longrightarrow>
     repo' = repo\<lparr>wr_files := AList.update (sku_to_product_file_path (pr_sku p)) (Readable p) (wr_files repo)\<rparr>"
  by (cases "stored_product p") (auto simp: write_product_file_def dest: stored_product_Inr)

lemma read_written:
  "write_product_file p repo = Inr repo' \<Longrightarrow> read_product_file (pr_sku p) repo' = Some (Readable p)"
  by (drule write_product_file_Inr) (simp add: read_product_file_def AList.update_conv')

lemma git_add_files: "git_add g path repo = Some repo' \<Longrightarrow> wr_files repo' = wr_files repo \<and> wr_is_repo repo' = wr_is_repo repo"
  by (auto simp: git_add_def split: if_splits option.splits)

lemma git_commit_files: "git_commit g repo = Some repo' \<Longrightarrow> wr_files repo' = wr_files repo \<and> wr_is_repo repo' = wr_is_repo repo"
  by (auto simp: git_commit_def)

lemma committed_content:
  assumes "git_add g path repo = Some added" and "git_commit g added = Some committed"
    and "map_of (wr_files repo) path = Some text" and "wr_head committed \<noteq> []"
  shows "read_file_at_head path committed = Some text"
  using assms by (auto simp: git_add_def git_commit_def read_file_at_head_def AList.update_conv' split: if_splits)

lemma commit_written_files:
  assumes "commit_written g path recorded repo = (commit, repo')"
  shows "wr_files repo' = wr_files repo" and "wr_is_repo repo' = wr_is_repo repo"
  using assms by (auto simp: commit_written_def dest!: git_add_files git_commit_files split: if_splits option.splits bool.splits)

lemma commit_written_head:
  assumes "commit_written g path recorded repo = (Some commit, repo')" and "wr_is_repo repo"
    and "map_of (wr_files repo) path = Some text" and "\<And>v. gc_status g v \<noteq> Some False" and "wr_head repo' \<noteq> []"
  shows "read_file_at_head path repo' = Some text \<and> commit = some_text (wr_head repo')"
proof -
  from assms(1,2,4) obtain added where added: "git_add g path repo = Some added"
    and committed: "git_commit g added = Some repo'" and "commit = some_text (wr_head repo')"
    by (auto simp: commit_written_def split: option.splits bool.splits)
  then show ?thesis using committed_content [OF added committed assms(3,5)] by simp
qed

section \<open>Accepting a hunk\<close>

lemma merge_accepted_Inr:
  assumes "merge_accepted ws field d w = Inr (m, r)"
  shows "\<exists>b. readable (dr_local_json d) = Some b \<and> dr_remote_json d = Readable r \<and> apply_single_field_hunk b r field = Some m"
  using assms by (auto simp: merge_accepted_def bind_res_Inr_iff split: option.splits stored_json.splits)

lemma accept_hunk_Inr:
  assumes "accept_hunk env g ws hk actor now w = (Inr res, w1)"
  shows "\<exists>b r m h written commit repo.
    readable (dr_local_json (hc_drift hk)) = Some b \<and> dr_remote_json (hc_drift hk) = Readable r \<and>
    apply_single_field_hunk b r (fh_field (hc_hunk hk)) = Some m \<and>
    write_product_file m (dw_repo w) = Inr written \<and>
    hash_comparison_projection (plain_projection env m) = Inr h \<and>
    commit_written g (sku_to_product_file_path (pr_sku m)) (pd_baseline_commit (hc_parsed hk)) written = (Some commit, repo) \<and>
    dw_repo w1 = repo \<and> dw_items w1 = dw_items w \<and>
    (let new_hunks = diff_comparison_projections env (Some (plain_projection env m)) (plain_projection env r)
     in \<not> list_ex (same_hunk (hc_hunk hk)) new_hunks \<and> hr_remaining res = length new_hunks \<and> hr_commit res = commit \<and>
        dw_rows w1 = settle_row hk m (units h) new_hunks commit now (dw_rows w))"
proof -
  from assms obtain m r where merged: "merge_accepted ws (fh_field (hc_hunk hk)) (hc_drift hk) w = Inr (m, r)"
    by (auto simp: accept_hunk_def Let_def split: sum.splits)
  from assms merged obtain written where written: "write_product_file m (dw_repo w) = Inr written"
    by (auto simp: accept_hunk_def Let_def split: sum.splits)
  from assms merged written obtain h h' where h: "hash_comparison_projection (plain_projection env m) = Inr h"
    and h': "hash_comparison_projection (plain_projection env r) = Inr h'"
    by (auto simp: accept_hunk_def Let_def split: sum.splits)
  from assms merged written h h' obtain commit repo where
    commit: "commit_written g (sku_to_product_file_path (pr_sku m)) (pd_baseline_commit (hc_parsed hk)) written = (Some commit, repo)"
    by (auto simp: accept_hunk_def Let_def split: prod.splits option.splits)
  define w2 where "w2 = w\<lparr>dw_joins := (if fh_field (hc_hunk hk) = pages_field
    then index_product_page_assignments (dw_pages w) m (dw_joins w) else dw_joins w), dw_repo := repo\<rparr>"
  then have "dw_repo w2 = repo" "dw_rows w2 = dw_rows w" "dw_items w2 = dw_items w" by simp_all
  moreover have "finish_accept env hk m r (units h) (units h') commit actor now w2 = (Inr res, w1)"
    using assms merged written h h' commit
    by (cases "fh_field (hc_hunk hk) = pages_field") (simp_all add: accept_hunk_def Let_def w2_def)
  ultimately show ?thesis
    using merge_accepted_Inr [OF merged] written h commit
    by (auto simp: finish_accept_def Let_def split: if_splits)
qed

lemma find_settle_row:
  "find_drift_by_id i (settle_row hk m h new_hunks commit now rows) =
     (if i = dr_id (hc_drift hk)
      then map_option (\<lambda>r. if new_hunks = [] then r\<lparr>dr_status := Terminal (units ''accepted_remote'')\<rparr>
        else r\<lparr>dr_local_hash := Some h, dr_local_json := Some (Readable m),
          dr_diff_json := Some (Readable (overwrite_json (pd_raw (hc_parsed hk))
             [(units ''hunks'', C_array (map hunk_json new_hunks)),
              (units ''baselineCommit'', nullable_json (first_some [commit, pd_baseline_commit (hc_parsed hk)])),
              (units ''baselineDirty'', C_bool False)])), dr_detected_at := now\<rparr>) (find_drift_by_id i rows)
      else find_drift_by_id i rows)"
  by (cases "find_drift_by_id i rows") (simp_all add: settle_row_def Let_def find_resolve find_hunk_state)


lemma resolve_accepts:
  assumes "resolve_single_hunk env g ws input i now w = (Inr res, w1)" and "hr_decision res = Accept_hunk"
  obtains hk where "hunk_guards env ws input w = Inr hk" "hc_decision hk = Accept_hunk"
    "accept_hunk env g ws hk (or_else (ri_actor input) ws) now w = (Inr res, w1)"
proof -
  from assms(1) obtain hk where guards: "hunk_guards env ws input w = Inr hk"
    and run: "(if hc_decision hk = Reject_hunk then map_prod Inr id (reject_hunk hk (or_else (ri_actor input) ws) i now w)
      else accept_hunk env g ws hk (or_else (ri_actor input) ws) now w) = (Inr res, w1)"
    by (auto simp: resolve_single_hunk_def Let_def split: sum.splits)
  have "hc_decision hk = Accept_hunk"
    using run assms(2) by (cases "hc_decision hk") (auto simp: reject_hunk_def Let_def)
  with guards run that show thesis by simp
qed

lemma held_new_product:
  assumes "hold_refusal Accept_hunk (held_reason_for_hunk d parsed f linked reviewed) = Inr ()" and "dr_status d \<noteq> In_reconcile"
  shows "pd_has_local parsed"
  using assms by (auto simp: hold_refusal_def held_reason_for_hunk_def split: if_splits option.splits)

lemma accept_lands:
  assumes "resolve_single_hunk env g ws input i now w = (Inr res, w1)" and "hr_decision res = Accept_hunk"
    and "find_drift_by_id (ri_drift input) (dw_rows w) = Some d" and "dr_status d = Open_drift"
    and "parse_drift_diff d = Some parsed" and "object_keys_distinct (pd_raw parsed)"
  shows "\<exists>b r m remaining. readable (dr_local_json d) = Some b \<and> dr_remote_json d = Readable r \<and>
    apply_single_field_hunk b r (ri_field input) = Some m \<and> identity_kept b m \<and>
    read_product_file (pr_sku b) (dw_repo w1) = Some (Readable m) \<and>
    (wr_is_repo (dw_repo w) \<and> (\<forall>v. gc_status g v \<noteq> Some False) \<and> wr_head (dw_repo w1) \<noteq> [] \<longrightarrow>
       read_file_at_head (sku_to_product_file_path (pr_sku b)) (dw_repo w1) = Some (Readable m) \<and>
       hr_commit res = Some (wr_head (dw_repo w1))) \<and>
    remaining = diff_comparison_projections env (Some (plain_projection env m)) (plain_projection env r) \<and>
    hr_remaining res = length remaining \<and>
    (\<exists>h \<in> set (pd_hunks parsed). fh_field h = ri_field input \<and> hunk_key h \<notin> hunk_key ` set remaining) \<and>
    (\<exists>d1. find_drift_by_id (dr_id d) (dw_rows w1) = Some d1 \<and>
       (if remaining = [] then dr_status d1 = Terminal (units ''accepted_remote'')
        else dr_status d1 = Open_drift \<and> readable (dr_local_json d1) = Some m \<and>
          (\<exists>p. parse_drift_diff d1 = Some p \<and> pd_hunks p = remaining \<and> pd_has_local p))) \<and>
    (\<forall>j. j \<noteq> dr_id d \<longrightarrow> find_drift_by_id j (dw_rows w1) = find_drift_by_id j (dw_rows w))"
proof -
  from resolve_accepts [OF assms(1,2)] obtain hk where guards: "hunk_guards env ws input w = Inr hk"
    and decision: "hc_decision hk = Accept_hunk"
    and run: "accept_hunk env g ws hk (or_else (ri_actor input) ws) now w = (Inr res, w1)" by metis
  note facts = hunk_guards_Inr [OF guards]
  have d: "hc_drift hk = d" "dr_id d = ri_drift input" and parsed: "hc_parsed hk = parsed"
    using facts(1,4) assms(3,5) find_drift_id by auto
  from accept_hunk_Inr [OF run] obtain b r m h written commit repo where
    stored: "readable (dr_local_json d) = Some b" "dr_remote_json d = Readable r"
      "apply_single_field_hunk b r (ri_field input) = Some m"
    and written: "write_product_file m (dw_repo w) = Inr written"
    and commit: "commit_written g (sku_to_product_file_path (pr_sku m)) (pd_baseline_commit parsed) written = (Some commit, repo)"
    and after: "dw_repo w1 = repo" "hr_commit res = commit"
    and rows: "\<not> list_ex (same_hunk (hc_hunk hk))
        (diff_comparison_projections env (Some (plain_projection env m)) (plain_projection env r))"
      "hr_remaining res = length (diff_comparison_projections env (Some (plain_projection env m)) (plain_projection env r))"
      "dw_rows w1 = settle_row hk m (units h)
        (diff_comparison_projections env (Some (plain_projection env m)) (plain_projection env r)) commit now (dw_rows w)"
    by (auto simp: Let_def d parsed facts(7))
  let ?new = "diff_comparison_projections env (Some (plain_projection env m)) (plain_projection env r)"
  have kept: "identity_kept b m" by (rule apply_keeps_identity [OF stored(3)])
  then have sku: "pr_sku m = pr_sku b" by (simp add: identity_kept_def)
  have content: "map_of (wr_files written) (sku_to_product_file_path (pr_sku m)) = Some (Readable m)"
    using read_written [OF written] by (simp add: read_product_file_def)
  then have read: "read_product_file (pr_sku b) (dw_repo w1) = Some (Readable m)"
    using commit_written_files [OF commit] by (simp add: read_product_file_def after sku)
  have is_repo: "wr_is_repo written = wr_is_repo (dw_repo w)"
    using write_product_file_Inr [OF written] by simp
  have head: "wr_is_repo (dw_repo w) \<and> (\<forall>v. gc_status g v \<noteq> Some False) \<and> wr_head (dw_repo w1) \<noteq> [] \<longrightarrow>
       read_file_at_head (sku_to_product_file_path (pr_sku b)) (dw_repo w1) = Some (Readable m) \<and>
       hr_commit res = Some (wr_head (dw_repo w1))"
    using commit_written_head [OF commit _ content] by (simp add: is_repo after sku some_text_def)
  have gone: "\<exists>h \<in> set (pd_hunks parsed). fh_field h = ri_field input \<and> hunk_key h \<notin> hunk_key ` set ?new"
  proof
    show "hc_hunk hk \<in> set (pd_hunks parsed)" using facts(5,6) parsed by (metis nth_mem)
    show "fh_field (hc_hunk hk) = ri_field input \<and> hunk_key (hc_hunk hk) \<notin> hunk_key ` set ?new"
      using rows(1) facts(7) by (auto simp: list_ex_iff same_hunk_def hunk_key_def)
  qed
  have local: "pd_has_local parsed"
    using held_new_product facts(9) assms(4) by (simp add: d parsed decision)
  have row: "\<exists>d1. find_drift_by_id (dr_id d) (dw_rows w1) = Some d1 \<and>
       (if ?new = [] then dr_status d1 = Terminal (units ''accepted_remote'')
        else dr_status d1 = Open_drift \<and> readable (dr_local_json d1) = Some m \<and>
          (\<exists>p. parse_drift_diff d1 = Some p \<and> pd_hunks p = ?new \<and> pd_has_local p))"
  proof (cases "?new = []")
    case True
    then show ?thesis by (simp add: rows(3) find_settle_row d assms(3))
  next
    case False
    let ?d1 = "d\<lparr>dr_local_hash := Some (units h), dr_local_json := Some (Readable m),
      dr_diff_json := Some (Readable (overwrite_json (pd_raw parsed)
             [(units ''hunks'', C_array (map hunk_json ?new)),
              (units ''baselineCommit'', nullable_json (first_some [commit, pd_baseline_commit parsed])),
              (units ''baselineDirty'', C_bool False)])), dr_detected_at := now\<rparr>"
    from parse_rewritten_accept [OF assms(5,6), of ?d1 ?new] local
    have "\<exists>p. parse_drift_diff ?d1 = Some p \<and> pd_hunks p = ?new \<and> pd_has_local p" by auto
    with False show ?thesis by (simp add: rows(3) find_settle_row d parsed assms(3,4) readable_def)
  qed
  have rest: "\<forall>j. j \<noteq> dr_id d \<longrightarrow> find_drift_by_id j (dw_rows w1) = find_drift_by_id j (dw_rows w)"
    by (simp add: rows(3) find_settle_row d)
  show ?thesis
    by (rule exI [where x = b], rule exI [where x = r], rule exI [where x = m], rule exI [where x = ?new])
      (intro conjI stored kept read head rows(2) gone row rest refl)
qed


section \<open>Page assignments after an accept\<close>

lemma unresolved_pages: "v \<in> set (cp_pages (plain_projection env p)) \<Longrightarrow> is_unverified_page_value (Some v)"
  by (auto simp: plain_projection_def build_comparison_projection_def resolve_page_identities_def page_identity_def
      is_unverified_page_value_def starts_with_iff)

lemma recomputed_pages_unverified:
  assumes "h \<in> set (diff_comparison_projections env (Some (plain_projection env m)) (plain_projection env r))"
    and "fh_field h = pages_field" and "fh_remote h = Some v"
  shows "is_unverified_page_value (Some v)"
proof -
  have "view_field (plain_projection env p) pages_field = None" for p
    unfolding plain_projection_def by (rule view_field_other) (simp_all add: other_not_fixed)
  then have "v \<in> set (cp_pages (plain_projection env r))"
    using assms by (auto simp: set_diff differences_def hunk_def)
  then show ?thesis by (rule unresolved_pages)
qed

lemma chosen_remote:
  assumes "choose_hunk input hunks = Inr (i, h)" and "ri_remote input = Some (Some page)"
  shows "text_of (fh_remote h) = page"
  using assms by (auto simp: choose_hunk_def Let_def or_else_def find_Some_iff split: if_splits option.splits)

text \<open>
  After one hunk of a finding was accepted, no page the remote product has on it can be accepted
  from that finding any more, not even one the check had verified: the remaining hunks are
  recomputed without the page index, so every one of their pages reads as unverified and is held.
\<close>

theorem accept_forgets_page_identities:
  assumes "resolve_single_hunk env g ws input i now w = (Inr res, w1)" and "hr_decision res = Accept_hunk"
    and "find_drift_by_id (ri_drift input) (dw_rows w) = Some d" and "dr_status d = Open_drift"
    and "parse_drift_diff d = Some parsed" and "object_keys_distinct (pd_raw parsed)"
    and "dw_rows w2 = dw_rows w1" and "ri_drift next_input = ri_drift input" and "ri_field next_input = pages_field"
    and "ri_decision next_input = units ''accept''" and "ri_remote next_input = Some (Some page)" and "page \<noteq> []"
  shows "\<exists>e. resolve_single_hunk env g ws next_input j later w2 = (Inl e, w2)"
proof (cases "hunk_guards env ws next_input w2")
  case (Inr hk)
  have id: "dr_id d = ri_drift input" using find_drift_id [OF assms(3)] .
  note facts = hunk_guards_Inr [OF Inr]
  from accept_lands [OF assms(1-6)] obtain m r d1 remaining
    where remaining: "remaining = diff_comparison_projections env (Some (plain_projection env m)) (plain_projection env r)"
      and d1: "find_drift_by_id (ri_drift input) (dw_rows w1) = Some d1"
      and row: "if remaining = [] then dr_status d1 = Terminal (units ''accepted_remote'')
        else dr_status d1 = Open_drift \<and> readable (dr_local_json d1) = Some m \<and>
          (\<exists>p. parse_drift_diff d1 = Some p \<and> pd_hunks p = remaining \<and> pd_has_local p)"
    unfolding id by blast
  have same: "hc_drift hk = d1" using facts(1) d1 assms(7,8) by simp
  with facts(3) row have open_row: "dr_status d1 = Open_drift" "pd_hunks (hc_parsed hk) = remaining" "pd_has_local (hc_parsed hk)"
    using facts(4) by (auto simp: is_outstanding_def split: if_splits)
  let ?h = "hc_hunk hk"
  have "?h \<in> set remaining" using facts(5,6) open_row(2) by (metis nth_mem)
  moreover have "text_of (fh_remote ?h) = page"
    using Inr assms(11) chosen_remote
    by (fastforce simp: hunk_guards_def bind_res_Inr_iff split: prod.splits)
  then have "fh_remote ?h = Some page" using assms(12) by (cases "fh_remote ?h") auto
  ultimately have "is_unverified_page_value (fh_remote ?h)"
    using recomputed_pages_unverified [of ?h env m r page] facts(7) assms(9) by (simp add: remaining)
  moreover have "hc_decision hk = Accept_hunk" using facts(8) assms(10) by (simp add: parse_decision_def)
  ultimately have False
    using facts(9) open_row by (auto simp: assms(9) same held_reason_for_hunk_def hold_refusal_def)
  then show ?thesis ..
qed (simp add: resolve_single_hunk_def)

text \<open>
  The held pages of an open finding are not held on a linked one: a row in reconciliation is decided
  by the linked set alone, so an unverified page outside it is accepted.
\<close>

lemma reconcile_row_takes_unverified_page:
  assumes "is_unverified_page_value remote" and "pages_field \<notin> set linked" and "pd_has_local parsed"
  shows "hold_refusal Accept_hunk (held_reason_for_hunk (d\<lparr>dr_status := In_reconcile\<rparr>) parsed pages_field (Some linked)
      (Some (base, remote))) = Inr ()"
    and "hold_refusal Accept_hunk (held_reason_for_hunk (d\<lparr>dr_status := Open_drift\<rparr>) parsed pages_field (Some linked)
      (Some (base, remote))) = Inl (Hunk_held Unavailable_assignment)"
  using assms by (simp_all add: hold_refusal_def held_reason_for_hunk_def)

section \<open>Accepting a whole product\<close>

lemma commit_remote_facts:
  assumes "commit_remote g p now w = (Inr commit, w1)"
  shows "wr_files (dw_repo w1) = wr_files (dw_repo w)" and "dw_rows w1 = dw_rows w"
  using assms by (auto simp: commit_remote_def Let_def dest!: git_add_files git_commit_files split: if_splits option.splits bool.splits)

lemma commit_remote_head:
  assumes "commit_remote g p now w = (Inr (Some c), w1)" and "c \<noteq> []"
    and "map_of (wr_files (dw_repo w)) (sku_to_product_file_path (pr_sku p)) = Some text"
  shows "read_file_at_head (sku_to_product_file_path (pr_sku p)) (dw_repo w1) = Some text \<and> wr_head (dw_repo w1) = c"
proof -
  from assms(1) obtain added where added: "git_add g (sku_to_product_file_path (pr_sku p)) (dw_repo w) = Some added"
    and committed: "git_commit g added = Some (dw_repo w1)" and "c = wr_head (dw_repo w1)"
    by (auto simp: commit_remote_def Let_def split: if_splits option.splits bool.splits)
  with assms(2) committed_content [OF added committed assms(3)] show ?thesis by simp
qed

lemma diff_same [simp]: "diff_comparison_projections env (Some p) p = []"
proof -
  have "set (diff_comparison_projections env (Some p) p) = {}" by (simp add: set_diff differences_empty)
  then show ?thesis by simp
qed

text \<open>
  C20. Accepting a whole remote product takes it as it is, but only where it leaves both prices of the
  observed baseline and of the file as they are; the file then holds it and no other file changes,
  and HEAD holds it when a commit was made. A later check of that remote against the
  baseline it pins (the file, or HEAD after the commit) finds nothing and leaves no open finding.
\<close>

theorem accepted_product_settles:
  assumes "accept_remote_for_drift env g d now w = (Inr (p, commit), w1)"
  shows "dr_remote_json d = Readable p \<and>
    (\<exists>observed current. readable (dr_local_json d) = Some observed \<and>
       read_product_file (pr_sku p) (dw_repo w) = Some (Readable current) \<and>
       (\<forall>q \<in> {observed, current}. co_price (pr_core q) = co_price (pr_core p) \<and>
          co_sale_price (pr_core q) = co_sale_price (pr_core p))) \<and>
    read_product_file (pr_sku p) (dw_repo w1) = Some (Readable p) \<and>
    (\<forall>path. path \<noteq> sku_to_product_file_path (pr_sku p) \<longrightarrow>
       map_of (wr_files (dw_repo w1)) path = map_of (wr_files (dw_repo w)) path) \<and>
    (\<forall>c. commit = Some c \<and> c \<noteq> [] \<longrightarrow> wr_head (dw_repo w1) = c \<and>
       read_file_at_head (sku_to_product_file_path (pr_sku p)) (dw_repo w1) = Some (Readable p)) \<and>
    (\<forall>x hs i later. observed_hashes x (Some p) p = Inr hs \<and>
       (dx_source x = From_working_tree \<or> (\<exists>c. commit = Some c \<and> c \<noteq> [])) \<longrightarrow>
       (\<exists>w2. detect_product x indexed i later p w1 = (Inr None, w2) \<and>
         (\<forall>r \<in> set (dw_rows w2). \<not> (at_product (dx_workspace x) (pr_sku p) r \<and> dr_status r = Open_drift))))"
proof -
  from assms obtain written hash rows where
    guards: "accept_remote_guards d w = Inr p" and written: "write_product_file p (dw_repo w) = Inr written"
    and commit: "commit_remote g p now (w\<lparr>dw_repo := written, dw_index := rows\<rparr>) = (Inr commit, w1)"
    by (auto simp: accept_remote_for_drift_def Let_def split: sum.splits option.splits prod.splits)
  have stored: "dr_remote_json d = Readable p" and prices: "\<exists>observed current. readable (dr_local_json d) = Some observed \<and>
       read_product_file (pr_sku p) (dw_repo w) = Some (Readable current) \<and>
       (\<forall>q \<in> {observed, current}. co_price (pr_core q) = co_price (pr_core p) \<and>
          co_sale_price (pr_core q) = co_sale_price (pr_core p))"
    using guards by (auto simp: accept_remote_guards_def bind_res_Inr_iff guard_res_def readable_def
        split: stored_json.splits option.splits if_splits)
  note files = commit_remote_facts(1) [OF commit, simplified]
  have read: "read_product_file (pr_sku p) (dw_repo w1) = Some (Readable p)"
    using read_written [OF written] by (simp add: read_product_file_def files)
  have others: "\<forall>path. path \<noteq> sku_to_product_file_path (pr_sku p) \<longrightarrow>
       map_of (wr_files (dw_repo w1)) path = map_of (wr_files (dw_repo w)) path"
    using write_product_file_Inr [OF written] by (simp add: files AList.update_conv')
  have head: "\<forall>c. commit = Some c \<and> c \<noteq> [] \<longrightarrow> wr_head (dw_repo w1) = c \<and>
       read_file_at_head (sku_to_product_file_path (pr_sku p)) (dw_repo w1) = Some (Readable p)"
    using commit_remote_head [of g p now "w\<lparr>dw_repo := written, dw_index := rows\<rparr>"] commit read_written [OF written]
    by (auto simp: read_product_file_def)
  have clean: "\<exists>w2. detect_product x indexed i later p w1 = (Inr None, w2) \<and>
         (\<forall>r \<in> set (dw_rows w2). \<not> (at_product (dx_workspace x) (pr_sku p) r \<and> dr_status r = Open_drift))"
    if hs: "observed_hashes x (Some p) p = Inr hs" and
      source: "dx_source x = From_working_tree \<or> (\<exists>c. commit = Some c \<and> c \<noteq> [])" for x hs i later
  proof -
    have pinned: "read_pinned_baseline (dx_source x) (pr_sku p) (dw_repo w1) = Some p"
    proof (cases "dx_source x")
      case From_head
      with source obtain c where "commit = Some c" "c \<noteq> []" by auto
      with head have "read_file_at_head (sku_to_product_file_path (pr_sku p)) (dw_repo w1) = Some (Readable p)" by simp
      with From_head show ?thesis by (simp add: read_pinned_baseline_def readable_def)
    qed (simp add: read_pinned_baseline_def readable_def read)
    obtain h where h: "hs = (Some h, h)"
      using hs by (cases "hash_comparison_projection (check_projection x p)") (auto simp: observed_hashes_def)
    show ?thesis
      by (cases "find_product_by_sku (pr_sku p) (dw_index w1)")
        (auto simp: detect_product_def Let_def pinned hs h clear_matched_open_drift_def)
  qed
  show ?thesis
    by (intro conjI stored prices read others head allI impI, elim conjE) (rule clean)
qed

end
