(* ===== verification/DriftSamples.thy ===== *)
theory DriftSamples
  imports DriftAccept
begin

text \<open>A sample workspace with one finding, and the properties of the drift workflow applied to it.\<close>

section \<open>The sample finding\<close>

definition sample_baseline :: product where "sample_baseline = sample_product [66] [] []"
definition sample_remote :: product where "sample_remote = sample_product [67] [[68]] []"

definition sample_git :: git_calls where
  "sample_git = \<lparr>gc_status = (\<lambda>_. Some True), gc_add = (\<lambda>_. True), gc_commit = (\<lambda>_. Some [100])\<rparr>"

definition sample_repo :: workspace_repo where
  "sample_repo = \<lparr>wr_is_repo = True, wr_head = [99], wr_head_files = [], wr_staged = [],
     wr_files = [(sku_to_product_file_path [65], Readable sample_baseline)]\<rparr>"

definition sample_check :: detect_context where
  "sample_check = \<lparr>dx_workspace = [1], dx_env = sample_env, dx_controlled = [],
     dx_resolver = (\<lambda>n. if n = [68] then Some [49] else None), dx_commit = Some [99], dx_dirty = False,
     dx_source = From_head, dx_context = build_comparison_context None\<rparr>"

definition sample_world :: "drift_row list \<Rightarrow> drift_world" where
  "sample_world rows = \<lparr>dw_rows = rows, dw_acks = [], dw_index = [], dw_repo = sample_repo, dw_pages = [], dw_imports = [],
     dw_joins = [], dw_sets = [], dw_items = [], dw_audit = []\<rparr>"

section \<open>Its projections\<close>

lemma one_unit: "32 < n \<Longrightarrow> n < 160 \<Longrightarrow> normalize_text_strict sample_env (Some [n]) = Some [n]"
  using sample_text [of "[n]"] by (auto simp: trim_units_def is_space_unit_def)

lemma active_text: "normalize_text_strict sample_env (Some (units ''active'')) = Some (units ''active'')"
  using sample_text [of "units ''active''"] by (simp add: trim_units_def is_space_unit_def units_def code_def)

lemma tangible_text: "normalize_text_strict sample_env (Some (units ''Tangible'')) = Some (units ''Tangible'')"
  using sample_text [of "units ''Tangible''"] by (simp add: trim_units_def is_space_unit_def units_def code_def)

lemma zero_quantity: "normalize_quantity sample_env (Some (Quantity_text (units ''0''))) = Some (units ''0'')"
  by (simp add: normalize_quantity_def sample_text trim_units_def is_space_unit_def number_of_def units_def code_def
      parse_decimal_def digit_unit_def short_decimal_def significant_whole_def significant_fraction_def decimal_text_def Let_def)

definition before_name :: field_values where
  "before_name = [(units ''sku'', Some [65]), (units ''status'', Some (units ''active''))]"

definition after_name :: field_values where
  "after_name = [(units ''core.price'', None), (units ''core.salePrice'', None), (units ''core.description'', None),
     (units ''core.weight'', None), (units ''core.taxable'', Some (units ''true'')), (units ''core.availability'', None),
     (units ''core.quantityOnHand'', None), (units ''core.media.primary'', None), (units ''core.media.additional'', None),
     (units ''seo.fileName'', None), (units ''seo.searchKeywords'', None), (custom_key minimum_quantity, Some (units ''0'')),
     (custom_key product_type, Some (comparison_key id (units ''Tangible'')))]"

lemma no_values: "normalize_price env None = None" "normalize_quantity env None = None" "normalize_image_path env None = None"
  "normalize_file_name_value env None = None" "normalize_collapsed env None = None"
  by (simp_all add: normalize_price_def normalize_quantity_def normalize_image_path_def normalize_file_name_value_def
      normalize_collapsed_def)

lemma controlled_type: "resolve_controlled sample_env [] (custom_key product_type) (Some t) = Some (comparison_key id t)"
proof -
  have "custom_key product_type = units ''custom.ProductType''"
    by (simp add: custom_key_def product_type_def del: units_append flip: units_append)
  then show ?thesis by (simp add: resolve_controlled_def default_controlled_fields_def sample_env_def)
qed

lemma sample_projection:
  assumes "32 < n" and "n < 160"
  shows "build_comparison_projection sample_env [] R (sample_product [n] ps []) =
    \<lparr>cp_version = catalog_comparison_projection_version, cp_sku = [65],
     cp_fields = before_name @ (units ''core.name'', Some [n]) # after_name,
     cp_pages = resolve_page_identities sample_env R (sample_product [n] ps []), cp_preserved = []\<rparr>"
  using assms
  by (simp add: build_comparison_projection_def fixed_fields_def defaulted_fields_def Let_def sample_product_def one_unit
      active_text tangible_text zero_quantity before_name_def after_name_def resolve_effective_custom_def unknown_value_def
      unknown_elements_def advanced_blocks_def preserved_unknown_def preserved_blocks_def additional_images_text_def
      no_values controlled_type resolve_controlled_def [where raw = None] or_else_def List.map_filter_simps)

text \<open>Two field lists that differ at one key have one hunk.\<close>

lemma remdups_repeated: "set xs \<subseteq> set ys \<Longrightarrow> remdups (xs @ ys) = remdups ys"
  by (induction xs) auto

lemma map_filter_append: "List.map_filter f (xs @ ys) = List.map_filter f xs @ List.map_filter f ys"
  by (simp add: List.map_filter_def)

lemma field_hunks_one:
  assumes "distinct (map fst (xs @ (k, v) # ys))" and "v \<noteq> w"
  shows "field_hunks (xs @ (k, v) # ys) (xs @ (k, w) # ys) = [hunk k v w]"
proof -
  let ?b = "xs @ (k, v) # ys" and ?r = "xs @ (k, w) # ys" and ?ks = "map fst (xs @ (k, v) # ys)"
  have "remdups (rev ?ks @ rev ?ks) = rev ?ks"
    using assms(1) by (subst remdups_repeated) (simp_all del: map_append list.map add: remdups_id_iff_distinct)
  then have keys: "first_occurrences (map fst ?b @ map fst ?r) = ?ks"
    by (simp add: first_occurrences_def)
  have same: "field_value_of ?b f = field_value_of ?r f" if "f \<in> set (map fst xs) \<union> set (map fst ys)" for f
    using that assms(1) by (auto simp: field_value_of_def map_add_def split: option.split)
  have at: "field_value_of ?b k = v" "field_value_of ?r k = w"
    using assms(1) by (force simp: field_value_of_def map_add_def dest!: map_of_SomeD split: option.split)+
  have none: "List.map_filter (\<lambda>f. if field_value_of ?b f \<noteq> field_value_of ?r f
      then Some (hunk f (field_value_of ?b f) (field_value_of ?r f)) else None) fs = []"
    if "set fs \<subseteq> set (map fst xs) \<union> set (map fst ys)" for fs
    using that same by (induction fs) (auto simp: List.map_filter_simps)
  show ?thesis
    unfolding field_hunks_def keys
    using none [of "map fst xs"] none [of "map fst ys"] at assms(2)
    by (simp add: map_filter_append List.map_filter_simps)
qed

lemma sample_names_distinct: "distinct (map fst (before_name @ (units ''core.name'', v) # after_name))"
  by (simp add: before_name_def after_name_def custom_key_def minimum_quantity_def product_type_def flip: units_append)

lemma sample_pages:
  "resolve_page_identities sample_env R (sample_product n [[68]] []) = [page_identity R [68]]"
  "resolve_page_identities sample_env R (sample_product n [] []) = []"
  by (simp_all add: resolve_page_identities_def page_names_def sample_product_def unknown_elements_def advanced_blocks_def
      List.map_filter_simps one_unit)

lemma sample_compare: "je_compare sample_env s t = 0"
  by (simp add: sample_env_def)

lemma renamed_hunks:
  assumes "32 < n" "n < 160" "n \<noteq> k" "32 < k" "k < 160"
  shows "diff_comparison_projections sample_env (Some (build_comparison_projection sample_env [] R (sample_product [n] [] [])))
      (build_comparison_projection sample_env [] R (sample_product [k] [[68]] [])) =
    [hunk (units ''core.name'') (Some [n]) (Some [k]), hunk pages_field None (Some (page_identity R [68]))]"
  using field_hunks_one [OF sample_names_distinct, of "Some [n]" "Some [k]"] assms
  by (simp add: diff_comparison_projections_def sample_projection sample_pages page_hunks_def preserved_hunks_def
      first_occurrences_def List.map_filter_simps sort_by_def compare_hunks_def sample_compare)

lemma paged_hunks:
  assumes "32 < n" "n < 160"
  shows "diff_comparison_projections sample_env (Some (build_comparison_projection sample_env [] R (sample_product [n] [] [])))
      (build_comparison_projection sample_env [] R (sample_product [n] [[68]] [])) =
    [hunk pages_field None (Some (page_identity R [68]))]"
proof -
  have "field_hunks fs fs = []" for fs
    by (simp add: field_hunks_def List.map_filter_def)
  with assms show ?thesis
    by (simp add: diff_comparison_projections_def sample_projection sample_pages page_hunks_def preserved_hunks_def
        first_occurrences_def List.map_filter_simps sort_by_def compare_hunks_def sample_compare)
qed

section \<open>Its JSON\<close>

text \<open>Text of units below the surrogates is valid; so is everything the sample holds.\<close>

definition plain_text :: "code_units \<Rightarrow> bool" where
  "plain_text s \<longleftrightarrow> (\<forall>c \<in> set s. c < 55296)"

lemma plain_text_simps [simp]:
  "plain_text []" "plain_text (c # s) \<longleftrightarrow> c < 55296 \<and> plain_text s" "plain_text (s @ t) \<longleftrightarrow> plain_text s \<and> plain_text t"
  "plain_text (units u)"
  by (auto simp: plain_text_def units_def intro: less_trans [OF code_less_256])

lemma plain_text_valid: "plain_text s \<Longrightarrow> valid_unicode s"
  by (rule valid_unicode_ascii) (simp add: plain_text_def)

lemma json_ok_text: "plain_text s \<Longrightarrow> json_ok (V_string s)" "(\<And>s. v = Some s \<Longrightarrow> plain_text s) \<Longrightarrow> json_ok (nullable_string v)"
  by (auto simp: nullable_string_def plain_text_valid split: option.split)

lemma json_ok_plain_object: "\<forall>p \<in> set ps. plain_text (fst p) \<and> json_ok (snd p) \<Longrightarrow> json_ok (plain_object ps)"
  unfolding plain_object_def by (intro json_ok_object) (auto simp: plain_text_valid)

lemma json_ok_sample_product:
  assumes "plain_text n" and "\<forall>p \<in> set ps. plain_text p"
  shows "json_ok (product_value (sample_product n ps []))"
  unfolding product_value_def core_value_def shopsite_value_def metadata_value_def text_record_def
  using assms
  by (auto intro!: json_ok_object_of json_ok_plain_array json_ok_plain_object
      simp: sample_product_def plain_text_valid nullable_string_def nullable_int_def max_safe_integer_def
        high_surrogate_def low_surrogate_def)

lemma sample_stored:
  "plain_text n \<Longrightarrow> \<forall>p \<in> set ps. plain_text p \<Longrightarrow> stored_product (sample_product n ps []) = Inr (Readable (sample_product n ps []))"
  using json_ok_sample_product [of n ps] by (auto simp: json_ok_def stored_product_def is_ok_iff)

lemma plain_type: "plain_text (comparison_key id (units ''Tangible''))"
  by (simp add: comparison_key_def canonical_form_def trim_units_def lower_units_def is_space_unit_def lower_unit_def
      units_def code_def)

lemma sample_hash:
  assumes "32 < n" and "n < 160" and "\<forall>v \<in> set (resolve_page_identities sample_env R (sample_product [n] ps [])). plain_text v"
  shows "\<exists>h. hash_comparison_projection (build_comparison_projection sample_env [] R (sample_product [n] ps [])) = Inr h"
proof -
  have "\<forall>p \<in> set (before_name @ (units ''core.name'', Some [n]) # after_name). plain_text (fst p) \<and> (\<forall>v. snd p = Some v \<longrightarrow> plain_text v)"
    using assms(1,2)
    by (auto simp: before_name_def after_name_def custom_key_def minimum_quantity_def product_type_def plain_type)
  then have "json_ok (projection_value (build_comparison_projection sample_env [] R (sample_product [n] ps [])))"
    unfolding projection_value_def sample_projection [OF assms(1,2)] using assms(3)
    by (force intro!: json_ok_plain_object json_ok_plain_array [unfolded plain_array_def] json_ok_text
        simp: plain_text_valid catalog_comparison_projection_version_def nullable_string_def
        high_surrogate_def low_surrogate_def split: option.split simp flip: map_map)
  then have "is_ok (hash_canonical_json (projection_value (build_comparison_projection sample_env [] R (sample_product [n] ps []))))"
    by (simp add: json_ok_def hash_canonical_json_sha sha.content_hash_fails_iff)
  then show ?thesis by (simp add: is_ok_iff hash_comparison_projection_def)
qed

section \<open>Its finding\<close>

definition checked_hunks :: "field_hunk list" where
  "checked_hunks = diff_comparison_projections sample_env (Some (check_projection sample_check sample_baseline))
     (check_projection sample_check sample_remote)"

lemma checked_hunks: "checked_hunks =
    [hunk (units ''core.name'') (Some [66]) (Some [67]), hunk pages_field None (Some (units ''id:'' @ [49]))]"
  unfolding checked_hunks_def check_projection_def sample_baseline_def sample_remote_def
  by (simp add: sample_check_def renamed_hunks page_identity_def)

lemma sample_products_stored:
  "stored_product sample_baseline = Inr (Readable sample_baseline)" "stored_product sample_remote = Inr (Readable sample_remote)"
  by (simp_all add: sample_baseline_def sample_remote_def sample_stored)

lemma json_ok_sample_record: "json_ok (diff_record sample_check (Some sample_baseline) (pr_sku sample_remote) checked_hunks)"
proof -
  have "json_ok (hunk_value h)" if "h \<in> set checked_hunks" for h
    using that unfolding hunk_value_def
    by (intro json_ok_object_of) (auto simp: checked_hunks pages_field_def plain_text_valid intro!: json_ok_text)
  then have hunks: "json_ok (plain_array (map hunk_value checked_hunks))"
    by (intro json_ok_plain_array) auto
  have ctx: "json_ok (context_value (dx_context sample_check))"
    unfolding context_value_def
    by (intro json_ok_object_of)
      (auto simp: sample_check_def build_comparison_context_def catalog_comparison_projection_version_def
        built_in_output_policy_version_def field_catalog_version_def plain_text_valid intro!: json_ok_text)
  show ?thesis
    unfolding diff_record_def
    by (intro json_ok_object_of)
      (use hunks ctx in \<open>auto simp: sample_check_def sample_baseline_def sample_remote_def sample_product_def plain_text_valid
        catalog_comparison_projection_version_def high_surrogate_def low_surrogate_def intro!: json_ok_text\<close>)
qed

lemma sample_input:
  "\<exists>input. finding_input sample_check (Some sample_baseline) sample_remote lh rh checked_hunks = Inr input"
proof -
  obtain c where "canonicalize_json (diff_record sample_check (Some sample_baseline) (pr_sku sample_remote) checked_hunks) = Inr c"
    using json_ok_sample_record by (auto simp: json_ok_def is_ok_iff)
  then show ?thesis by (simp add: finding_input_def sample_products_stored)
qed

text \<open>The finding and what its guards read.\<close>

lemma sample_finding_row:
  assumes "finding_input sample_check (Some sample_baseline) sample_remote lh rh checked_hunks = Inr input"
  defines "d \<equiv> new_drift input [9] []"
  shows "dr_id d = [9]" "dr_workspace d = [1]" "dr_sku d = [65]" "dr_status d = Open_drift" "dr_change_set d = None"
    "dr_local_hash d = lh" "dr_remote_hash d = rh" "dr_local_json d = Some (Readable sample_baseline)"
    "dr_remote_json d = Readable sample_remote"
    "\<exists>parsed. parse_drift_diff d = Some parsed \<and> pd_hunks parsed = checked_hunks \<and> pd_baseline_commit parsed = Some [99] \<and>
       pd_has_local parsed \<and> object_keys_distinct (pd_raw parsed) \<and>
       (\<forall>rows. \<not> stale_context (pd_context parsed) (current_context [1] (sample_world rows)))"
    "follows_check sample_check checked_hunks [] d"
proof -
  note facts = finding_input_fields [OF assms(1)]
  show "dr_id d = [9]" "dr_workspace d = [1]" "dr_sku d = [65]" "dr_status d = Open_drift" "dr_change_set d = None"
    "dr_local_hash d = lh" "dr_remote_hash d = rh" "dr_local_json d = Some (Readable sample_baseline)"
    "dr_remote_json d = Readable sample_remote"
    using facts by (simp_all add: d_def new_drift_def sample_check_def sample_remote_def sample_product_def)
  obtain c where c: "json_of (diff_record sample_check (Some sample_baseline) (pr_sku sample_remote) checked_hunks) = Some c"
    and diff: "di_diff_json input = Some (Readable c)" using facts by blast
  have same: "d\<lparr>dr_diff_json := Some (Readable c)\<rparr> = d"
    using diff by (simp add: d_def new_drift_def)
  obtain ctx where ctx: "json_of (context_value (dx_context sample_check)) = Some ctx"
    and parsed: "parse_drift_diff d = Some
      \<lparr>pd_hunks = checked_hunks, pd_baseline_commit = dx_commit sample_check, pd_baseline_source = dx_source sample_check,
       pd_baseline_dirty = dx_dirty sample_check, pd_projection_version = catalog_comparison_projection_version,
       pd_has_local = (Some sample_baseline \<noteq> None \<and> dr_local_json d \<noteq> None), pd_context = ctx, pd_raw = c\<rparr>"
    using diff_record_round_trip [OF c, of d] unfolding same by blast
  have "\<not> stale_context ctx (current_context [1] (sample_world rows))" for rows
    using context_round_trip(4) [OF ctx]
    by (simp add: current_context_def sample_world_def sample_check_def get_active_page_import_hash_def)
  with parsed diff_record_keys [OF c] \<open>dr_local_json d = Some (Readable sample_baseline)\<close>
  show "\<exists>parsed. parse_drift_diff d = Some parsed \<and> pd_hunks parsed = checked_hunks \<and> pd_baseline_commit parsed = Some [99] \<and>
       pd_has_local parsed \<and> object_keys_distinct (pd_raw parsed) \<and>
       (\<forall>rows. \<not> stale_context (pd_context parsed) (current_context [1] (sample_world rows)))"
    by (simp add: sample_check_def)
  have "visible_hunks sample_check (pr_sku sample_remote) rh [] checked_hunks = checked_hunks"
    by (simp add: visible_hunks_def find_hunk_ack_def)
  with written_follows_check [of sample_check "Some sample_baseline" sample_remote lh rh "[]" checked_hunks input "[9]" "[]"] assms(1)
  show "follows_check sample_check checked_hunks [] d"
    by (simp add: d_def sample_check_def build_comparison_context_def)
qed

section \<open>Its decisions\<close>

definition sample_request :: "string \<Rightarrow> code_units \<Rightarrow> resolve_input" where
  "sample_request decision field = \<lparr>ri_drift = [9], ri_field = field, ri_decision = units decision, ri_baseline = None,
     ri_remote = None, ri_expected_remote = None, ri_expected_commit = None, ri_actor = None\<rparr>"

definition name_field :: code_units where "name_field = units ''core.name''"

lemma find_sample: "dr_id d = [9] \<Longrightarrow> find_drift_by_id [9] (dw_rows (sample_world [d])) = Some d"
  by (simp add: find_drift_by_id_def sample_world_def)

lemma name_field_facts:
  "trim_units name_field \<noteq> []" "name_field \<noteq> pages_field" "is_supported_hunk_field name_field" "\<not> is_filename_field name_field"
  by (simp_all add: name_field_def trim_units_def is_space_unit_def pages_field_def is_supported_hunk_field_def
      is_filename_field_def seo_file_name_field_def custom_key_def starts_with_def units_def code_def)

lemma sample_guards:
  assumes "finding_input sample_check (Some sample_baseline) sample_remote lh rh checked_hunks = Inr input"
    and "parse_drift_diff (new_drift input [9] []) = Some parsed"
    and "units decision = units ''accept'' \<and> choice = Accept_hunk \<or> units decision = units ''reject'' \<and> choice = Reject_hunk"
  shows "hunk_guards sample_env [1] (sample_request decision name_field) (sample_world [new_drift input [9] []]) =
    Inr \<lparr>hc_decision = choice, hc_drift = new_drift input [9] [], hc_parsed = parsed, hc_index = 0,
      hc_hunk = hunk name_field (Some [66]) (Some [67])\<rparr>"
proof -
  let ?d = "new_drift input [9] []"
  note row = sample_finding_row [OF assms(1)]
  have parsed: "pd_hunks parsed = checked_hunks" "pd_baseline_commit parsed = Some [99]" "pd_has_local parsed"
    "\<not> stale_context (pd_context parsed) (current_context [1] (sample_world [?d]))"
    using row(10) assms(2) by auto
  have decision: "parse_decision (units decision) = Inr choice"
    using assms(3) by (auto simp: parse_decision_def)
  have chosen: "choose_hunk (sample_request decision name_field) checked_hunks = Inr (0, hunk name_field (Some [66]) (Some [67]))"
    using name_field_facts(2) by (auto simp: choose_hunk_def sample_request_def checked_hunks name_field_def)
  have fresh: "freshness_refusal [1] (sample_request decision name_field) ?d parsed (sample_world [?d]) = Inr ()"
    using parsed by (simp add: freshness_refusal_def sample_request_def head_moved_def sample_world_def sample_repo_def guard_res_def)
  have held: "held_reason_for_hunk ?d parsed name_field linked reviewed = None" for linked reviewed
    using row(4) parsed(3) name_field_facts(2) by (simp add: held_reason_for_hunk_def)
  have outstanding: "outstanding_finding [1] [9] (dw_rows (sample_world [?d])) = Inr ?d"
    using find_sample [OF row(1)] row(2,4) by (simp add: outstanding_finding_def is_outstanding_def)
  show ?thesis
    unfolding hunk_guards_def
    using outstanding assms(2) parsed(1) chosen fresh held decision name_field_facts
    by (simp add: sample_request_def guard_res_def hold_refusal_def)
qed

lemma sample_runs:
  assumes "finding_input sample_check (Some sample_baseline) sample_remote lh rh checked_hunks = Inr input"
  defines "w \<equiv> sample_world [new_drift input [9] []]"
  shows "\<exists>res w1. resolve_single_hunk sample_env sample_git [1] (sample_request ''reject'' name_field) [8] [7] w = (Inr res, w1) \<and>
      hr_decision res = Reject_hunk"
    and "\<exists>res w1. resolve_single_hunk sample_env sample_git [1] (sample_request ''accept'' name_field) [8] [7] w = (Inr res, w1) \<and>
      hr_decision res = Accept_hunk \<and> wr_head (dw_repo w1) = [100]"
proof -
  let ?d = "new_drift input [9] []" and ?m = "sample_product [67] [] []"
  note row = sample_finding_row [OF assms(1)]
  then obtain parsed where parsed: "parse_drift_diff ?d = Some parsed" by blast
  note guards = sample_guards [OF assms(1) parsed]
  show "\<exists>res w1. resolve_single_hunk sample_env sample_git [1] (sample_request ''reject'' name_field) [8] [7] w = (Inr res, w1) \<and>
      hr_decision res = Reject_hunk"
    using guards [of "''reject''" Reject_hunk] by (simp add: resolve_single_hunk_def w_def reject_hunk_def Let_def)
  have merged: "merge_accepted [1] name_field ?d w = Inr (?m, sample_remote)"
    using row(8,9) name_field_facts(4)
    by (simp add: merge_accepted_def readable_def guard_res_def sample_baseline_def sample_remote_def
        apply_single_field_hunk_def name_field_def sample_product_def)
  obtain hm where hm: "hash_comparison_projection (plain_projection sample_env ?m) = Inr hm"
    using sample_hash [of 67 "\<lambda>_. None" "[]"] by (auto simp: plain_projection_def sample_pages)
  obtain hr where hr: "hash_comparison_projection (plain_projection sample_env sample_remote) = Inr hr"
    using sample_hash [of 67 "\<lambda>_. None" "[[68]]"]
    by (auto simp: plain_projection_def sample_pages sample_remote_def page_identity_def lower_units_def lower_unit_def)
  have remaining: "diff_comparison_projections sample_env (Some (plain_projection sample_env ?m))
      (plain_projection sample_env sample_remote) = [hunk pages_field None (Some (page_identity (\<lambda>_. None) [68]))]"
    using paged_hunks [of 67 "\<lambda>_. None"] by (simp add: plain_projection_def sample_remote_def)
  have stored: "stored_product ?m = Inr (Readable ?m)"
    by (simp add: sample_stored)
  show "\<exists>res w1. resolve_single_hunk sample_env sample_git [1] (sample_request ''accept'' name_field) [8] [7] w = (Inr res, w1) \<and>
      hr_decision res = Accept_hunk \<and> wr_head (dw_repo w1) = [100]"
    using guards [of "''accept''" Accept_hunk] merged hm hr remaining stored name_field_facts(2)
    by (simp add: resolve_single_hunk_def w_def accept_hunk_def finish_accept_def Let_def write_product_file_def same_hunk_def
        commit_written_def git_add_def git_commit_def sample_git_def sample_world_def sample_repo_def AList.update_conv')
qed

section \<open>The properties at the sample\<close>

text \<open>The renamed product: the finding reads back with its two hunks.\<close>

theorem finding_round_trip_witness:
  "\<exists>input parsed. finding_input sample_check (Some sample_baseline) sample_remote None [] checked_hunks = Inr input \<and>
     parse_drift_diff (new_drift input [9] []) = Some parsed \<and>
     pd_hunks parsed = [hunk (units ''core.name'') (Some [66]) (Some [67]), hunk pages_field None (Some (units ''id:'' @ [49]))] \<and>
     pd_baseline_commit parsed = Some [99]"
proof -
  obtain input where input: "finding_input sample_check (Some sample_baseline) sample_remote None [] checked_hunks = Inr input"
    using sample_input by blast
  from finding_round_trip [OF input, of "[9]" "[]" "build_comparison_context None"] input show ?thesis
    by (auto simp: checked_hunks sample_check_def)
qed

text \<open>The rename rejected: the page hunk remains.\<close>

theorem rejected_hunk_stays_hidden_witness:
  "\<exists>d res w1. resolve_single_hunk sample_env sample_git [1] (sample_request ''reject'' name_field) [8] [7] (sample_world [d]) = (Inr res, w1) \<and>
     hr_remaining res = length (visible_hunks sample_check [65] [] (dw_acks w1) checked_hunks) \<and>
     dw_repo w1 = sample_repo \<and> dw_index w1 = []"
proof -
  obtain input where input: "finding_input sample_check (Some sample_baseline) sample_remote None [] checked_hunks = Inr input"
    using sample_input by blast
  let ?d = "new_drift input [9] []"
  note row = sample_finding_row [OF input]
  obtain res w1 where run: "resolve_single_hunk sample_env sample_git [1] (sample_request ''reject'' name_field) [8] [7]
      (sample_world [?d]) = (Inr res, w1)" and dec: "hr_decision res = Reject_hunk"
    using sample_runs(1) [OF input] by blast
  have found: "find_drift_by_id (ri_drift (sample_request ''reject'' name_field)) (dw_rows (sample_world [?d])) = Some ?d"
    using find_sample [OF row(1)] by (simp add: sample_request_def)
  have all: "checked_hunks = diff_comparison_projections (dx_env sample_check)
      (Some (check_projection sample_check sample_baseline)) (check_projection sample_check sample_remote)"
    by (simp add: checked_hunks_def sample_check_def)
  have follows: "follows_check sample_check checked_hunks (dw_acks (sample_world [?d])) ?d"
    using row(11) by (simp add: sample_world_def)
  from rejected_hunk_stays_hidden [OF found all follows run dec] run row(3,7) show ?thesis
    by (auto simp: sample_world_def)
qed


text \<open>The rename accepted: the page the check had verified cannot be accepted any more.\<close>

theorem accept_forgets_page_identities_witness:
  "\<exists>d res w1 e. hunk pages_field None (Some (units ''id:'' @ [49])) \<in> set checked_hunks \<and>
     \<not> is_unverified_page_value (Some (units ''id:'' @ [49])) \<and>
     resolve_single_hunk sample_env sample_git [1] (sample_request ''accept'' name_field) [8] [7] (sample_world [d]) = (Inr res, w1) \<and>
     resolve_single_hunk sample_env sample_git [1]
       ((sample_request ''accept'' pages_field)\<lparr>ri_remote := Some (Some (units ''name:'' @ [100]))\<rparr>) [6] [5] w1 = (Inl e, w1)"
proof -
  obtain input where input: "finding_input sample_check (Some sample_baseline) sample_remote None [] checked_hunks = Inr input"
    using sample_input by blast
  let ?d = "new_drift input [9] []"
    and ?next = "(sample_request ''accept'' pages_field)\<lparr>ri_remote := Some (Some (units ''name:'' @ [100]))\<rparr>"
  note row = sample_finding_row [OF input]
  obtain parsed where parsed: "parse_drift_diff ?d = Some parsed" "object_keys_distinct (pd_raw parsed)"
    using row(10) by blast
  obtain res w1 where run: "resolve_single_hunk sample_env sample_git [1] (sample_request ''accept'' name_field) [8] [7]
      (sample_world [?d]) = (Inr res, w1)" and dec: "hr_decision res = Accept_hunk"
    using sample_runs(2) [OF input] by blast
  have found: "find_drift_by_id (ri_drift (sample_request ''accept'' name_field)) (dw_rows (sample_world [?d])) = Some ?d"
    using find_sample [OF row(1)] by (simp add: sample_request_def)
  have request: "ri_drift ?next = ri_drift (sample_request ''accept'' name_field)" "ri_field ?next = pages_field"
    "ri_decision ?next = units ''accept''" "ri_remote ?next = Some (Some (units ''name:'' @ [100]))" "units ''name:'' @ [100] \<noteq> []"
    by (simp_all add: sample_request_def)
  have "hunk pages_field None (Some (units ''id:'' @ [49])) \<in> set checked_hunks" by (simp add: checked_hunks)
  moreover have "\<not> is_unverified_page_value (Some (units ''id:'' @ [49]))"
    by (simp add: is_unverified_page_value_def starts_with_def units_def code_def)
  ultimately show ?thesis
    using accept_forgets_page_identities [OF run dec found row(4) parsed refl request, of "[6]" "[5]"] run by blast
qed

text \<open>A finding recorded at the commit before HEAD, linked to a change set.\<close>

theorem moved_head_blocks_finding_witness:
  "\<exists>(d :: drift_row) w outcome w' e. dr_status d = In_reconcile \<and> wr_head (dw_repo w) = [100] \<and>
     detect_product (sample_check\<lparr>dx_commit := Some [100]\<rparr>) True [8] [7] sample_remote w = (outcome, w') \<and>
     dw_rows w' = dw_rows w \<and>
     resolve_single_hunk sample_env sample_git [1] (sample_request ''accept'' name_field) [6] [5] w' = (Inl e, w')"
proof -
  let ?x = "sample_check\<lparr>dx_commit := Some [100]\<rparr>"
  have sample_source: "dx_source sample_check = From_head" by (simp add: sample_check_def)
  obtain lh rh where lh: "hash_comparison_projection (check_projection ?x sample_baseline) = Inr lh"
    and rh: "hash_comparison_projection (check_projection ?x sample_remote) = Inr rh"
    using sample_hash [of 66 "dx_resolver sample_check" "[]"] sample_hash [of 67 "dx_resolver sample_check" "[[68]]"]
    by (auto simp: check_projection_def sample_check_def sample_pages sample_baseline_def sample_remote_def page_identity_def)
  obtain input where input: "finding_input sample_check (Some sample_baseline) sample_remote (Some (units lh)) (units rh) checked_hunks = Inr input"
    using sample_input by blast
  let ?d = "(new_drift input [9] [])\<lparr>dr_status := In_reconcile\<rparr>"
  let ?w = "(sample_world [?d])\<lparr>dw_repo := sample_repo\<lparr>wr_head := [100],
    wr_head_files := [(sku_to_product_file_path [65], Readable sample_baseline)]\<rparr>\<rparr>"
  note row = sample_finding_row [OF input]
  have sku: "pr_sku sample_remote = [65]" by (simp add: sample_remote_def sample_product_def)
  have one: "list_outstanding_drift_for_sku (dx_workspace ?x) (pr_sku sample_remote) (dw_rows ?w) = [?d]"
    by (simp add: list_outstanding_drift_for_sku_def sample_world_def is_outstanding_def at_product_def sku row sample_check_def)
  obtain parsed where parsed: "parse_drift_diff ?d = Some parsed" "pd_baseline_commit parsed = Some [99]"
    using row(10) by (auto simp: parse_drift_diff_def raw_diff_def)
  then have moved: "head_moved (dw_repo ?w) (pd_baseline_commit parsed)"
    by (simp add: head_moved_def sample_world_def sample_repo_def present_def)
  have hashes: "observed_hashes ?x (read_pinned_baseline (dx_source ?x) (pr_sku sample_remote) (dw_repo ?w)) sample_remote =
      Inr (dr_local_hash ?d, dr_remote_hash ?d)"
    by (simp add: observed_hashes_def read_pinned_baseline_def read_file_at_head_def readable_def sample_source sku row lh rh)
  obtain outcome w' where check: "detect_product ?x True [8] [7] sample_remote ?w = (outcome, w')" by fastforce
  have "clear_matched_open_drift (dx_workspace ?x) (pr_sku sample_remote) (dw_rows ?w) = dw_rows ?w"
    by (simp add: clear_matched_open_drift_def sample_world_def)
  then have kept: "?d \<in> set (dw_rows w')"
    using recheck_cases [OF one hashes check] by (auto simp: sample_world_def)
  have found: "find_drift_by_id (dr_id ?d) (dw_rows ?w) = Some ?d"
    by (simp add: find_drift_by_id_def sample_world_def)
  have request: "ri_drift (sample_request ''accept'' name_field) = dr_id ?d"
    by (simp add: sample_request_def row)
  have state: "dr_status ?d = In_reconcile" "wr_head (dw_repo ?w) = [100]" by simp_all
  from moved_head_blocks_finding [OF one found parsed(1) moved hashes check kept request, of sample_env sample_git "[1]" "[6]" "[5]"]
  obtain e where same: "dw_rows w' = dw_rows ?w"
    and refused: "resolve_single_hunk sample_env sample_git [1] (sample_request ''accept'' name_field) [6] [5] w' = (Inl e, w')"
    by auto
  show ?thesis
    by (rule exI [where x = ?d], rule exI [where x = ?w], rule exI [where x = outcome], rule exI [where x = w'],
        rule exI [where x = e]) (intro conjI state check same refused)
qed

text \<open>The finding accepted whole, in a repository.\<close>

theorem accepted_product_settles_witness:
  "\<exists>d p w1. accept_remote_for_drift sample_env sample_git d [7] (sample_world [d]) = (Inr (p, Some [100]), w1) \<and>
     read_product_file (pr_sku p) (dw_repo w1) = Some (Readable p) \<and>
     read_file_at_head (sku_to_product_file_path (pr_sku p)) (dw_repo w1) = Some (Readable p)"
proof -
  obtain input where input: "finding_input sample_check (Some sample_baseline) sample_remote None [] checked_hunks = Inr input"
    using sample_input by blast
  let ?d = "new_drift input [9] []"
  note row = sample_finding_row [OF input]
  have product: "pr_sku sample_remote = [65]" "pr_sku sample_baseline = [65]" "co_price (pr_core sample_baseline) = None"
    "co_sale_price (pr_core sample_baseline) = None" "co_price (pr_core sample_remote) = None"
    "co_sale_price (pr_core sample_remote) = None"
    by (simp_all add: sample_remote_def sample_baseline_def sample_product_def)
  have name: "custom_file_name sample_remote = None" "se_file_name (co_seo (pr_core sample_remote)) = None"
    by (simp_all add: sample_remote_def sample_product_def custom_file_name_def)
  have guards: "accept_remote_guards ?d (sample_world [?d]) = Inr sample_remote"
    using row(8,9) product name
    by (simp add: accept_remote_guards_def guard_res_def readable_def read_product_file_def sample_world_def sample_repo_def
        normalize_file_name_def Let_def)
  obtain h where h: "comparison_hash_for_product sample_env [] (\<lambda>_. None) sample_remote = Inr h"
    using sample_hash [of 67 "\<lambda>_. None" "[[68]]"]
    by (auto simp: comparison_hash_for_product_def sample_pages sample_remote_def page_identity_def lower_units_def lower_unit_def)
  obtain w1 where run: "accept_remote_for_drift sample_env sample_git ?d [7] (sample_world [?d]) = (Inr (sample_remote, Some [100]), w1)"
    using guards h sample_products_stored(2)
    by (simp add: accept_remote_for_drift_def write_product_file_def Let_def sample_world_def sample_repo_def index_synced_def
        find_product_by_sku_def insert_product_index_def commit_remote_def git_add_def git_commit_def sample_git_def
        AList.update_conv' product)
  from accepted_product_settles [OF run] run show ?thesis by blast
qed

end
