(* ===== verification/StageVocabulary.thy ===== *)
theory StageVocabulary
  imports Prelude
begin

text \<open>
  The onboarding stage vocabulary (\<open>src/src/shared/onboarding-stage-vocabulary.ts\<close>): the two
  spellings of a pipeline stage, the maps between them, and the parsers every reader and writer
  of a stored stage goes through. A literal that is no stage is an error value, never coerced.
\<close>

section \<open>The two vocabularies\<close>

datatype stage_v1 = Sourcing | Discovery | Extraction | Curation | Review | Promotion

datatype stage_v2 =
    Route_sources | Find_product_page | Collect_details
  | Prepare_listing | Review_listings | Create_drafts

definition stage_order_v1 :: "stage_v1 list" where
  "stage_order_v1 = [Sourcing, Discovery, Extraction, Curation, Review, Promotion]"

definition stage_order_v2 :: "stage_v2 list" where
  "stage_order_v2 =
     [Route_sources, Find_product_page, Collect_details, Prepare_listing, Review_listings,
      Create_drafts]"

fun v1_literal :: "stage_v1 \<Rightarrow> string" where
  "v1_literal Sourcing = ''sourcing''"
| "v1_literal Discovery = ''discovery''"
| "v1_literal Extraction = ''extraction''"
| "v1_literal Curation = ''curation''"
| "v1_literal Review = ''review''"
| "v1_literal Promotion = ''promotion''"

fun v2_literal :: "stage_v2 \<Rightarrow> string" where
  "v2_literal Route_sources = ''route_sources''"
| "v2_literal Find_product_page = ''find_product_page''"
| "v2_literal Collect_details = ''collect_details''"
| "v2_literal Prepare_listing = ''prepare_listing''"
| "v2_literal Review_listings = ''review_listings''"
| "v2_literal Create_drafts = ''create_drafts''"

fun v1_to_v2 :: "stage_v1 \<Rightarrow> stage_v2" where
  "v1_to_v2 Sourcing = Route_sources"
| "v1_to_v2 Discovery = Find_product_page"
| "v1_to_v2 Extraction = Collect_details"
| "v1_to_v2 Curation = Prepare_listing"
| "v1_to_v2 Review = Review_listings"
| "v1_to_v2 Promotion = Create_drafts"

fun v2_to_v1 :: "stage_v2 \<Rightarrow> stage_v1" where
  "v2_to_v1 Route_sources = Sourcing"
| "v2_to_v1 Find_product_page = Discovery"
| "v2_to_v1 Collect_details = Extraction"
| "v2_to_v1 Prepare_listing = Curation"
| "v2_to_v1 Review_listings = Review"
| "v2_to_v1 Create_drafts = Promotion"

section \<open>Values and errors\<close>

text \<open>
  A value of TypeScript type \<open>unknown\<close>: the parsers only ask whether it is a string and which.
\<close>

datatype unknown_value = UString string | UOther

datatype vocabulary_error =
    Unknown_stage | Mixed_version | Step_zero_not_a_stage | Invalid_version

definition step_zero_view_id :: string where
  "step_zero_view_id = ''brand-setup''"

definition is_step_zero_view :: "unknown_value \<Rightarrow> bool" where
  "is_step_zero_view v = (v = UString step_zero_view_id)"

text \<open>
  \<open>isStageV1String\<close> and \<open>isStageV2String\<close> are type guards; the model returns the stage that
  the accepted string denotes, found in the order array.
\<close>

definition as_stage_v1 :: "unknown_value \<Rightarrow> stage_v1 option" where
  "as_stage_v1 v =
     (case v of UString s \<Rightarrow> find (\<lambda>st. v1_literal st = s) stage_order_v1 | UOther \<Rightarrow> None)"

definition as_stage_v2 :: "unknown_value \<Rightarrow> stage_v2 option" where
  "as_stage_v2 v =
     (case v of UString s \<Rightarrow> find (\<lambda>st. v2_literal st = s) stage_order_v2 | UOther \<Rightarrow> None)"

section \<open>The parsers\<close>

definition to_canonical_stage :: "unknown_value \<Rightarrow> (vocabulary_error, stage_v2) result" where
  "to_canonical_stage v =
     (if is_step_zero_view v then Inl Step_zero_not_a_stage
      else case as_stage_v2 v of
        Some s \<Rightarrow> Inr s
      | None \<Rightarrow> (case as_stage_v1 v of
          Some s \<Rightarrow> Inr (v1_to_v2 s)
        | None \<Rightarrow> Inl Unknown_stage))"

definition to_stored_stage :: "unknown_value \<Rightarrow> (vocabulary_error, stage_v1) result" where
  "to_stored_stage v =
     (if is_step_zero_view v then Inl Step_zero_not_a_stage
      else case as_stage_v1 v of
        Some s \<Rightarrow> Inr s
      | None \<Rightarrow> (case as_stage_v2 v of
          Some s \<Rightarrow> Inr (v2_to_v1 s)
        | None \<Rightarrow> Inl Unknown_stage))"

definition parse_v2_stage_input :: "unknown_value \<Rightarrow> (vocabulary_error, stage_v2) result" where
  "parse_v2_stage_input v =
     (if is_step_zero_view v then Inl Step_zero_not_a_stage
      else case as_stage_v2 v of
        Some s \<Rightarrow> Inr s
      | None \<Rightarrow> (case as_stage_v1 v of
          Some _ \<Rightarrow> Inl Invalid_version
        | None \<Rightarrow> Inl Unknown_stage))"

text \<open>\<open>Array.indexOf\<close>: the first position of the stage; \<open>None\<close> stands for \<open>-1\<close>.\<close>

fun index_of :: "'a \<Rightarrow> 'a list \<Rightarrow> nat option" where
  "index_of x [] = None"
| "index_of x (y # ys) = (if x = y then Some 0 else map_option Suc (index_of x ys))"

definition stage_v2_index :: "stage_v2 \<Rightarrow> nat" where
  "stage_v2_index s = the (index_of s stage_order_v2)"

text \<open>
  \<open>assertStageBijection\<close>: the length check, then one pass over the six positions with the set
  of v2 stages seen so far.
\<close>

fun bijection_loop ::
    "(stage_v1 \<times> stage_v2) list \<Rightarrow> stage_v2 set \<Rightarrow> (vocabulary_error, unit) result" where
  "bijection_loop [] seen = Inr ()"
| "bijection_loop ((a, b) # rest) seen =
     (if v1_to_v2 a \<noteq> b \<or> v2_to_v1 b \<noteq> a \<or> b \<in> seen then Inl Unknown_stage
      else bijection_loop rest (insert b seen))"

definition assert_stage_bijection :: "(vocabulary_error, unit) result" where
  "assert_stage_bijection =
     (if length stage_order_v1 \<noteq> 6 \<or> length stage_order_v2 \<noteq> 6 then Inl Unknown_stage
      else bijection_loop (zip stage_order_v1 stage_order_v2) {})"

section \<open>Facts about the tables\<close>

lemma v2_to_v1_to_v2 [simp]: "v1_to_v2 (v2_to_v1 s) = s"
  by (cases s) simp_all

lemma v1_to_v2_to_v1 [simp]: "v2_to_v1 (v1_to_v2 s) = s"
  by (cases s) simp_all

lemma as_stage_v1_literal [simp]: "as_stage_v1 (UString (v1_literal a)) = Some a"
  by (cases a) (simp_all add: as_stage_v1_def stage_order_v1_def)

lemma as_stage_v2_literal [simp]: "as_stage_v2 (UString (v2_literal b)) = Some b"
  by (cases b) (simp_all add: as_stage_v2_def stage_order_v2_def)

lemma as_stage_v1_of_v2 [simp]: "as_stage_v1 (UString (v2_literal b)) = None"
  by (cases b) (simp_all add: as_stage_v1_def stage_order_v1_def)

lemma as_stage_v2_of_v1 [simp]: "as_stage_v2 (UString (v1_literal a)) = None"
  by (cases a) (simp_all add: as_stage_v2_def stage_order_v2_def)

lemma v1_literal_inj [simp]: "v1_literal a = v1_literal b \<longleftrightarrow> a = b"
  by (metis as_stage_v1_literal option.inject)

lemma v2_literal_inj [simp]: "v2_literal a = v2_literal b \<longleftrightarrow> a = b"
  by (metis as_stage_v2_literal option.inject)

lemma v1_v2_literal_distinct [simp]:
  "v1_literal a \<noteq> v2_literal b" "v2_literal b \<noteq> v1_literal a"
  by (metis as_stage_v1_literal as_stage_v1_of_v2 option.distinct(1))+

lemma as_stage_v1_Some: "as_stage_v1 v = Some a \<longleftrightarrow> v = UString (v1_literal a)"
proof
  assume "as_stage_v1 v = Some a"
  then show "v = UString (v1_literal a)"
    by (cases v) (auto simp: as_stage_v1_def dest: find_Some_set)
qed simp

lemma as_stage_v2_Some: "as_stage_v2 v = Some b \<longleftrightarrow> v = UString (v2_literal b)"
proof
  assume "as_stage_v2 v = Some b"
  then show "v = UString (v2_literal b)"
    by (cases v) (auto simp: as_stage_v2_def dest: find_Some_set)
qed simp

lemma not_step_zero_v1 [simp]: "is_step_zero_view (UString (v1_literal a)) = False"
  by (cases a) (simp_all add: is_step_zero_view_def step_zero_view_id_def)

lemma not_step_zero_v2 [simp]: "is_step_zero_view (UString (v2_literal b)) = False"
  by (cases b) (simp_all add: is_step_zero_view_def step_zero_view_id_def)

lemma to_canonical_stage_Inr:
  "to_canonical_stage v = Inr s \<longleftrightarrow>
     v = UString (v2_literal s) \<or> v = UString (v1_literal (v2_to_v1 s))"
  by (auto simp: to_canonical_stage_def as_stage_v1_Some as_stage_v2_Some
      split: option.splits if_splits)

lemma to_stored_stage_Inr:
  "to_stored_stage v = Inr s \<longleftrightarrow>
     v = UString (v1_literal s) \<or> v = UString (v2_literal (v1_to_v2 s))"
  by (auto simp: to_stored_stage_def as_stage_v1_Some as_stage_v2_Some
      split: option.splits if_splits)

section \<open>The interface of a stage reader\<close>

text \<open>
  What every consumer of stored stages relies on: a reader that turns raw values into stages and
  a writer that turns a stage into its literal, such that whatever was written is read back, and
  every accepted value agrees with the literal of what it was read as.
\<close>

locale stage_codec =
  fixes read :: "unknown_value \<Rightarrow> ('e, 's) result"
    and literal :: "'s \<Rightarrow> string"
  assumes read_literal: "read (UString (literal s)) = Inr s"
begin

lemma literal_inj: "literal s = literal t \<longleftrightarrow> s = t"
  by (metis read_literal sum.inject(2))

lemma read_idem:
  "read v = Inr s \<Longrightarrow> read (UString (literal s)) = read v"
  by (simp add: read_literal)

text \<open>Rewriting a stored value to its canonical literal never changes what a reader sees.\<close>

lemma normalise_stable:
  assumes "list_all (\<lambda>v. is_ok (read v)) vs"
  shows "map (\<lambda>v. read (case read v of Inl _ \<Rightarrow> v | Inr s \<Rightarrow> UString (literal s))) vs = map read vs"
  using assms by (induction vs) (auto simp: read_literal is_ok_def split: sum.splits)

end

interpretation canonical: stage_codec to_canonical_stage v2_literal
  by unfold_locales (simp add: to_canonical_stage_Inr)

interpretation stored: stage_codec to_stored_stage v1_literal
  by unfold_locales (simp add: to_stored_stage_Inr)

interpretation strict: stage_codec parse_v2_stage_input v2_literal
  by unfold_locales (simp add: parse_v2_stage_input_def)

section \<open>Properties\<close>

text \<open>
  Dual read, single write: a raw value is accepted by the canonical reader exactly when the
  storage reader accepts it, the two answers correspond under the vocabulary maps, and reading
  back either stored spelling of the canonical stage gives that stage again. Everything else,
  Step 0 included, is refused by both with the same error.
\<close>

theorem canonical_stored_agree:
  "to_canonical_stage v = map_sum id v1_to_v2 (to_stored_stage v) \<and>
   to_stored_stage v = map_sum id v2_to_v1 (to_canonical_stage v) \<and>
   to_canonical_stage (UString (v1_literal (v2_to_v1 s))) = Inr s \<and>
   to_canonical_stage (UString (v2_literal s)) = Inr s"
  by (auto simp: to_canonical_stage_def to_stored_stage_def as_stage_v1_Some as_stage_v2_Some
      split: option.splits)

text \<open>
  The strict v2 parser refines the dual reader: it accepts a value exactly when the dual
  reader accepts it and it is not a legacy literal; a legacy literal is refused as an invalid
  version, never silently translated; Step 0 and unknown values keep their own errors.
\<close>

theorem strict_parser_cases:
  "parse_v2_stage_input v =
     (if is_step_zero_view v then Inl Step_zero_not_a_stage
      else if as_stage_v1 v \<noteq> None then Inl Invalid_version
      else to_canonical_stage v)"
  by (auto simp: parse_v2_stage_input_def to_canonical_stage_def as_stage_v1_Some
      as_stage_v2_Some split: option.splits)

end
