(* ===== verification/Gtin.thy ===== *)
theory Gtin
  imports Prelude
begin

text \<open>
  GTIN/UPC/EAN codes (\<open>src/src/shared/gtin.ts\<close>): digit normalisation, the GS1 mod-10 check
  digit, zero padding to fourteen digits, and the equivalence of codes that differ in leading
  zeros only.
\<close>

section \<open>Input values\<close>

text \<open>
  The functions take \<open>unknown\<close>: null or undefined, a string, or a number that \<open>String\<close> prints.
  \<open>JNum\<close> is a non-negative integer below \<open>10^21\<close>, where \<open>String\<close> prints plain digits.
\<close>

datatype js_scalar = JNull | JStr string | JNum nat

fun js_string_of :: "js_scalar \<Rightarrow> string" where
  "js_string_of JNull = ''null''"
| "js_string_of (JStr s) = s"
| "js_string_of (JNum n) = show_nat n"

section \<open>The functions of the file\<close>

definition valid_gtin_lengths :: "nat list" where
  "valid_gtin_lengths = [8, 12, 13, 14]"

definition normalize_gtin_digits :: "js_scalar \<Rightarrow> string" where
  "normalize_gtin_digits raw =
     (if raw = JNull then [] else filter is_digit (js_string_of raw))"

definition is_blank_string :: "js_scalar \<Rightarrow> bool" where
  "is_blank_string raw = (case raw of JStr s \<Rightarrow> trim s = [] | _ \<Rightarrow> False)"

definition normalize_gtin :: "js_scalar \<Rightarrow> string option" where
  "normalize_gtin raw =
     (if raw = JNull then None
      else if is_blank_string raw then None
      else let digits = normalize_gtin_digits raw
           in if length digits \<in> set valid_gtin_lengths then Some digits else None)"

text \<open>The loop over the body from right to left, with its running sum and weight.\<close>

fun checksum_loop :: "nat \<Rightarrow> nat \<Rightarrow> string \<Rightarrow> nat" where
  "checksum_loop acc weight [] = acc"
| "checksum_loop acc weight (c # cs) =
     checksum_loop (acc + digit_val c * weight) (if weight = 3 then 1 else 3) cs"

definition validate_gtin :: "js_scalar \<Rightarrow> bool" where
  "validate_gtin raw =
     (if raw = JNull then False
      else let digits = normalize_gtin_digits raw
           in if length digits \<notin> set valid_gtin_lengths then False
              else let body = butlast digits;
                       check = digit_val (last digits);
                       csum = checksum_loop 0 3 (rev body);
                       computed = (10 - csum mod 10) mod 10
                   in computed = check)"

definition pad_gtin_to_14 :: "js_scalar \<Rightarrow> string option" where
  "pad_gtin_to_14 raw =
     (case normalize_gtin raw of
        None \<Rightarrow> None
      | Some norm \<Rightarrow> Some (pad_start 14 CHR ''0'' norm))"

definition canonical_gtin_match :: "js_scalar \<Rightarrow> js_scalar \<Rightarrow> bool" where
  "canonical_gtin_match gtin_a gtin_b =
     (let a = normalize_gtin_digits gtin_a; b = normalize_gtin_digits gtin_b
      in if a = [] \<or> b = [] then False
         else if a = b then True
         else if length a = 12 \<and> (b = ''0'' @ a \<or> b = ''00'' @ a) then True
         else if length b = 12 \<and> (a = ''0'' @ b \<or> a = ''00'' @ b) then True
         else if length a = 13 \<and> b = ''0'' @ a then True
         else if length b = 13 \<and> a = ''0'' @ b then True
         else False)"

section \<open>The check digit as one weighted sum\<close>

fun weighted :: "nat \<Rightarrow> string \<Rightarrow> nat" where
  "weighted w [] = 0"
| "weighted w (c # cs) = digit_val c * w + weighted (if w = 3 then 1 else 3) cs"

lemma checksum_loop_weighted: "checksum_loop t w cs = t + weighted w cs"
  by (induction cs arbitrary: t w) auto

lemma normalize_digits_all [simp]: "list_all is_digit (normalize_gtin_digits raw)"
  by (simp add: normalize_gtin_digits_def list_all_iff)

lemma normalize_digits_id: "list_all is_digit s \<Longrightarrow> normalize_gtin_digits (JStr s) = s"
  by (simp add: normalize_gtin_digits_def list_all_iff)

lemma mod_10_check:
  fixes c n :: nat
  assumes "c < 10"
  shows "(10 - n mod 10) mod 10 = c \<longleftrightarrow> (c + n) mod 10 = 0"
proof -
  define m where "m = n mod 10"
  have m: "m < 10" and cn: "(c + n) mod 10 = (c + m) mod 10"
    by (simp_all add: m_def mod_add_right_eq)
  have "(c + m) mod 10 = (if c + m < 10 then c + m else c + m - 10)"
    using assms m by (simp add: mod_if)
  moreover have "(10 - m) mod 10 = (if m = 0 then 0 else 10 - m)"
    using m by simp
  ultimately show ?thesis
    using assms m unfolding cn m_def [symmetric] by auto
qed

text \<open>The code is valid when the sum over all digits, check digit included, is divisible by ten.\<close>

lemma validate_gtin_weighted:
  assumes "list_all is_digit s"
  shows "validate_gtin (JStr s) \<longleftrightarrow>
    length s \<in> set valid_gtin_lengths \<and> weighted 1 (rev s) mod 10 = 0"
proof (cases "length s \<in> set valid_gtin_lengths")
  case True
  then have "s \<noteq> []"
    by (auto simp: valid_gtin_lengths_def)
  then have s: "s = butlast s @ [last s]"
    by simp
  have c: "digit_val (last s) < 10"
    using assms \<open>s \<noteq> []\<close> by (auto simp: list_all_iff intro: digit_val_less_10)
  have "weighted 1 (rev s) = digit_val (last s) + weighted 3 (rev (butlast s))"
    by (subst s) simp
  with True show ?thesis
    by (simp add: validate_gtin_def normalize_digits_id [OF assms] checksum_loop_weighted
        mod_10_check [OF c] Let_def)
next
  case False
  then show ?thesis
    by (simp add: validate_gtin_def normalize_digits_id [OF assms])
qed

lemma digit_val_zero [simp]: "digit_val CHR ''0'' = 0" and is_digit_zero [simp]: "is_digit CHR ''0''"
  by (simp_all add: digit_val_def is_digit_def code_def)

lemma weighted_append_zeros: "weighted w (cs @ replicate n CHR ''0'') = weighted w cs"
proof (induction cs arbitrary: w)
  case Nil
  show ?case by (induction n arbitrary: w) auto
qed auto

text \<open>Changing one digit changes the sum by that digit's weight times the difference.\<close>

lemma weighted_update:
  assumes "i < length cs" and "w = 1 \<or> w = 3"
  shows "\<exists>u. (u = 1 \<or> u = 3) \<and>
    weighted w (cs[i := d]) + digit_val (cs ! i) * u = weighted w cs + digit_val d * u"
  using assms
proof (induction cs arbitrary: i w)
  case (Cons c cs)
  show ?case
  proof (cases i)
    case 0
    with Cons.prems show ?thesis by (intro exI [of _ w]) auto
  next
    case (Suc j)
    then have "j < length cs" using Cons.prems by simp
    from Cons.IH [OF this, of "if w = 3 then 1 else 3"] Suc show ?thesis by auto
  qed
qed simp

lemma digit_error_mod_10:
  fixes x y u S T :: nat
  assumes "S + x * u = T + y * u" and "u = 1 \<or> u = 3" and "x < 10" and "y < 10"
    and "S mod 10 = 0" and "T mod 10 = 0"
  shows "x = y"
proof -
  obtain a b where "S = 10 * a" and "T = 10 * b"
    using assms(5,6) by (auto simp: mod_eq_0_iff_dvd elim!: dvdE)
  with assms(1-4) show ?thesis
    by (elim disjE; simp; presburger)
qed

section \<open>Properties\<close>

text \<open>
  The check digit detects every single-digit error: replacing any one digit of a valid code
  by a different digit gives a code that does not validate.
\<close>

theorem single_digit_error_detected:
  assumes "list_all is_digit s" and "validate_gtin (JStr s)"
    and "i < length s" and "is_digit d" and "d \<noteq> s ! i"
  shows "\<not> validate_gtin (JStr (s[i := d]))"
proof
  assume bad: "validate_gtin (JStr (s[i := d]))"
  have digits: "list_all is_digit (s[i := d])"
    using assms(1,4) by (auto simp: list_all_iff dest!: set_update_subset_insert [THEN subsetD])
  let ?j = "length s - Suc i"
  have r: "rev (s[i := d]) = (rev s)[?j := d]"
    using assms(3) by (simp add: rev_update)
  have nth: "rev s ! ?j = s ! i" and j: "?j < length (rev s)"
    using assms(3) by (simp_all add: rev_nth)
  obtain u where u: "u = 1 \<or> u = 3"
    "weighted 1 ((rev s)[?j := d]) + digit_val (rev s ! ?j) * u
       = weighted 1 (rev s) + digit_val d * u"
    using weighted_update [OF j, of 1 d] by auto
  have si: "is_digit (s ! i)"
    using assms(1,3) by (simp add: list_all_length)
  have "digit_val (s ! i) = digit_val d"
    using digit_error_mod_10 [OF u(2) u(1)] bad assms(2)
      digit_val_less_10 [OF si] digit_val_less_10 [OF assms(4)]
    by (simp add: validate_gtin_weighted assms(1) digits r nth)
  with si assms(4,5) show False
    by (simp add: digit_val_inj)
qed

theorem single_digit_error_detected_witness:
  "\<not> validate_gtin (JStr (''017800010009''[3 := CHR ''1'']))"
  by (rule single_digit_error_detected; code_simp)

text \<open>
  Padding to fourteen digits keeps validity: a normalised code and its padded form have the
  same check-digit verdict, and the padded form is itself a fourteen-digit code.
\<close>

theorem padding_preserves_validity:
  assumes "pad_gtin_to_14 raw = Some p"
  shows "length p = 14 \<and> normalize_gtin (JStr p) = Some p \<and>
    pad_gtin_to_14 (JStr p) = Some p \<and> (validate_gtin (JStr p) \<longleftrightarrow> validate_gtin raw)"
proof -
  from assms obtain d where d: "normalize_gtin raw = Some d" and p: "p = pad_start 14 CHR ''0'' d"
    by (auto simp: pad_gtin_to_14_def split: option.splits)
  from d have raw: "raw \<noteq> JNull" "d = normalize_gtin_digits raw" "length d \<in> set valid_gtin_lengths"
    by (auto simp: normalize_gtin_def Let_def split: if_splits)
  have len: "length p = 14"
    using raw(3) by (auto simp: p valid_gtin_lengths_def)
  have dig: "list_all is_digit d"
    using raw(2) by simp
  then have digp: "list_all is_digit p"
    by (auto simp: p pad_start_def list_all_iff)
  have "\<not> is_blank_string (JStr p)"
  proof -
    obtain c q where "p = q @ [c]" using len by (cases p rule: rev_cases) auto
    moreover have "\<not> is_space c" if "is_digit c" for c
      using that by (auto simp: is_digit_def is_space_def)
    ultimately show ?thesis
      using digp by (auto simp: is_blank_string_def trim_def dropWhile_append)
  qed
  then have norm: "normalize_gtin (JStr p) = Some p"
    using len by (simp add: normalize_gtin_def normalize_digits_id [OF digp] valid_gtin_lengths_def)
  have "validate_gtin raw = validate_gtin (JStr d)"
    using raw by (simp add: validate_gtin_def normalize_digits_id)
  moreover have "weighted 1 (rev p) = weighted 1 (rev d)"
    by (simp add: p pad_start_def weighted_append_zeros)
  ultimately show ?thesis
    using len norm raw(3)
    by (simp add: validate_gtin_weighted dig digp pad_gtin_to_14_def pad_start_def
        valid_gtin_lengths_def)
qed

theorem padding_preserves_validity_witness:
  "length ''00017800010009'' = 14 \<and> validate_gtin (JStr ''00017800010009'') =
     validate_gtin (JStr ''017800010009'')"
proof -
  have "pad_gtin_to_14 (JStr ''017800010009'') = Some ''00017800010009''"
    by code_simp
  from padding_preserves_validity [OF this] show ?thesis by simp
qed

text \<open>
  Code equivalence is equality after padding: on codes of twelve to fourteen digits the
  pairwise case analysis of \<open>canonicalGtinMatch\<close> decides exactly whether the fourteen-digit
  forms coincide, so on those codes it is an equivalence relation.
\<close>

theorem match_iff_padded_equal:
  assumes "normalize_gtin a = Some x" and "normalize_gtin b = Some y"
    and "length x \<noteq> 8" and "length y \<noteq> 8"
  shows "canonical_gtin_match a b \<longleftrightarrow> pad_gtin_to_14 a = pad_gtin_to_14 b"
proof -
  have ab: "normalize_gtin_digits a = x" "normalize_gtin_digits b = y"
    "length x \<in> {12, 13, 14}" "length y \<in> {12, 13, 14}"
    using assms by (auto simp: normalize_gtin_def valid_gtin_lengths_def Let_def split: if_splits)
  have rep: "replicate 2 z = [z, z]" "replicate (Suc 0) z = [z]" for z :: char
    by (simp_all add: numeral_2_eq_2)
  have ne: "x \<noteq> []" "y \<noteq> []"
    using ab(3,4) by auto
  have "canonical_gtin_match a b \<longleftrightarrow> pad_start 14 CHR ''0'' x = pad_start 14 CHR ''0'' y"
  proof (cases "length x = length y")
    case True
    have "y \<noteq> CHR ''0'' # x" "x \<noteq> CHR ''0'' # y" "y \<noteq> ''00'' @ x" "x \<noteq> ''00'' @ y"
      using True by (auto dest: arg_cong [where f = length])
    then show ?thesis
      using True ne by (simp add: canonical_gtin_match_def ab(1,2) pad_start_def)
  next
    case False
    then have xy: "x \<noteq> y" by auto
    have sym: "(u = v) = (v = u)" for u v :: string by auto
    have "length x = 12 \<and> length y = 13 \<or> length x = 12 \<and> length y = 14 \<or>
      length x = 13 \<and> length y = 14 \<or> length x = 13 \<and> length y = 12 \<or>
      length x = 14 \<and> length y = 12 \<or> length x = 14 \<and> length y = 13"
      using ab(3,4) False by auto
    then show ?thesis
      using ne xy
      by (elim disjE conjE; auto simp: canonical_gtin_match_def ab(1,2) pad_start_def rep)
  qed
  then show ?thesis
    by (simp add: pad_gtin_to_14_def assms)
qed

theorem match_iff_padded_equal_witness:
  "canonical_gtin_match (JStr ''017800010009'') (JStr ''0-0178000-10009'') \<longleftrightarrow>
     pad_gtin_to_14 (JStr ''017800010009'') = pad_gtin_to_14 (JStr ''0-0178000-10009'')"
proof -
  have "normalize_gtin (JStr ''017800010009'') = Some ''017800010009''"
    and "normalize_gtin (JStr ''0-0178000-10009'') = Some ''0017800010009''"
    by code_simp+
  from match_iff_padded_equal [OF this] show ?thesis by simp
qed

text \<open>
  An eight-digit code and its padded form have the same fourteen-digit representation but do not
  match: the equivalence covers the twelve, thirteen and fourteen digit forms only.
\<close>

lemma gtin8_padding_not_matched:
  "pad_gtin_to_14 (JStr ''12345670'') = pad_gtin_to_14 (JStr ''00000012345670'') \<and>
   \<not> canonical_gtin_match (JStr ''12345670'') (JStr ''00000012345670'')"
  by code_simp

end
