(* ===== verification/PaidEffectSchemas.thy ===== *)
theory PaidEffectSchemas
  imports JsonObjects
begin

text \<open>
  Schemas and pricing of paid effects (\<open>src/src/shared/schemas/paid-effect.ts\<close>). A schema is a
  parser: \<open>None\<close> is the \<open>ZodError\<close> the code throws, \<open>Some\<close> the parsed value, with identifiers
  trimmed. JavaScript records are association lists in key order; values that \<open>.strict()\<close> and the
  field types already exclude are not representable.
\<close>

section \<open>Field schemas\<close>

definition safe_nonnegative :: "int \<Rightarrow> bool" where
  "safe_nonnegative n \<longleftrightarrow> 0 \<le> n \<and> n \<le> max_safe_integer"

definition parse_identifier_upto :: "nat \<Rightarrow> string \<Rightarrow> string option" where
  "parse_identifier_upto n s = (let t = trim s in if 1 \<le> length t \<and> length t \<le> n then Some t else None)"

definition parse_identifier :: "string \<Rightarrow> string option" where
  "parse_identifier s = parse_identifier_upto 256 s"

definition is_letter :: "char \<Rightarrow> bool" where
  "is_letter c \<longleftrightarrow> (65 \<le> code c \<and> code c \<le> 90) \<or> (97 \<le> code c \<and> code c \<le> 122)"

text \<open>\<open>/^[A-Za-z][A-Za-z0-9_-]{0,63}$/\<close> and \<open>/^[A-Za-z0-9][A-Za-z0-9._:-]{0,127}$/\<close>.\<close>

definition dimension_name_ok :: "string \<Rightarrow> bool" where
  "dimension_name_ok s \<longleftrightarrow> (case s of [] \<Rightarrow> False
     | c # cs \<Rightarrow> is_letter c \<and> length cs \<le> 63 \<and>
         list_all (\<lambda>d. is_letter d \<or> is_digit d \<or> d \<in> {CHR ''_'', CHR ''-''}) cs)"

definition idempotency_key_ok :: "string \<Rightarrow> bool" where
  "idempotency_key_ok s \<longleftrightarrow> (case s of [] \<Rightarrow> False
     | c # cs \<Rightarrow> (is_letter c \<or> is_digit c) \<and> length cs \<le> 127 \<and>
         list_all (\<lambda>d. is_letter d \<or> is_digit d \<or> d \<in> {CHR ''.'', CHR ''_'', CHR '':'', CHR ''-''}) cs)"

section \<open>Data\<close>

datatype arm = Baseline | Candidate

datatype beneficiary_kind = Item_kind | Shared_kind | Run_kind

record beneficiary =
  ben_kind :: beneficiary_kind
  ben_id :: string

record qualification_scope =
  sc_run :: string
  sc_auth :: string
  sc_arm :: arm
  sc_output :: string
  sc_beneficiaries :: "beneficiary list"

record billing_dimension =
  dim_name :: string
  dim_unit :: string
  max_units :: int
  cumulative_max_units :: "int option"
  price_micros :: int
  price_units :: int

datatype usage_source = Provider_usage | Invoice | No_source

record billing_contract =
  con_schema :: int
  con_id :: string
  con_provider :: string
  con_model :: string
  con_dimensions :: "billing_dimension list"
  con_overhead :: int
  con_max_charge :: int
  con_source :: usage_source
  con_terms_hash :: string
  con_evidence_hash :: string
  con_evidence_ref :: string
  con_verified_by :: string
  con_verified_at :: string

record attempt_descriptor =
  de_key :: string
  de_logical :: string
  de_provider :: string
  de_model :: string
  de_effect :: string
  de_contract :: string
  de_contract_hash :: string
  de_units :: "(string \<times> int) list"

record authorization =
  au_schema :: int
  au_id :: string
  au_run :: string
  au_ceiling :: int
  au_arms :: "arm list"
  au_contracts :: "billing_contract list"

datatype 'a field = Absent | Null_value | Present 'a

datatype settlement =
    Authoritative string usage_source "(string \<times> int) list" int "int field"
  | Unknown_charge "(string \<times> js_number) list field" "int field"

section \<open>Canonical JSON of the data\<close>

fun arm_name :: "arm \<Rightarrow> string" where
  "arm_name Baseline = ''baseline''" | "arm_name Candidate = ''candidate''"

fun kind_name :: "beneficiary_kind \<Rightarrow> string" where
  "kind_name Item_kind = ''item''" | "kind_name Shared_kind = ''shared''" | "kind_name Run_kind = ''run''"

fun source_name :: "usage_source \<Rightarrow> string" where
  "source_name Provider_usage = ''provider_usage''" | "source_name Invoice = ''invoice''"
| "source_name No_source = ''none''"

definition beneficiaries_value :: "beneficiary list \<Rightarrow> js_value" where
  "beneficiaries_value bs =
     arr (map (\<lambda>b. obj [(''kind'', jstr (kind_name (ben_kind b))), (''id'', jstr (ben_id b))]) bs)"

definition scope_value :: "qualification_scope \<Rightarrow> js_value" where
  "scope_value s = obj [(''qualificationRunId'', jstr (sc_run s)), (''authorizationId'', jstr (sc_auth s)),
     (''arm'', jstr (arm_name (sc_arm s))), (''outputId'', jstr (sc_output s)),
     (''beneficiaries'', beneficiaries_value (sc_beneficiaries s))]"

definition dimension_value :: "billing_dimension \<Rightarrow> js_value" where
  "dimension_value d = obj ([(''name'', jstr (dim_name d)), (''unit'', jstr (dim_unit d)),
     (''maxUnits'', jint (max_units d))] @
     (case cumulative_max_units d of None \<Rightarrow> [] | Some m \<Rightarrow> [(''cumulativeMaxUnits'', jint m)]) @
     [(''priceMicros'', jint (price_micros d)), (''priceUnits'', jint (price_units d))])"

definition terms_fields :: "billing_contract \<Rightarrow> (string \<times> js_value) list" where
  "terms_fields c = [(''schemaVersion'', jint (con_schema c)), (''contractId'', jstr (con_id c)),
     (''provider'', jstr (con_provider c)), (''model'', jstr (con_model c)),
     (''dimensions'', arr (map dimension_value (con_dimensions c))),
     (''attemptOverheadMicros'', jint (con_overhead c)), (''maxChargeMicros'', jint (con_max_charge c)),
     (''authoritativeUsageSource'', jstr (source_name (con_source c)))]"

definition contract_value :: "billing_contract \<Rightarrow> js_value" where
  "contract_value c = obj (terms_fields c @
     [(''verifiedTermsHash'', jstr (con_terms_hash c)), (''verifiedEvidenceHash'', jstr (con_evidence_hash c)),
      (''verifiedEvidenceRef'', jstr (con_evidence_ref c)), (''verifiedBy'', jstr (con_verified_by c)),
      (''verifiedAt'', jstr (con_verified_at c))])"

definition descriptor_value :: "attempt_descriptor \<Rightarrow> js_value" where
  "descriptor_value d = obj [(''idempotencyKey'', jstr (de_key d)), (''logicalEffectId'', jstr (de_logical d)),
     (''provider'', jstr (de_provider d)), (''model'', jstr (de_model d)), (''effect'', jstr (de_effect d)),
     (''billingContractId'', jstr (de_contract d)), (''billingContractHash'', jstr (de_contract_hash d)),
     (''requestedUnits'', obj (map (\<lambda>(k, n). (k, jint n)) (de_units d)))]"

definition authorization_value :: "authorization \<Rightarrow> js_value" where
  "authorization_value a = obj [(''schemaVersion'', jint (au_schema a)), (''authorizationId'', jstr (au_id a)),
     (''qualificationRunId'', jstr (au_run a)), (''approvedCeilingMicros'', jint (au_ceiling a)),
     (''arms'', arr (map (jstr \<circ> arm_name) (au_arms a))),
     (''billingContracts'', arr (map contract_value (au_contracts a)))]"

definition field_value :: "string \<Rightarrow> ('a \<Rightarrow> js_value) \<Rightarrow> 'a field \<Rightarrow> (string \<times> js_value) list" where
  "field_value k f x = (case x of Absent \<Rightarrow> [] | Null_value \<Rightarrow> [(k, V_null)] | Present v \<Rightarrow> [(k, f v)])"

fun settlement_value :: "settlement \<Rightarrow> js_value" where
  "settlement_value (Authoritative ref src usage cost est) =
     obj ([(''kind'', jstr ''authoritative''), (''evidenceRef'', jstr ref), (''source'', jstr (source_name src)),
       (''rawUsage'', obj (map (\<lambda>(k, n). (k, jint n)) usage)), (''actualCostMicros'', jint cost)] @
       field_value ''estimatedCostMicros'' jint est)"
| "settlement_value (Unknown_charge usage est) =
     obj ([(''kind'', jstr ''unknown'')] @
       field_value ''rawUsage'' (\<lambda>u. obj (map (\<lambda>(k, n). (k, V_number n)) u)) usage @
       field_value ''estimatedCostMicros'' jint est)"

section \<open>Thrown values\<close>

datatype thrown = Zod_error | Js_error string | Canonical_error json_error

definition zod :: "'a option \<Rightarrow> (thrown, 'a) result" where
  "zod p = (case p of None \<Rightarrow> Inl Zod_error | Some a \<Rightarrow> Inr a)"

lemma zod_Inr [simp]: "zod p = Inr a \<longleftrightarrow> p = Some a"
  by (cases p) (simp_all add: zod_def)

lemma zod_Some [simp]: "zod (Some a) = Inr a"
  by simp

definition content_digest_of :: "js_value \<Rightarrow> (thrown, string) result" where
  "content_digest_of v = map_sum Canonical_error id (hash_canonical_json v)"

definition terms_hash :: "billing_contract \<Rightarrow> (thrown, string) result" where
  "terms_hash c = content_digest_of (obj (terms_fields c))"

section \<open>Object schemas\<close>

definition parse_beneficiary :: "beneficiary \<Rightarrow> beneficiary option" where
  "parse_beneficiary b =
     (case parse_identifier (ben_id b) of None \<Rightarrow> None | Some i \<Rightarrow> Some (b\<lparr>ben_id := i\<rparr>))"

fun all_some :: "'a option list \<Rightarrow> 'a list option" where
  "all_some [] = Some []"
| "all_some (None # xs) = None"
| "all_some (Some a # xs) = map_option ((#) a) (all_some xs)"

definition parse_beneficiaries :: "beneficiary list \<Rightarrow> beneficiary list option" where
  "parse_beneficiaries bs =
     (if bs = [] \<or> length bs > 256 then None else all_some (map parse_beneficiary bs))"

definition parse_scope :: "qualification_scope \<Rightarrow> qualification_scope option" where
  "parse_scope s =
     (case (parse_identifier (sc_run s), parse_identifier (sc_auth s), parse_identifier (sc_output s),
            parse_beneficiaries (sc_beneficiaries s)) of
        (Some r, Some a, Some out, Some bs) \<Rightarrow>
          if distinct (map (\<lambda>b. (ben_kind b, ben_id b)) bs)
          then Some (s\<lparr>sc_run := r, sc_auth := a, sc_output := out, sc_beneficiaries := bs\<rparr>)
          else None
      | _ \<Rightarrow> None)"

definition parse_dimension :: "billing_dimension \<Rightarrow> billing_dimension option" where
  "parse_dimension d =
     (case parse_identifier_upto 64 (dim_unit d) of
        Some u \<Rightarrow>
          if dimension_name_ok (dim_name d) \<and> safe_nonnegative (max_units d) \<and>
             pred_option safe_nonnegative (cumulative_max_units d) \<and>
             safe_nonnegative (price_micros d) \<and> safe_nonnegative (price_units d) \<and> 1 \<le> price_units d
          then Some (d\<lparr>dim_unit := u\<rparr>) else None
      | None \<Rightarrow> None)"

text \<open>One rounded-up charge: \<open>(q * price + units - 1) / units\<close> in \<open>BigInt\<close> division.\<close>

definition ceil_price :: "int \<Rightarrow> billing_dimension \<Rightarrow> int" where
  "ceil_price q d = (q * price_micros d + price_units d - 1) div price_units d"

definition maximum_charge :: "billing_contract \<Rightarrow> int" where
  "maximum_charge c = foldl (\<lambda>m d. m + ceil_price (max_units d) d) (con_overhead c) (con_dimensions c)"

definition parse_contract :: "billing_contract \<Rightarrow> billing_contract option" where
  "parse_contract c =
     (case (parse_identifier (con_id c), parse_identifier (con_provider c), parse_identifier (con_model c),
            all_some (map parse_dimension (con_dimensions c)),
            parse_identifier (con_evidence_ref c), parse_identifier (con_verified_by c)) of
        (Some i, Some p, Some m, Some ds, Some er, Some vb) \<Rightarrow>
          if con_schema c = 1 \<and> length ds \<le> 64 \<and> safe_nonnegative (con_overhead c) \<and>
             safe_nonnegative (con_max_charge c) \<and> is_sha256_hex (con_terms_hash c) \<and>
             is_sha256_hex (con_evidence_hash c)
          then let c' = c\<lparr>con_id := i, con_provider := p, con_model := m, con_dimensions := ds,
                          con_evidence_ref := er, con_verified_by := vb\<rparr>
               in if distinct (map dim_name ds) \<and> maximum_charge c' \<le> max_safe_integer \<and>
                     maximum_charge c' = con_max_charge c' \<and> terms_hash c' = Inr (con_terms_hash c')
                  then Some c' else None
          else None
      | _ \<Rightarrow> None)"

definition parse_descriptor :: "attempt_descriptor \<Rightarrow> attempt_descriptor option" where
  "parse_descriptor d =
     (case (parse_identifier (de_logical d), parse_identifier (de_provider d), parse_identifier (de_model d),
            parse_identifier (de_effect d), parse_identifier (de_contract d)) of
        (Some l, Some p, Some m, Some e, Some c) \<Rightarrow>
          if idempotency_key_ok (de_key d) \<and> is_sha256_hex (de_contract_hash d) \<and>
             list_all (safe_nonnegative \<circ> snd) (de_units d)
          then Some (d\<lparr>de_logical := l, de_provider := p, de_model := m, de_effect := e, de_contract := c\<rparr>)
          else None
      | _ \<Rightarrow> None)"

definition max_ceiling :: int where
  "max_ceiling = 3000000"

definition parse_authorization :: "authorization \<Rightarrow> authorization option" where
  "parse_authorization a =
     (case (parse_identifier (au_id a), parse_identifier (au_run a), all_some (map parse_contract (au_contracts a))) of
        (Some i, Some r, Some cs) \<Rightarrow>
          if au_schema a = 1 \<and> safe_nonnegative (au_ceiling a) \<and> au_ceiling a \<le> max_ceiling \<and>
             au_arms a \<noteq> [] \<and> length (au_arms a) \<le> 2 \<and> cs \<noteq> [] \<and> length cs \<le> 128 \<and>
             distinct (au_arms a) \<and> distinct (map con_id cs) \<and>
             distinct (map (\<lambda>c. (con_provider c, con_model c)) cs)
          then Some (a\<lparr>au_id := i, au_run := r, au_contracts := cs\<rparr>) else None
      | _ \<Rightarrow> None)"

fun raw_number_ok :: "js_number \<Rightarrow> bool" where
  "raw_number_ok Nan = False"
| "raw_number_ok (Infinite _) = False"
| "raw_number_ok Neg_zero = True"
| "raw_number_ok (Int_num i) = safe_nonnegative i"
| "raw_number_ok (Frac_num t) = (t = [] \<or> hd t \<noteq> 45)"

definition field_ok :: "('a \<Rightarrow> bool) \<Rightarrow> 'a field \<Rightarrow> bool" where
  "field_ok p x = (case x of Present v \<Rightarrow> p v | _ \<Rightarrow> True)"

fun parse_settlement :: "settlement \<Rightarrow> settlement option" where
  "parse_settlement (Authoritative ref src usage cost est) =
     (case parse_identifier ref of
        Some r \<Rightarrow>
          if src \<noteq> No_source \<and> list_all (safe_nonnegative \<circ> snd) usage \<and> safe_nonnegative cost \<and>
             field_ok safe_nonnegative est
          then Some (Authoritative r src usage cost est) else None
      | None \<Rightarrow> None)"
| "parse_settlement (Unknown_charge usage est) =
     (if field_ok (list_all (raw_number_ok \<circ> snd)) usage \<and> field_ok safe_nonnegative est
      then Some (Unknown_charge usage est) else None)"

section \<open>Pricing\<close>

fun charge_loop :: "(string \<times> int) list \<Rightarrow> int \<Rightarrow> billing_dimension list \<Rightarrow> (thrown, int) result" where
  "charge_loop usage t [] = Inr t"
| "charge_loop usage t (d # ds) =
     (case map_of usage (dim_name d) of
        None \<Rightarrow> Inl (Js_error (''paid_effect_usage_outside_contract:'' @ dim_name d))
      | Some q \<Rightarrow>
          if \<bar>q\<bar> > max_safe_integer \<or> q < 0 \<or> q > max_units d
          then Inl (Js_error (''paid_effect_usage_outside_contract:'' @ dim_name d))
          else charge_loop usage (t + ceil_price q d) ds)"

definition calculate_charge :: "billing_contract \<Rightarrow> (string \<times> int) list \<Rightarrow> (thrown, int) result" where
  "calculate_charge c usage =
     (case find (\<lambda>k. k \<notin> dim_name ` set (con_dimensions c)) (map fst usage) of
        Some k \<Rightarrow> Inl (Js_error (''paid_effect_unknown_billing_dimension:'' @ k))
      | None \<Rightarrow> bind_res (charge_loop usage (con_overhead c) (con_dimensions c)) (\<lambda>t.
          if t > max_safe_integer then Inl (Js_error ''paid_effect_cost_overflow'') else Inr t))"


section \<open>Lemmas\<close>

lemma trim_idem [simp]: "trim (trim s) = trim s"
proof -
  let ?f = "dropWhile is_space"
  have idem: "?f (?f t) = ?f t" for t
    by (metis dropWhile_eq_self_iff hd_dropWhile)
  moreover have "?f (rev (?f (rev (?f s)))) = rev (?f (rev (?f s)))"
  proof (cases "?f s")
    case (Cons c cs)
    then have c: "\<not> is_space c" by (metis hd_dropWhile list.distinct(1) list.sel(1))
    have "\<exists>ds. ?f (rev (c # cs)) = ds @ [c]"
      using c by (simp add: dropWhile_append split: if_splits)
    then show ?thesis using Cons c by auto
  next
    case Nil
    show ?thesis unfolding Nil by simp
  qed
  ultimately show ?thesis
    by (simp add: trim_def)
qed

lemma parse_identifier_idem: "parse_identifier_upto n s = Some t \<Longrightarrow> parse_identifier_upto n t = Some t"
  by (auto simp: parse_identifier_upto_def Let_def split: if_splits)

lemma all_some_iff: "all_some xs = Some ys \<longleftrightarrow> xs = map Some ys"
proof (induction xs arbitrary: ys rule: all_some.induct)
  case (1 ys)
  then show ?case by (cases ys) auto
next
  case (2 xs)
  then show ?case by (cases ys) auto
next
  case (3 a xs)
  then show ?case by (cases ys) auto
qed

lemma parse_dimension_Some:
  "parse_dimension d = Some e \<Longrightarrow> safe_nonnegative (max_units e) \<and> safe_nonnegative (price_micros e) \<and> 1 \<le> price_units e"
  by (auto simp: parse_dimension_def split: option.splits if_splits)

text \<open>What a parsed contract guarantees.\<close>

definition contract_ok :: "billing_contract \<Rightarrow> bool" where
  "contract_ok c \<longleftrightarrow> safe_nonnegative (con_overhead c) \<and>
     (\<forall>d \<in> set (con_dimensions c). safe_nonnegative (max_units d) \<and> safe_nonnegative (price_micros d) \<and> 1 \<le> price_units d) \<and>
     distinct (map dim_name (con_dimensions c)) \<and>
     maximum_charge c = con_max_charge c \<and> con_max_charge c \<le> max_safe_integer"

lemma parse_contract_ok: "parse_contract c = Some c' \<Longrightarrow> contract_ok c'"
proof -
  assume p: "parse_contract c = Some c'"
  then obtain ds where ds: "all_some (map parse_dimension (con_dimensions c)) = Some ds"
    and c': "con_dimensions c' = ds" "con_overhead c' = con_overhead c"
      "safe_nonnegative (con_overhead c)" "distinct (map dim_name ds)"
      "maximum_charge c' = con_max_charge c'" "con_max_charge c' \<le> max_safe_integer"
    by (auto simp: parse_contract_def Let_def safe_nonnegative_def split: option.splits if_splits)
  have "\<exists>d0. parse_dimension d0 = Some d" if "d \<in> set ds" for d
  proof -
    from that have "Some d \<in> set (map Some ds)" by simp
    then have "Some d \<in> set (map parse_dimension (con_dimensions c))"
      using ds by (simp only: all_some_iff)
    then show ?thesis by (auto dest: sym)
  qed
  then show ?thesis
    using c' parse_dimension_Some by (fastforce simp: contract_ok_def)
qed

lemma ceil_price_bounds:
  assumes "1 \<le> price_units d"
  shows "q * price_micros d \<le> ceil_price q d * price_units d \<and>
    ceil_price q d * price_units d < q * price_micros d + price_units d"
proof -
  let ?n = "q * price_micros d + price_units d - 1"
  have "?n = ceil_price q d * price_units d + ?n mod price_units d"
    by (simp add: ceil_price_def)
  moreover have "0 \<le> ?n mod price_units d" "?n mod price_units d < price_units d"
    using assms by simp_all
  ultimately show ?thesis by linarith
qed

lemma ceil_price_mono:
  assumes "1 \<le> price_units d" "0 \<le> price_micros d" "q \<le> r"
  shows "ceil_price q d \<le> ceil_price r d"
proof -
  have "q * price_micros d \<le> r * price_micros d"
    using assms by (simp add: mult_right_mono)
  then show ?thesis
    unfolding ceil_price_def using assms(1) by (intro zdiv_mono1) linarith+
qed

lemma ceil_price_nonneg:
  assumes "1 \<le> price_units d" "0 \<le> price_micros d" "0 \<le> q"
  shows "0 \<le> ceil_price q d"
proof -
  have "0 \<le> q * price_micros d" using assms by simp
  then show ?thesis
    unfolding ceil_price_def using assms(1) by (intro pos_imp_zdiv_nonneg_iff [THEN iffD2]) linarith+
qed

definition usage_fits :: "(string \<times> int) list \<Rightarrow> billing_dimension \<Rightarrow> bool" where
  "usage_fits usage d \<longleftrightarrow> (\<exists>q. map_of usage (dim_name d) = Some q \<and> 0 \<le> q \<and> q \<le> max_units d)"

definition quantity :: "(string \<times> int) list \<Rightarrow> billing_dimension \<Rightarrow> int" where
  "quantity usage d = (case map_of usage (dim_name d) of Some q \<Rightarrow> q | None \<Rightarrow> 0)"

lemma charge_loop_spec:
  assumes "\<forall>d \<in> set ds. max_units d \<le> max_safe_integer"
  shows "charge_loop usage t ds = Inr n \<longleftrightarrow>
    (\<forall>d \<in> set ds. usage_fits usage d) \<and> n = t + (\<Sum>d\<leftarrow>ds. ceil_price (quantity usage d) d)"
  using assms
proof (induction usage t ds rule: charge_loop.induct)
  case (2 usage t d ds)
  then show ?case
    by (cases "map_of usage (dim_name d)") (auto simp: usage_fits_def quantity_def)
qed auto

lemma foldl_charge: "foldl (\<lambda>m d. m + f d) (t :: int) ds = t + (\<Sum>d\<leftarrow>ds. f d)"
  by (induction ds arbitrary: t) simp_all

lemma sum_list_le: "(\<And>x. x \<in> set xs \<Longrightarrow> f x \<le> g x) \<Longrightarrow> (\<Sum>x\<leftarrow>xs. f x) \<le> (\<Sum>x\<leftarrow>xs. g x :: int)"
  by (induction xs) (auto simp: add_mono)

lemma charge_bounds:
  assumes ok: "contract_ok c" and fits: "\<forall>d \<in> set (con_dimensions c). usage_fits usage d"
  shows "con_overhead c \<le> con_overhead c + (\<Sum>d\<leftarrow>con_dimensions c. ceil_price (quantity usage d) d)"
    and "con_overhead c + (\<Sum>d\<leftarrow>con_dimensions c. ceil_price (quantity usage d) d) \<le> con_max_charge c"
proof -
  have q: "0 \<le> ceil_price (quantity usage d) d \<and> ceil_price (quantity usage d) d \<le> ceil_price (max_units d) d"
    if "d \<in> set (con_dimensions c)" for d
    using ok fits that ceil_price_nonneg ceil_price_mono
    by (fastforce simp: contract_ok_def safe_nonnegative_def usage_fits_def quantity_def)
  then show "con_overhead c \<le> con_overhead c + (\<Sum>d\<leftarrow>con_dimensions c. ceil_price (quantity usage d) d)"
    by (auto intro!: sum_list_nonneg)
  have "con_max_charge c = con_overhead c + (\<Sum>d\<leftarrow>con_dimensions c. ceil_price (max_units d) d)"
    using ok by (simp add: contract_ok_def maximum_charge_def foldl_charge)
  then show "con_overhead c + (\<Sum>d\<leftarrow>con_dimensions c. ceil_price (quantity usage d) d) \<le> con_max_charge c"
    using q by (simp add: sum_list_le)
qed

lemma find_unknown_None:
  "find (\<lambda>k. k \<notin> dim_name ` set ds) (map fst usage) = None \<longleftrightarrow>
     fst ` set usage \<subseteq> dim_name ` set ds"
  by (auto simp: find_None_iff)

section \<open>Properties\<close>

text \<open>
  C6. Pricing is exact and never exceeds the frozen maximum: under a contract that passed the
  schema, a usage is priced exactly when every reported dimension is one of the contract and every
  contract dimension is reported within its bound, the charge is the overhead plus the sum of the
  prices rounded up per dimension, and it is at most the contract's \<open>maxChargeMicros\<close>, the amount
  every reservation sets aside.
\<close>

theorem charge_exact_and_bounded:
  assumes "parse_contract raw = Some c"
  shows "calculate_charge c usage = Inr n \<longleftrightarrow>
    fst ` set usage \<subseteq> dim_name ` set (con_dimensions c) \<and>
    (\<forall>d \<in> set (con_dimensions c). usage_fits usage d) \<and>
    n = con_overhead c + (\<Sum>d\<leftarrow>con_dimensions c. ceil_price (quantity usage d) d) \<and>
    con_overhead c \<le> n \<and> n \<le> con_max_charge c"
proof -
  have ok: "contract_ok c" by (rule parse_contract_ok [OF assms])
  then have mu: "\<forall>d \<in> set (con_dimensions c). max_units d \<le> max_safe_integer"
    and mc: "con_max_charge c \<le> max_safe_integer"
    by (auto simp: contract_ok_def safe_nonnegative_def)
  note bounds = charge_bounds [OF ok, of usage]
  show ?thesis
  proof (cases "find (\<lambda>k. k \<notin> dim_name ` set (con_dimensions c)) (map fst usage)")
    case None
    moreover from None have "fst ` set usage \<subseteq> dim_name ` set (con_dimensions c)"
      by (simp only: find_unknown_None)
    ultimately show ?thesis
      using bounds mc by (auto simp: calculate_charge_def bind_res_Inr_iff charge_loop_spec [OF mu])
  next
    case (Some k)
    then have "\<not> fst ` set usage \<subseteq> dim_name ` set (con_dimensions c)"
      using find_unknown_None by (metis option.distinct(1))
    with Some show ?thesis by (simp add: calculate_charge_def)
  qed
qed


lemma digest_exists: "json_ok v \<Longrightarrow> \<exists>h. content_digest_of v = Inr h \<and> is_sha256_hex h"
proof -
  assume "json_ok v"
  then have "is_ok (hash_canonical_json v)"
    by (simp add: json_ok_def hash_canonical_json_sha sha.content_hash_fails_iff)
  then show ?thesis
    using hash_canonical_json_shape by (auto simp: content_digest_of_def is_ok_iff)
qed


lemma json_ok_terms:
  assumes "\<forall>d \<in> set (con_dimensions c). \<bar>max_units d\<bar> \<le> max_safe_integer \<and>
      \<bar>price_micros d\<bar> \<le> max_safe_integer \<and> \<bar>price_units d\<bar> \<le> max_safe_integer \<and>
      pred_option (\<lambda>m. \<bar>m\<bar> \<le> max_safe_integer) (cumulative_max_units d)"
    and "\<bar>con_overhead c\<bar> \<le> max_safe_integer" and "\<bar>con_max_charge c\<bar> \<le> max_safe_integer"
    and "\<bar>con_schema c\<bar> \<le> max_safe_integer"
  shows "json_ok (obj (terms_fields c))"
proof -
  have "json_ok (dimension_value d)" if "d \<in> set (con_dimensions c)" for d
    unfolding dimension_value_def using assms(1) that
    by (cases "cumulative_max_units d"; intro json_ok_obj) auto
  then have "json_ok (arr (map dimension_value (con_dimensions c)))"
    by (intro json_ok_arr) auto
  with assms(2-4) show ?thesis
    unfolding terms_fields_def by (intro json_ok_obj) auto
qed

text \<open>A sample contract: 3 micros per 1000 tokens and an overhead of one.\<close>

definition sample_dimension :: billing_dimension where
  "sample_dimension = \<lparr>dim_name = ''tokens'', dim_unit = ''token'', max_units = 10000,
     cumulative_max_units = None, price_micros = 3, price_units = 1000\<rparr>"

definition sample_contract :: "string \<Rightarrow> billing_contract" where
  "sample_contract h = \<lparr>con_schema = 1, con_id = ''c'', con_provider = ''p'', con_model = ''m'',
     con_dimensions = [sample_dimension], con_overhead = 1, con_max_charge = 31,
     con_source = Provider_usage, con_terms_hash = h, con_evidence_hash = replicate 64 CHR ''a'',
     con_evidence_ref = ''e'', con_verified_by = ''v'', con_verified_at = ''2025-01-01T00:00:00Z''\<rparr>"

lemma trim_singleton: "\<not> is_space c \<Longrightarrow> trim [c] = [c]"
  by (simp add: trim_def)

lemma sample_contract_parses: "\<exists>h. parse_contract (sample_contract h) = Some (sample_contract h)"
proof -
  have terms: "terms_fields (sample_contract h) = terms_fields (sample_contract [])" for h
    by (simp add: terms_fields_def sample_contract_def)
  have "json_ok (obj (terms_fields (sample_contract [])))"
    by (rule json_ok_terms) (simp_all add: sample_contract_def sample_dimension_def max_safe_integer_def)
  then obtain h where "content_digest_of (obj (terms_fields (sample_contract []))) = Inr h"
    and hex: "is_sha256_hex h"
    using digest_exists by blast
  then have h: "terms_hash (sample_contract h') = Inr h" for h'
    by (simp add: terms_hash_def terms [of h'])
  have ids: "parse_identifier [c] = Some [c]" if "c \<in> set ''cpmev''" for c
    using that by (auto simp: parse_identifier_def parse_identifier_upto_def trim_def is_space_def code_def)
  have dim: "parse_dimension sample_dimension = Some sample_dimension"
    by (simp add: parse_dimension_def sample_dimension_def parse_identifier_upto_def trim_def
        is_space_def code_def dimension_name_ok_def is_letter_def safe_nonnegative_def max_safe_integer_def)
  have mx: "maximum_charge (sample_contract h) = 31" for h
    by (simp add: maximum_charge_def sample_contract_def sample_dimension_def ceil_price_def)
  have "is_sha256_hex (replicate 64 CHR ''a'')"
    by (simp add: is_sha256_hex_def code_def list_all_iff)
  then have "parse_contract (sample_contract h) = Some (sample_contract h)"
    using h [of h] hex mx [of h]
    by (simp add: parse_contract_def Let_def sample_contract_def dim ids safe_nonnegative_def max_safe_integer_def)
  then show ?thesis by blast
qed

theorem charge_exact_and_bounded_witness:
  "\<exists>h. parse_contract (sample_contract h) = Some (sample_contract h) \<and>
     calculate_charge (sample_contract h) [(''tokens'', 1500)] = Inr 6"
proof -
  obtain h where h: "parse_contract (sample_contract h) = Some (sample_contract h)"
    using sample_contract_parses by blast
  moreover have "calculate_charge (sample_contract h) [(''tokens'', 1500)] = Inr 6"
    by (subst charge_exact_and_bounded [OF h])
      (simp add: sample_contract_def sample_dimension_def usage_fits_def quantity_def ceil_price_def)
  ultimately show ?thesis by blast
qed

end
