(* ===== verification/Reservations.thy ===== *)
theory Reservations
  imports Prelude
begin

text \<open>
  What the two budget ledgers of the program share: the life of an attempt (reserved, dispatched,
  settled or released), SQL-style row updates, and the contract of a journal whose rows only ever
  give budget back after they were admitted.
\<close>

section \<open>The life of an attempt\<close>

datatype attempt_state = Reserved | Dispatched | Settled | Released

instantiation attempt_state :: linorder
begin

fun attempt_rank :: "attempt_state \<Rightarrow> nat" where
  "attempt_rank Reserved = 0"
| "attempt_rank Dispatched = 1"
| "attempt_rank Settled = 2"
| "attempt_rank Released = 3"

definition less_eq_attempt_state :: "attempt_state \<Rightarrow> attempt_state \<Rightarrow> bool" where
  "less_eq_attempt_state s t \<longleftrightarrow> attempt_rank s \<le> attempt_rank t"

definition less_attempt_state :: "attempt_state \<Rightarrow> attempt_state \<Rightarrow> bool" where
  "less_attempt_state s t \<longleftrightarrow> attempt_rank s < attempt_rank t"

instance
proof
  have "attempt_rank s = attempt_rank t \<Longrightarrow> s = t" for s t
    by (cases s; cases t; simp)
  then show "x \<le> y \<Longrightarrow> y \<le> x \<Longrightarrow> x = y" for x y :: attempt_state
    by (simp add: less_eq_attempt_state_def)
qed (auto simp: less_eq_attempt_state_def less_attempt_state_def)

end

inductive lifecycle :: "attempt_state \<Rightarrow> attempt_state \<Rightarrow> bool" where
  dispatch: "lifecycle Reserved Dispatched"
| settle: "lifecycle Dispatched Settled"
| release: "lifecycle Reserved Released"

inductive_cases lifecycle_from_settled: "lifecycle Settled s"
inductive_cases lifecycle_from_released: "lifecycle Released s"
inductive_cases lifecycle_from_dispatched: "lifecycle Dispatched s"
inductive_cases lifecycle_to_reserved: "lifecycle s Reserved"

inductive_simps lifecycle_simps: "lifecycle s t"

lemma lifecycle_increases: "lifecycle s t \<Longrightarrow> s < t"
  by (induction rule: lifecycle.induct) (simp_all add: less_attempt_state_def)

definition open_attempt :: "attempt_state \<Rightarrow> bool" where
  "open_attempt s \<longleftrightarrow> s = Reserved \<or> s = Dispatched"

section \<open>Row updates\<close>

text \<open>\<open>UPDATE ... WHERE\<close>: the rows of the table in order, and the number of changed rows.\<close>

definition update_where :: "('r \<Rightarrow> bool) \<Rightarrow> ('r \<Rightarrow> 'r) \<Rightarrow> 'r list \<Rightarrow> 'r list" where
  "update_where p f rows = map (\<lambda>r. if p r then f r else r) rows"

definition changes :: "('r \<Rightarrow> bool) \<Rightarrow> 'r list \<Rightarrow> nat" where
  "changes p rows = length (filter p rows)"

lemma length_update_where [simp]: "length (update_where p f rows) = length rows"
  by (simp add: update_where_def)

lemma set_update_where: "r \<in> set (update_where p f rows) \<longleftrightarrow>
    (\<exists>q \<in> set rows. (p q \<and> r = f q) \<or> (\<not> p q \<and> r = q))"
  by (auto simp: update_where_def)

lemma update_where_none: "(\<And>r. r \<in> set rows \<Longrightarrow> \<not> p r) \<Longrightarrow> update_where p f rows = rows"
  unfolding update_where_def by (rule map_idI) auto

lemma update_where_id: "(\<And>r. r \<in> set rows \<Longrightarrow> p r \<Longrightarrow> f r = r) \<Longrightarrow> update_where p f rows = rows"
  unfolding update_where_def by (rule map_idI) auto

section \<open>Journals\<close>

text \<open>
  The contract of a ledger's rows: every row has an owner, a key and a charge, and \<open>evolves\<close> is
  what its operations may do to a row. An update keeps key and owner, follows the life cycle and
  never raises the charge.
\<close>

locale attempt_journal =
  fixes key_of :: "'row \<Rightarrow> 'key" and owner_of :: "'row \<Rightarrow> 'owner"
    and state_of :: "'row \<Rightarrow> attempt_state" and charge :: "'row \<Rightarrow> int"
    and evolves :: "'row \<Rightarrow> 'row \<Rightarrow> bool"
  assumes evolves_refl: "evolves r r"
    and evolves_key: "evolves r s \<Longrightarrow> key_of s = key_of r"
    and evolves_owner: "evolves r s \<Longrightarrow> owner_of s = owner_of r"
    and evolves_state: "evolves r s \<Longrightarrow> state_of s = state_of r \<or> lifecycle (state_of r) (state_of s)"
    and evolves_charge: "evolves r s \<Longrightarrow> charge s \<le> charge r"
begin

definition owned :: "'owner \<Rightarrow> 'row list \<Rightarrow> 'row list" where
  "owned w rows = filter (\<lambda>r. owner_of r = w) rows"

definition encumbered :: "'owner \<Rightarrow> 'row list \<Rightarrow> int" where
  "encumbered w rows = sum_list (map charge (owned w rows))"

abbreviation journal_evolves :: "'row list \<Rightarrow> 'row list \<Rightarrow> bool" where
  "journal_evolves \<equiv> list_all2 evolves"

lemma encumbered_simps [simp]:
  "encumbered w [] = 0"
  "encumbered w (r # rows) = (if owner_of r = w then charge r else 0) + encumbered w rows"
  "encumbered w (rows @ rows') = encumbered w rows + encumbered w rows'"
  by (simp_all add: encumbered_def owned_def)

lemma update_evolves:
  assumes "\<And>r. r \<in> set rows \<Longrightarrow> p r \<Longrightarrow> evolves r (f r)"
  shows "journal_evolves rows (update_where p f rows)"
  using assms by (induction rows) (auto simp: update_where_def evolves_refl)

lemma evolve_keys: "journal_evolves rows rows' \<Longrightarrow> map key_of rows' = map key_of rows"
  by (induction rule: list_all2_induct) (auto dest: evolves_key)

lemma evolve_encumbered: "journal_evolves rows rows' \<Longrightarrow> encumbered w rows' \<le> encumbered w rows"
proof (induction rule: list_all2_induct)
  case (Cons r rows s rows')
  then show ?case
    using evolves_owner [of r s] evolves_charge [of r s] by simp
qed simp

text \<open>An admitted row fits what is left; later updates of any rows keep the sum within the limit.\<close>

lemma admit_within:
  assumes "encumbered (owner_of r) rows \<le> limit" and "charge r \<le> limit - encumbered (owner_of r) rows"
  shows "encumbered (owner_of r) (rows @ [r]) \<le> limit"
  using assms by simp

lemma admit_other: "owner_of r \<noteq> w \<Longrightarrow> encumbered w (rows @ [r]) = encumbered w rows"
  by simp

lemma evolve_within:
  "encumbered w rows \<le> limit \<Longrightarrow> journal_evolves rows rows' \<Longrightarrow> encumbered w rows' \<le> limit"
  using evolve_encumbered order_trans by blast

lemma evolve_no_resurrection:
  assumes "journal_evolves rows rows'" and "i < length rows"
    and "\<not> open_attempt (state_of (rows ! i))"
  shows "state_of (rows' ! i) = state_of (rows ! i)"
  using assms evolves_state [of "rows ! i" "rows' ! i"]
  by (auto simp: list_all2_conv_all_nth open_attempt_def lifecycle_simps)

lemma evolve_state_mono:
  assumes "journal_evolves rows rows'" and "i < length rows"
  shows "state_of (rows ! i) \<le> state_of (rows' ! i)"
  using assms evolves_state [of "rows ! i" "rows' ! i"] lifecycle_increases
  by (fastforce simp: list_all2_conv_all_nth)

end

end
