(* ===== verification/PaidEffectLedger.thy ===== *)
theory PaidEffectLedger
  imports PaidEffectSchemas Reservations "HOL-Library.Char_ord" "HOL-Library.Product_Lexorder"
begin

text \<open>
  The paid-effect ledger (\<open>src/src/db/repositories/qualification-run-budget-repo.ts\<close>): the three
  SQLite tables, and every operation of the repository. A transaction that throws leaves the
  tables as they were; one clock reading \<open>now\<close> is passed to each operation. A JSON text column
  holds the value its text denotes, or \<open>Corrupt_text\<close>. Enumerated columns are datatypes, as the
  \<open>CHECK\<close> constraints of the schema make them.
\<close>

section \<open>Tables\<close>

datatype auth_state = Active | Closed | Drifted

fun auth_state_name :: "auth_state \<Rightarrow> string" where
  "auth_state_name Active = ''active''" | "auth_state_name Closed = ''closed''"
| "auth_state_name Drifted = ''drifted''"

datatype 'a column = Corrupt_text | Json_text 'a

record auth_row =
  a_id :: string
  a_run :: string
  a_ceiling :: int
  a_hash :: string
  a_json :: "authorization column"
  a_state :: auth_state
  a_close_reason :: "string option"
  a_created :: string
  a_closed :: "string option"

record res_row =
  r_key :: string
  r_auth :: string
  r_run :: string
  r_arm :: arm
  r_output :: string
  r_beneficiaries :: "beneficiary list column"
  r_descriptor :: "attempt_descriptor column"
  r_descriptor_hash :: string
  r_contract_hash :: string
  r_max :: int
  r_state :: attempt_state
  r_actual :: "int option"
  r_release_reason :: "string option"
  r_created :: string
  r_dispatched :: "string option"
  r_settled :: "string option"

record obs_row =
  o_key :: string
  o_hash :: string
  o_authoritative :: bool
  o_raw :: "(string \<times> js_number) list column option"
  o_estimated :: "int option"
  o_actual :: "int option"
  o_evidence :: "string option"
  o_source :: "usage_source option"
  o_created :: string

record ledger_db =
  db_auths :: "auth_row list"
  db_rows :: "res_row list"
  db_obs :: "obs_row list"

section \<open>Reading\<close>

definition js_error :: "string \<Rightarrow> (thrown, 'a) result" where
  "js_error msg = Inl (Js_error msg)"

lemma js_error_Inr [simp]: "js_error msg \<noteq> Inr a" "Inr a \<noteq> js_error msg"
  by (simp_all add: js_error_def)

definition ensure :: "bool \<Rightarrow> string \<Rightarrow> (thrown, unit) result" where
  "ensure ok msg = (if ok then Inr () else js_error msg)"

lemma ensure_Inr [simp]: "ensure ok msg = Inr u \<longleftrightarrow> ok"
  by (simp add: ensure_def)

definition parse_json :: "string \<Rightarrow> ('a \<Rightarrow> 'b option) \<Rightarrow> 'a column \<Rightarrow> (thrown, 'b) result" where
  "parse_json label parse c =
     (case c of
        Corrupt_text \<Rightarrow> js_error (''paid_effect_journal_corrupt:'' @ label)
      | Json_text v \<Rightarrow> (case parse v of
            None \<Rightarrow> js_error (''paid_effect_journal_corrupt:'' @ label)
          | Some a \<Rightarrow> Inr a))"

lemma parse_json_Inr: "parse_json label parse c = Inr a \<longleftrightarrow> (\<exists>v. c = Json_text v \<and> parse v = Some a)"
  by (auto simp: parse_json_def split: column.splits option.splits)

definition checked_add :: "int \<Rightarrow> int \<Rightarrow> (thrown, int) result" where
  "checked_add l r =
     (let t = l + r
      in if \<bar>t\<bar> > max_safe_integer \<or> t < 0 then js_error ''paid_effect_journal_overflow'' else Inr t)"

lemma checked_add_Inr: "checked_add l r = Inr t \<longleftrightarrow> t = l + r \<and> 0 \<le> t \<and> t \<le> max_safe_integer"
  by (auto simp: checked_add_def Let_def)

record ledger_totals =
  t_known :: int
  t_unknown :: int
  t_reserved :: int
  t_total :: int

fun sum_loop :: "int \<Rightarrow> int \<Rightarrow> int \<Rightarrow> res_row list \<Rightarrow> (thrown, int \<times> int \<times> int) result" where
  "sum_loop k u v [] = Inr (k, u, v)"
| "sum_loop k u v (r # rs) =
     (case r_state r of
        Settled \<Rightarrow> bind_res (checked_add k (case r_actual r of Some a \<Rightarrow> a | None \<Rightarrow> - 1))
                     (\<lambda>k'. sum_loop k' u v rs)
      | Dispatched \<Rightarrow> bind_res (checked_add u (r_max r)) (\<lambda>u'. sum_loop k u' v rs)
      | Reserved \<Rightarrow> bind_res (checked_add v (r_max r)) (\<lambda>v'. sum_loop k u v' rs)
      | Released \<Rightarrow> sum_loop k u v rs)"

definition checked_sum :: "res_row list \<Rightarrow> (thrown, ledger_totals) result" where
  "checked_sum rs =
     bind_res (sum_loop 0 0 0 rs) (\<lambda>(k, u, v).
       bind_res (checked_add k u) (\<lambda>ku. bind_res (checked_add ku v) (\<lambda>t.
         Inr \<lparr>t_known = k, t_unknown = u, t_reserved = v, t_total = t\<rparr>)))"

definition get_authorization :: "ledger_db \<Rightarrow> string \<Rightarrow> (thrown, auth_row) result" where
  "get_authorization db i =
     (case find (\<lambda>a. a_id a = i) (db_auths db) of
        None \<Rightarrow> js_error ''paid_effect_authorization_missing''
      | Some a \<Rightarrow>
          if \<bar>a_ceiling a\<bar> > max_safe_integer \<or> a_ceiling a < 0
          then js_error ''paid_effect_journal_corrupt:authorization_ceiling'' else Inr a)"

definition read_authorization :: "auth_row \<Rightarrow> (thrown, authorization) result" where
  "read_authorization row =
     bind_res (parse_json ''authorization'' parse_authorization (a_json row)) (\<lambda>au.
     if au_id au \<noteq> a_id row \<or> au_run au \<noteq> a_run row \<or> au_ceiling au \<noteq> a_ceiling row
     then js_error ''paid_effect_journal_corrupt:authorization_binding''
     else bind_res (content_digest_of (authorization_value au)) (\<lambda>h.
     if h \<noteq> a_hash row then js_error ''paid_effect_journal_corrupt:authorization_binding'' else Inr au))"

definition get_rows :: "ledger_db \<Rightarrow> string \<Rightarrow> res_row list" where
  "get_rows db i = sort_key (\<lambda>r. (r_created r, r_key r)) (filter (\<lambda>r. r_auth r = i) (db_rows db))"

definition get_contract :: "authorization \<Rightarrow> string \<Rightarrow> (thrown, billing_contract) result" where
  "get_contract au i =
     (case find (\<lambda>c. con_id c = i) (au_contracts au) of
        None \<Rightarrow> js_error ''paid_effect_billing_contract_unverified''
      | Some c \<Rightarrow> Inr c)"

definition assert_scope :: "qualification_scope \<Rightarrow> authorization \<Rightarrow> (thrown, qualification_scope) result" where
  "assert_scope s au =
     bind_res (zod (parse_scope s)) (\<lambda>sc.
     bind_res (ensure (sc_auth sc = au_id au \<and> sc_run sc = au_run au) ''paid_effect_qualification_scope_mismatch'') (\<lambda>_.
     bind_res (ensure (sc_arm sc \<in> set (au_arms au)) ''paid_effect_arm_not_authorized'') (\<lambda>_. Inr sc)))"

fun missing_dimension :: "attempt_descriptor \<Rightarrow> billing_dimension list \<Rightarrow> (thrown, unit) result" where
  "missing_dimension d [] = Inr ()"
| "missing_dimension d (dim # dims) =
     (if map_of (de_units d) (dim_name dim) = None
      then js_error (''paid_effect_request_missing_dimension:'' @ dim_name dim)
      else missing_dimension d dims)"

definition exceeds_dimension :: "billing_contract \<Rightarrow> string \<times> int \<Rightarrow> bool" where
  "exceeds_dimension c kn =
     (case find (\<lambda>d. dim_name d = fst kn) (con_dimensions c) of
        None \<Rightarrow> True | Some d \<Rightarrow> snd kn > max_units d)"

definition validate_descriptor ::
    "attempt_descriptor \<Rightarrow> billing_contract \<Rightarrow> (thrown, attempt_descriptor) result" where
  "validate_descriptor d0 c =
     bind_res (zod (parse_descriptor d0)) (\<lambda>d.
     bind_res (content_digest_of (contract_value c)) (\<lambda>h.
     bind_res (ensure (de_provider d = con_provider c \<and> de_model d = con_model c \<and> de_contract_hash d = h)
                 ''paid_effect_billing_contract_drift'') (\<lambda>_.
     bind_res (ensure (\<not> list_ex (exceeds_dimension c) (de_units d)) ''paid_effect_request_exceeds_contract'') (\<lambda>_.
     bind_res (missing_dimension d (con_dimensions c)) (\<lambda>_. Inr d)))))"

record observation =
  ob_hash :: string
  ob_authoritative :: bool
  ob_raw :: "(string \<times> js_number) list option"
  ob_estimated :: "int option"
  ob_actual :: "int option"
  ob_evidence :: "string option"
  ob_source :: "usage_source option"
  ob_created :: string

definition parse_raw_usage :: "(string \<times> js_number) list \<Rightarrow> (string \<times> js_number) list option" where
  "parse_raw_usage u = (if list_all (raw_number_ok \<circ> snd) u then Some u else None)"

definition map_observation :: "obs_row \<Rightarrow> (thrown, observation) result" where
  "map_observation r =
     bind_res (case o_raw r of None \<Rightarrow> Inr None
               | Some c \<Rightarrow> map_sum id Some (parse_json ''raw_usage'' parse_raw_usage c)) (\<lambda>raw.
       Inr \<lparr>ob_hash = o_hash r, ob_authoritative = o_authoritative r, ob_raw = raw,
         ob_estimated = o_estimated r, ob_actual = o_actual r, ob_evidence = o_evidence r,
         ob_source = o_source r, ob_created = o_created r\<rparr>)"

fun collect_res :: "('e, 'a) result list \<Rightarrow> ('e, 'a list) result" where
  "collect_res [] = Inr []"
| "collect_res (m # ms) = bind_res m (\<lambda>a. bind_res (collect_res ms) (\<lambda>as. Inr (a # as)))"

definition parse_observations :: "ledger_db \<Rightarrow> string \<Rightarrow> (thrown, observation list) result" where
  "parse_observations db k = collect_res (map map_observation (filter (\<lambda>r. o_key r = k) (db_obs db)))"

record reservation_record =
  rr_key :: string
  rr_auth :: string
  rr_run :: string
  rr_arm :: arm
  rr_output :: string
  rr_beneficiaries :: "beneficiary list"
  rr_descriptor :: attempt_descriptor
  rr_descriptor_hash :: string
  rr_contract_hash :: string
  rr_max :: int
  rr_state :: attempt_state
  rr_actual :: "int option"
  rr_release_reason :: "string option"
  rr_observations :: "observation list"
  rr_created :: string
  rr_dispatched :: "string option"
  rr_settled :: "string option"

definition row_scope :: "res_row \<Rightarrow> beneficiary list \<Rightarrow> qualification_scope" where
  "row_scope r bs = \<lparr>sc_run = r_run r, sc_auth = r_auth r, sc_arm = r_arm r, sc_output = r_output r,
     sc_beneficiaries = bs\<rparr>"

definition map_reservation :: "ledger_db \<Rightarrow> res_row \<Rightarrow> (thrown, reservation_record) result" where
  "map_reservation db r =
     bind_res (parse_json ''beneficiaries'' parse_beneficiaries (r_beneficiaries r)) (\<lambda>bs.
     bind_res (zod (parse_scope (row_scope r bs))) (\<lambda>sc.
     bind_res (parse_json ''descriptor'' parse_descriptor (r_descriptor r)) (\<lambda>d.
     bind_res (parse_observations db (r_key r)) (\<lambda>obs.
       Inr \<lparr>rr_key = r_key r, rr_auth = r_auth r, rr_run = r_run r, rr_arm = r_arm r,
         rr_output = r_output r, rr_beneficiaries = sc_beneficiaries sc, rr_descriptor = d,
         rr_descriptor_hash = r_descriptor_hash r, rr_contract_hash = r_contract_hash r,
         rr_max = r_max r, rr_state = r_state r, rr_actual = r_actual r,
         rr_release_reason = r_release_reason r, rr_observations = obs, rr_created = r_created r,
         rr_dispatched = r_dispatched r, rr_settled = r_settled r\<rparr>))))"

section \<open>Transactions and drift\<close>

definition transaction ::
    "(ledger_db \<Rightarrow> (thrown, 'a \<times> ledger_db) result) \<Rightarrow> ledger_db \<Rightarrow> (thrown, 'a) result \<times> ledger_db" where
  "transaction body db = (case body db of Inl e \<Rightarrow> (Inl e, db) | Inr (a, db') \<Rightarrow> (Inr a, db'))"

definition release_reserved :: "string \<Rightarrow> string \<Rightarrow> string \<Rightarrow> res_row list \<Rightarrow> res_row list" where
  "release_reserved i reason now =
     update_where (\<lambda>r. r_auth r = i \<and> r_state r = Reserved)
       (\<lambda>r. r\<lparr>r_state := Released, r_release_reason := Some reason, r_settled := Some now\<rparr>)"

definition stop_authorization ::
    "auth_state \<Rightarrow> string \<Rightarrow> string \<Rightarrow> string \<Rightarrow> auth_row list \<Rightarrow> auth_row list" where
  "stop_authorization st i reason now =
     update_where (\<lambda>a. a_id a = i \<and> a_state a = Active)
       (\<lambda>a. a\<lparr>a_state := st, a_close_reason := Some reason, a_closed := Some now\<rparr>)"

definition close_for_drift :: "string \<Rightarrow> string \<Rightarrow> string \<Rightarrow> ledger_db \<Rightarrow> ledger_db" where
  "close_for_drift i reason now db =
     db\<lparr>db_auths := stop_authorization Drifted i (take 256 reason) now (db_auths db),
        db_rows := release_reserved i ''authorization_drifted_before_dispatch'' now (db_rows db)\<rparr>"

section \<open>Operations\<close>

definition freeze_authorization ::
    "authorization \<Rightarrow> string \<Rightarrow> ledger_db \<Rightarrow>
     (thrown, authorization \<times> string \<times> auth_state) result \<times> ledger_db" where
  "freeze_authorization input now db =
     (case bind_res (zod (parse_authorization input)) (\<lambda>au.
             bind_res (content_digest_of (authorization_value au)) (\<lambda>h. Inr (au, h))) of
        Inl e \<Rightarrow> (Inl e, db)
      | Inr (au, h) \<Rightarrow> transaction (\<lambda>db.
          case find (\<lambda>a. a_id a = au_id au) (db_auths db) of
            Some ex \<Rightarrow>
              bind_res (ensure (a_hash ex = h) ''paid_effect_authorization_conflict'') (\<lambda>_.
              bind_res (read_authorization ex) (\<lambda>_. Inr ((au, h, a_state ex), db)))
          | None \<Rightarrow>
              Inr ((au, h, Active),
                db\<lparr>db_auths := db_auths db @ [\<lparr>a_id = au_id au, a_run = au_run au,
                  a_ceiling = au_ceiling au, a_hash = h, a_json = Json_text au, a_state = Active,
                  a_close_reason = None, a_created = now, a_closed = None\<rparr>]\<rparr>)) db)"

fun consumed_units :: "string \<Rightarrow> string \<Rightarrow> int \<Rightarrow> res_row list \<Rightarrow> (thrown, int) result" where
  "consumed_units ch dim n [] = Inr n"
| "consumed_units ch dim n (r # rs) =
     (if r_state r = Released \<or> r_contract_hash r \<noteq> ch then consumed_units ch dim n rs
      else bind_res (parse_json ''descriptor'' parse_descriptor (r_descriptor r)) (\<lambda>d.
           bind_res (checked_add n (case map_of (de_units d) dim of Some q \<Rightarrow> q | None \<Rightarrow> 0)) (\<lambda>n'.
             consumed_units ch dim n' rs)))"

fun cumulative_check ::
    "attempt_descriptor \<Rightarrow> res_row list \<Rightarrow> billing_dimension list \<Rightarrow> (thrown, unit) result" where
  "cumulative_check d rs [] = Inr ()"
| "cumulative_check d rs (dim # dims) =
     (case cumulative_max_units dim of
        None \<Rightarrow> cumulative_check d rs dims
      | Some m \<Rightarrow>
          bind_res (consumed_units (de_contract_hash d) (dim_name dim) 0 rs) (\<lambda>n.
          bind_res (ensure (\<not> (case map_of (de_units d) (dim_name dim) of Some q \<Rightarrow> q | None \<Rightarrow> 0) > m - n)
                      ''paid_effect_budget_exhausted'') (\<lambda>_. cumulative_check d rs dims)))"

definition reservation_digest ::
    "string \<Rightarrow> qualification_scope \<Rightarrow> attempt_descriptor \<Rightarrow> int \<Rightarrow> (thrown, string) result" where
  "reservation_digest ah sc d mx =
     content_digest_of (obj [(''authorizationHash'', jstr ah), (''scope'', scope_value sc),
       (''descriptor'', descriptor_value d), (''billingContractHash'', jstr (de_contract_hash d)),
       (''maximumChargeMicros'', jint mx)])"

definition new_row ::
    "authorization \<Rightarrow> qualification_scope \<Rightarrow> attempt_descriptor \<Rightarrow> string \<Rightarrow> int \<Rightarrow> string \<Rightarrow> res_row" where
  "new_row au sc d dh mx now =
     \<lparr>r_key = de_key d, r_auth = au_id au, r_run = sc_run sc, r_arm = sc_arm sc, r_output = sc_output sc,
      r_beneficiaries = Json_text (sc_beneficiaries sc), r_descriptor = Json_text d, r_descriptor_hash = dh,
      r_contract_hash = de_contract_hash d, r_max = mx, r_state = Reserved, r_actual = None,
      r_release_reason = None, r_created = now, r_dispatched = None, r_settled = None\<rparr>"

definition reserve_body ::
    "qualification_scope \<Rightarrow> attempt_descriptor \<Rightarrow> string \<Rightarrow> ledger_db \<Rightarrow>
     (thrown, reservation_record \<times> ledger_db) result" where
  "reserve_body sc d now db =
     bind_res (get_authorization db (sc_auth sc)) (\<lambda>arow.
     bind_res (read_authorization arow) (\<lambda>au.
     bind_res (assert_scope sc au) (\<lambda>_.
     bind_res (ensure (a_state arow = Active) (''paid_effect_ledger_'' @ auth_state_name (a_state arow))) (\<lambda>_.
     bind_res (get_contract au (de_contract d)) (\<lambda>c.
     bind_res (validate_descriptor d c) (\<lambda>_.
     bind_res (reservation_digest (a_hash arow) sc d (con_max_charge c)) (\<lambda>dh.
     case find (\<lambda>r. r_key r = de_key d) (db_rows db) of
       Some ex \<Rightarrow>
         bind_res (ensure (r_auth ex = au_id au \<and> r_descriptor_hash ex = dh) ''paid_effect_idempotency_conflict'') (\<lambda>_.
         bind_res (map_reservation db ex) (\<lambda>rec. Inr (rec, db)))
     | None \<Rightarrow>
         let rs = get_rows db (au_id au); mx = con_max_charge c in
         bind_res (cumulative_check d rs (con_dimensions c)) (\<lambda>_.
         bind_res (checked_sum rs) (\<lambda>totals.
         bind_res (ensure (\<not> (t_total totals > au_ceiling au \<or> mx > au_ceiling au - t_total totals))
                     ''paid_effect_budget_exhausted'') (\<lambda>_.
         let row = new_row au sc d dh mx now; db' = db\<lparr>db_rows := db_rows db @ [row]\<rparr> in
         bind_res (map_reservation db' row) (\<lambda>rec. Inr (rec, db')))))))))))) "

definition reserve ::
    "qualification_scope \<Rightarrow> attempt_descriptor \<Rightarrow> string \<Rightarrow> ledger_db \<Rightarrow>
     (thrown, reservation_record) result \<times> ledger_db" where
  "reserve sc0 d0 now db =
     (case bind_res (zod (parse_scope sc0)) (\<lambda>sc. bind_res (zod (parse_descriptor d0)) (\<lambda>d. Inr (sc, d))) of
        Inl e \<Rightarrow> (Inl e, db)
      | Inr (sc, d) \<Rightarrow> transaction (reserve_body sc d now) db)"

definition find_row :: "ledger_db \<Rightarrow> string \<Rightarrow> string \<Rightarrow> res_row option" where
  "find_row db i k = find (\<lambda>r. r_auth r = i \<and> r_key r = k) (db_rows db)"

definition get_reservation :: "string \<Rightarrow> string \<Rightarrow> ledger_db \<Rightarrow> (thrown, reservation_record option) result" where
  "get_reservation i k db =
     (case find_row db i k of
        None \<Rightarrow> Inr None
      | Some r \<Rightarrow> map_sum id Some (map_reservation db r))"

definition mark_dispatched :: "string \<Rightarrow> string \<Rightarrow> string \<Rightarrow> string \<Rightarrow> ledger_db \<Rightarrow> (thrown, unit) result \<times> ledger_db" where
  "mark_dispatched i k dh now =
     transaction (\<lambda>db.
       bind_res (get_authorization db i) (\<lambda>arow.
       bind_res (ensure (a_state arow = Active) (''paid_effect_ledger_'' @ auth_state_name (a_state arow))) (\<lambda>_.
       let p = (\<lambda>r. r_auth r = i \<and> r_key r = k \<and> r_descriptor_hash r = dh \<and> r_state r = Reserved) in
       bind_res (ensure (changes p (db_rows db) = 1) ''paid_effect_reservation_not_dispatchable'') (\<lambda>_.
       Inr ((), db\<lparr>db_rows := update_where p (\<lambda>r. r\<lparr>r_state := Dispatched, r_dispatched := Some now\<rparr>) (db_rows db)\<rparr>)))))"

definition insert_observation :: "obs_row \<Rightarrow> obs_row list \<Rightarrow> obs_row list" where
  "insert_observation ob obs =
     (if list_ex (\<lambda>q. o_key q = o_key ob \<and> o_hash q = o_hash ob) obs then obs else obs @ [ob])"

datatype settle_outcome = Settle_ok | Settle_drift

fun to_option :: "'a field \<Rightarrow> 'a option" where
  "to_option (Present a) = Some a" | "to_option _ = None"

definition settle_unknown ::
    "string \<Rightarrow> string \<Rightarrow> (string \<times> js_number) list field \<Rightarrow> int field \<Rightarrow> res_row \<Rightarrow> string \<Rightarrow> ledger_db \<Rightarrow>
     (thrown, settle_outcome \<times> ledger_db) result" where
  "settle_unknown k oh usage est r now db =
     bind_res (ensure (r_state r \<noteq> Settled) ''paid_effect_reservation_already_settled'') (\<lambda>_.
     bind_res (ensure (r_state r = Dispatched) ''paid_effect_reservation_not_settleable'') (\<lambda>_.
     bind_res (case to_option usage of None \<Rightarrow> Inr None | Some u \<Rightarrow> map_sum id Some (zod (parse_raw_usage u))) (\<lambda>raw.
       Inr (Settle_ok, db\<lparr>db_obs := insert_observation \<lparr>o_key = k, o_hash = oh, o_authoritative = False,
         o_raw = map_option Json_text raw, o_estimated = to_option est, o_actual = None,
         o_evidence = None, o_source = None, o_created = now\<rparr> (db_obs db)\<rparr>))))"

definition thrown_message :: "thrown \<Rightarrow> string" where
  "thrown_message e = (case e of Js_error m \<Rightarrow> m | _ \<Rightarrow> ''paid_effect_contract_drift'')"

definition record_charge ::
    "string \<Rightarrow> string \<Rightarrow> string \<Rightarrow> string \<Rightarrow> usage_source \<Rightarrow> (string \<times> int) list \<Rightarrow> int \<Rightarrow> int field \<Rightarrow>
     string \<Rightarrow> ledger_db \<Rightarrow> ledger_db" where
  "record_charge i k oh ref src usage cost est now db =
     db\<lparr>db_obs := insert_observation \<lparr>o_key = k, o_hash = oh, o_authoritative = True,
          o_raw = Some (Json_text (map (map_prod id Int_num) usage)), o_estimated = to_option est,
          o_actual = Some cost, o_evidence = Some ref, o_source = Some src, o_created = now\<rparr> (db_obs db),
        db_rows := update_where (\<lambda>q. r_auth q = i \<and> r_key q = k \<and> r_state q = Dispatched)
          (\<lambda>q. q\<lparr>r_state := Settled, r_actual := Some cost, r_settled := Some now\<rparr>) (db_rows db)\<rparr>"

definition settle_authoritative ::
    "string \<Rightarrow> string \<Rightarrow> string \<Rightarrow> string \<Rightarrow> usage_source \<Rightarrow> (string \<times> int) list \<Rightarrow> int \<Rightarrow> int field \<Rightarrow>
     authorization \<Rightarrow> res_row \<Rightarrow> string \<Rightarrow> ledger_db \<Rightarrow> (thrown, settle_outcome \<times> ledger_db) result" where
  "settle_authoritative i k oh ref src usage cost est au r now db =
     (if r_state r = Settled then
        (if list_ex (\<lambda>q. o_key q = k \<and> o_hash q = oh \<and> o_authoritative q) (db_obs db)
         then Inr (Settle_ok, db) else js_error ''paid_effect_settlement_conflict'')
      else
        bind_res (ensure (r_state r = Dispatched) ''paid_effect_reservation_not_settleable'') (\<lambda>_.
        bind_res (parse_json ''descriptor'' parse_descriptor (r_descriptor r)) (\<lambda>d.
        bind_res (get_contract au (de_contract d)) (\<lambda>c.
        bind_res (parse_json ''beneficiaries'' parse_beneficiaries (r_beneficiaries r)) (\<lambda>bs.
        bind_res (zod (parse_scope (row_scope r bs))) (\<lambda>sc.
        bind_res (assert_scope sc au) (\<lambda>_.
        bind_res (ensure (con_source c \<noteq> No_source \<and> src = con_source c) ''paid_effect_settlement_not_authoritative'') (\<lambda>_.
        case calculate_charge c usage of
          Inl e \<Rightarrow> Inr (Settle_drift, close_for_drift i (thrown_message e) now db)
        | Inr computed \<Rightarrow>
            (case find (\<lambda>(unit, q). case map_of (de_units d) unit of None \<Rightarrow> True | Some m \<Rightarrow> q > m) usage of
               Some (unit, _) \<Rightarrow> Inr (Settle_drift, close_for_drift i (''paid_effect_contract_drift:'' @ unit) now db)
             | None \<Rightarrow>
                 if computed \<noteq> cost \<or> cost > r_max r
                 then Inr (Settle_drift, close_for_drift i ''paid_effect_authoritative_charge_exceeds_contract'' now db)
                 else Inr (Settle_ok, record_charge i k oh ref src usage cost est now db))))))))))"

definition settle_body ::
    "string \<Rightarrow> string \<Rightarrow> string \<Rightarrow> settlement \<Rightarrow> string \<Rightarrow> string \<Rightarrow> ledger_db \<Rightarrow>
     (thrown, settle_outcome \<times> ledger_db) result" where
  "settle_body i k dh st oh now db =
     bind_res (get_authorization db i) (\<lambda>arow.
     bind_res (read_authorization arow) (\<lambda>au.
     case find_row db i k of
       None \<Rightarrow> js_error ''paid_effect_reservation_missing''
     | Some r \<Rightarrow>
         bind_res (ensure (r_descriptor_hash r = dh) ''paid_effect_idempotency_conflict'') (\<lambda>_.
         case st of
           Unknown_charge usage est \<Rightarrow> settle_unknown k oh usage est r now db
         | Authoritative ref src usage cost est \<Rightarrow>
             settle_authoritative i k oh ref src usage cost est au r now db)))"

definition settle_attempt ::
    "string \<Rightarrow> string \<Rightarrow> string \<Rightarrow> settlement \<Rightarrow> string \<Rightarrow> ledger_db \<Rightarrow> (thrown, unit) result \<times> ledger_db" where
  "settle_attempt i k dh input now db =
     (case bind_res (zod (parse_settlement input)) (\<lambda>st.
             bind_res (content_digest_of (settlement_value st)) (\<lambda>oh. Inr (st, oh))) of
        Inl e \<Rightarrow> (Inl e, db)
      | Inr (st, oh) \<Rightarrow>
          (case transaction (settle_body i k dh st oh now) db of
             (Inl e, db') \<Rightarrow> (Inl e, db')
           | (Inr Settle_drift, db') \<Rightarrow> (js_error ''paid_effect_billing_contract_drift'', db')
           | (Inr Settle_ok, db') \<Rightarrow> (Inr (), db')))"

definition release_undispatched ::
    "string \<Rightarrow> string \<Rightarrow> string \<Rightarrow> string \<Rightarrow> string \<Rightarrow> ledger_db \<Rightarrow> (thrown, unit) result \<times> ledger_db" where
  "release_undispatched i k dh reason now db =
     (let safe = take 256 (trim reason) in
      if safe = [] then (js_error ''paid_effect_release_reason_required'', db)
      else transaction (\<lambda>db.
        case find_row db i k of
          None \<Rightarrow> js_error ''paid_effect_reservation_missing''
        | Some r \<Rightarrow>
            bind_res (ensure (r_descriptor_hash r = dh) ''paid_effect_idempotency_conflict'') (\<lambda>_.
            if r_state r = Released \<and> r_release_reason r = Some safe then Inr ((), db)
            else bind_res (ensure (r_state r = Reserved) ''paid_effect_dispatched_reservation_not_releasable'') (\<lambda>_.
              Inr ((), db\<lparr>db_rows := update_where
                (\<lambda>q. r_auth q = i \<and> r_key q = k \<and> r_descriptor_hash q = dh \<and> r_state q = Reserved)
                (\<lambda>q. q\<lparr>r_state := Released, r_release_reason := Some safe, r_settled := Some now\<rparr>) (db_rows db)\<rparr>)))) db)"

definition close_authorization ::
    "string \<Rightarrow> string \<Rightarrow> string \<Rightarrow> ledger_db \<Rightarrow> (thrown, unit) result \<times> ledger_db" where
  "close_authorization i reason now db =
     (let safe = take 256 (trim reason) in
      if safe = [] then (js_error ''paid_effect_close_reason_required'', db)
      else transaction (\<lambda>db.
        bind_res (get_authorization db i) (\<lambda>arow.
        if a_state arow \<noteq> Active then Inr ((), db)
        else Inr ((), db\<lparr>db_auths := stop_authorization Closed i safe now (db_auths db),
               db_rows := release_reserved i ''authorization_closed_before_dispatch'' now (db_rows db)\<rparr>))) db)"

record budget_snapshot =
  sn_auth :: string
  sn_run :: string
  sn_state :: auth_state
  sn_ceiling :: int
  sn_unique :: nat
  sn_known :: int
  sn_unknown :: int
  sn_reserved :: int
  sn_total :: int
  sn_available :: int
  sn_effects :: "reservation_record list"

definition ledger_snapshot :: "string \<Rightarrow> ledger_db \<Rightarrow> (thrown, budget_snapshot) result" where
  "ledger_snapshot i db =
     bind_res (get_authorization db i) (\<lambda>arow.
     bind_res (read_authorization arow) (\<lambda>au.
     let rs = get_rows db i in
     bind_res (checked_sum rs) (\<lambda>totals.
     bind_res (ensure (\<not> t_total totals > au_ceiling au) ''paid_effect_journal_ceiling_invariant_broken'') (\<lambda>_.
     bind_res (collect_res (map (map_reservation db) rs)) (\<lambda>effects.
       Inr \<lparr>sn_auth = i, sn_run = au_run au, sn_state = a_state arow, sn_ceiling = au_ceiling au,
         sn_unique = length effects, sn_known = t_known totals, sn_unknown = t_unknown totals,
         sn_reserved = t_reserved totals, sn_total = t_total totals,
         sn_available = au_ceiling au - t_total totals, sn_effects = effects\<rparr>)))))"


section \<open>Rows as a journal\<close>

definition row_charge :: "res_row \<Rightarrow> int" where
  "row_charge r =
     (case r_state r of
        Settled \<Rightarrow> (case r_actual r of Some a \<Rightarrow> a | None \<Rightarrow> r_max r)
      | Released \<Rightarrow> 0
      | _ \<Rightarrow> r_max r)"

definition row_ok :: "res_row \<Rightarrow> bool" where
  "row_ok r \<longleftrightarrow> 0 \<le> r_max r \<and> (r_state r = Settled \<longleftrightarrow> r_actual r \<noteq> None) \<and>
     pred_option (\<lambda>a. 0 \<le> a \<and> a \<le> r_max r) (r_actual r)"

text \<open>Everything the operations do to an existing row.\<close>

inductive row_evolves :: "res_row \<Rightarrow> res_row \<Rightarrow> bool" where
  unchanged: "row_evolves r r"
| dispatched: "r_state r = Reserved \<Longrightarrow>
    row_evolves r (r\<lparr>r_state := Dispatched, r_dispatched := Some now\<rparr>)"
| released: "r_state r = Reserved \<Longrightarrow> 0 \<le> r_max r \<Longrightarrow>
    row_evolves r (r\<lparr>r_state := Released, r_release_reason := Some reason, r_settled := Some now\<rparr>)"
| settled: "r_state r = Dispatched \<Longrightarrow> 0 \<le> cost \<Longrightarrow> cost \<le> r_max r \<Longrightarrow>
    row_evolves r (r\<lparr>r_state := Settled, r_actual := Some cost, r_settled := Some now\<rparr>)"

interpretation pj: attempt_journal r_key r_auth r_state row_charge row_evolves
proof
  show "row_evolves r r" for r by (rule unchanged)
  show "row_evolves r s \<Longrightarrow> r_key s = r_key r" for r s by (auto elim: row_evolves.cases)
  show "row_evolves r s \<Longrightarrow> r_auth s = r_auth r" for r s by (auto elim: row_evolves.cases)
  show "row_evolves r s \<Longrightarrow> r_state s = r_state r \<or> lifecycle (r_state r) (r_state s)" for r s
    by (auto elim!: row_evolves.cases simp: lifecycle_simps)
  show "row_evolves r s \<Longrightarrow> row_charge s \<le> row_charge r" for r s
    by (auto elim!: row_evolves.cases simp: row_charge_def split: option.splits)
qed

lemma evolves_ok: "row_evolves r s \<Longrightarrow> row_ok r \<Longrightarrow> row_ok s"
  by (induction rule: row_evolves.induct) (auto simp: row_ok_def)

lemma evolves_reserved: "row_evolves r s \<Longrightarrow> r_state s = Reserved \<Longrightarrow> r_state r = Reserved"
  by (auto elim: row_evolves.cases)

lemma row_charge_nonneg: "row_ok r \<Longrightarrow> 0 \<le> row_charge r"
  by (auto simp: row_ok_def row_charge_def split: attempt_state.splits option.splits)

section \<open>The ledger invariant\<close>

definition auth_ok :: "res_row list \<Rightarrow> auth_row \<Rightarrow> bool" where
  "auth_ok rows a \<longleftrightarrow> 0 \<le> a_ceiling a \<and> a_ceiling a \<le> max_ceiling \<and>
     pj.encumbered (a_id a) rows \<le> a_ceiling a \<and>
     (a_state a \<noteq> Active \<longrightarrow> (\<forall>r \<in> set rows. r_auth r = a_id a \<longrightarrow> r_state r \<noteq> Reserved))"

definition ledger_ok :: "ledger_db \<Rightarrow> bool" where
  "ledger_ok db \<longleftrightarrow> distinct (map a_id (db_auths db)) \<and> distinct (map r_key (db_rows db)) \<and>
     (\<forall>r \<in> set (db_rows db). row_ok r \<and> r_auth r \<in> a_id ` set (db_auths db)) \<and>
     (\<forall>a \<in> set (db_auths db). auth_ok (db_rows db) a)"

lemma set_evolved:
  "list_all2 row_evolves rows rows' \<Longrightarrow> s \<in> set rows' \<Longrightarrow> \<exists>r \<in> set rows. row_evolves r s"
  by (metis list_all2_conv_all_nth in_set_conv_nth)

lemma evolve_ledger_ok:
  assumes ok: "ledger_ok db" and ev: "list_all2 row_evolves (db_rows db) rows"
    and auths: "\<And>a. a \<in> set auths \<Longrightarrow> \<exists>b \<in> set (db_auths db). a_id a = a_id b \<and>
      a_ceiling a = a_ceiling b \<and> (a_state a \<noteq> Active \<longrightarrow> a_state b \<noteq> Active \<or>
        (\<forall>r \<in> set rows. r_auth r = a_id a \<longrightarrow> r_state r \<noteq> Reserved))"
    and ids: "map a_id auths = map a_id (db_auths db)"
  shows "ledger_ok (db\<lparr>db_auths := auths, db_rows := rows\<rparr>)"
proof -
  have "distinct (map r_key rows)"
    using ok pj.evolve_keys [OF ev] by (simp add: ledger_ok_def)
  moreover have "row_ok s \<and> r_auth s \<in> a_id ` set auths" if s: "s \<in> set rows" for s
  proof -
    from set_evolved [OF ev s] obtain r where r: "r \<in> set (db_rows db)" "row_evolves r s" by blast
    moreover from r ok have "r_auth s \<in> a_id ` set (db_auths db)"
      using pj.evolves_owner [OF r(2)] by (auto simp: ledger_ok_def)
    moreover have "a_id ` set auths = a_id ` set (db_auths db)"
      using arg_cong [OF ids, of set] by simp
    ultimately show ?thesis using evolves_ok ok by (auto simp: ledger_ok_def)
  qed
  moreover have "auth_ok rows a" if a: "a \<in> set auths" for a
  proof -
    from auths [OF a] obtain b where b: "b \<in> set (db_auths db)" "a_id a = a_id b"
      "a_ceiling a = a_ceiling b" and st: "a_state a \<noteq> Active \<longrightarrow> a_state b \<noteq> Active \<or>
        (\<forall>r \<in> set rows. r_auth r = a_id a \<longrightarrow> r_state r \<noteq> Reserved)" by blast
    have bok: "auth_ok (db_rows db) b" using ok b(1) by (simp add: ledger_ok_def)
    have "r_state s \<noteq> Reserved" if "a_state a \<noteq> Active" "s \<in> set rows" "r_auth s = a_id a" for s
    proof (cases "a_state b = Active")
      case False
      from set_evolved [OF ev that(2)] obtain r where r: "r \<in> set (db_rows db)" "row_evolves r s" by blast
      then have "r_auth r = a_id b" using that(3) b(2) pj.evolves_owner [OF r(2)] by simp
      with bok False r show ?thesis using evolves_reserved by (auto simp: auth_ok_def)
    qed (use st that in auto)
    then show ?thesis
      using bok b pj.evolve_within [OF _ ev] by (auto simp: auth_ok_def)
  qed
  ultimately show ?thesis
    using ok ids by (simp add: ledger_ok_def)
qed

lemma evolve_rows_ok:
  assumes "ledger_ok db" and "list_all2 row_evolves (db_rows db) rows"
  shows "ledger_ok (db\<lparr>db_rows := rows\<rparr>)"
proof -
  have "ledger_ok (db\<lparr>db_auths := db_auths db, db_rows := rows\<rparr>)"
    by (rule evolve_ledger_ok [OF assms]) auto
  then show ?thesis by simp
qed

lemma release_reserved_evolves:
  assumes "\<forall>r \<in> set rows. row_ok r"
  shows "list_all2 row_evolves rows (release_reserved i reason now rows)"
  unfolding release_reserved_def using assms
  by (intro pj.update_evolves) (auto simp: row_ok_def intro: released)

lemma stop_ok:
  assumes ok: "ledger_ok db"
  shows "ledger_ok (db\<lparr>db_auths := stop_authorization st i reason now (db_auths db),
    db_rows := release_reserved i reason' now' (db_rows db)\<rparr>)"
proof (rule evolve_ledger_ok [OF ok])
  show "list_all2 row_evolves (db_rows db) (release_reserved i reason' now' (db_rows db))"
    using ok by (intro release_reserved_evolves) (simp add: ledger_ok_def)
  show "map a_id (stop_authorization st i reason now (db_auths db)) = map a_id (db_auths db)"
    by (auto simp: stop_authorization_def update_where_def)
next
  fix a assume "a \<in> set (stop_authorization st i reason now (db_auths db))"
  then show "\<exists>b \<in> set (db_auths db). a_id a = a_id b \<and> a_ceiling a = a_ceiling b \<and>
      (a_state a \<noteq> Active \<longrightarrow> a_state b \<noteq> Active \<or>
        (\<forall>r \<in> set (release_reserved i reason' now' (db_rows db)). r_auth r = a_id a \<longrightarrow> r_state r \<noteq> Reserved))"
    by (fastforce simp: stop_authorization_def release_reserved_def set_update_where)
qed

lemma close_for_drift_ok: "ledger_ok db \<Longrightarrow> ledger_ok (close_for_drift i reason now db)"
  unfolding close_for_drift_def by (rule stop_ok)

lemma ledger_ok_obs [simp]: "ledger_ok (db\<lparr>db_obs := obs\<rparr>) = ledger_ok db"
  by (simp add: ledger_ok_def)


section \<open>Sums\<close>

lemma sum_loop_charge:
  assumes "sum_loop k u v rs = Inr (k', u', v')" and "\<forall>r \<in> set rs. row_ok r"
  shows "k' + u' + v' = k + u + v + (\<Sum>r\<leftarrow>rs. row_charge r) \<and> k \<le> k' \<and> u \<le> u' \<and> v \<le> v'"
  using assms
proof (induction rs arbitrary: k u v)
  case (Cons r rs)
  have ok: "row_ok r" and oks: "\<forall>r \<in> set rs. row_ok r" using Cons.prems by simp_all
  show ?case
  proof (cases "r_state r")
    case Reserved
    with Cons.prems obtain w where "checked_add v (r_max r) = Inr w" "sum_loop k u w rs = Inr (k', u', v')"
      by (auto simp: bind_res_Inr_iff)
    with Cons.IH [of k u w] ok oks Reserved show ?thesis
      by (simp add: checked_add_Inr row_charge_def row_ok_def)
  next
    case Dispatched
    with Cons.prems obtain w where "checked_add u (r_max r) = Inr w" "sum_loop k w v rs = Inr (k', u', v')"
      by (auto simp: bind_res_Inr_iff)
    with Cons.IH [of k w v] ok oks Dispatched show ?thesis
      by (simp add: checked_add_Inr row_charge_def row_ok_def)
  next
    case Settled
    with ok obtain a where a: "r_actual r = Some a" "0 \<le> a" by (auto simp: row_ok_def)
    with Settled Cons.prems obtain w where "checked_add k a = Inr w" "sum_loop w u v rs = Inr (k', u', v')"
      by (auto simp: bind_res_Inr_iff)
    with Cons.IH [of w u v] oks a Settled show ?thesis
      by (simp add: checked_add_Inr row_charge_def)
  next
    case Released
    with Cons.prems Cons.IH [of k u v] show ?thesis by (simp add: row_charge_def)
  qed
qed simp

lemma checked_sum_total:
  assumes "checked_sum rs = Inr totals" and "\<forall>r \<in> set rs. row_ok r"
  shows "t_total totals = (\<Sum>r\<leftarrow>rs. row_charge r) \<and>
    t_known totals + t_unknown totals + t_reserved totals = t_total totals \<and>
    0 \<le> t_known totals \<and> 0 \<le> t_unknown totals \<and> 0 \<le> t_reserved totals"
  using assms sum_loop_charge [of 0 0 0 rs]
  by (auto simp: checked_sum_def bind_res_Inr_iff checked_add_Inr split: prod.splits)

lemma get_rows_set: "r \<in> set (get_rows db i) \<longleftrightarrow> r \<in> set (db_rows db) \<and> r_auth r = i"
  by (auto simp: get_rows_def)

lemma get_rows_sum: "(\<Sum>r\<leftarrow>get_rows db i. row_charge r) = pj.encumbered i (db_rows db)"
proof -
  have "mset (get_rows db i) = mset (pj.owned i (db_rows db))"
    by (simp add: get_rows_def pj.owned_def)
  then have "mset (map row_charge (get_rows db i)) = mset (map row_charge (pj.owned i (db_rows db)))"
    by simp
  then have "sum_list (map row_charge (get_rows db i)) = sum_list (map row_charge (pj.owned i (db_rows db)))"
    by (metis sum_mset_sum_list)
  then show ?thesis by (simp add: pj.encumbered_def)
qed

lemma checked_sum_get_rows:
  assumes "ledger_ok db" and "checked_sum (get_rows db i) = Inr totals"
  shows "t_total totals = pj.encumbered i (db_rows db) \<and>
    t_known totals + t_unknown totals + t_reserved totals = t_total totals \<and>
    0 \<le> t_known totals \<and> 0 \<le> t_unknown totals \<and> 0 \<le> t_reserved totals"
  using checked_sum_total [OF assms(2)] assms(1) get_rows_sum [of db i]
  by (auto simp: get_rows_set ledger_ok_def)

section \<open>Every operation keeps the invariant\<close>

lemma transaction_ok:
  assumes "ledger_ok db" and "\<And>a db'. body db = Inr (a, db') \<Longrightarrow> ledger_ok db'"
  shows "ledger_ok (snd (transaction body db))"
  using assms by (auto simp: transaction_def split: sum.splits prod.splits)

lemma parse_authorization_ceiling:
  "parse_authorization a = Some b \<Longrightarrow> 0 \<le> au_ceiling b \<and> au_ceiling b \<le> max_ceiling"
  by (auto simp: parse_authorization_def safe_nonnegative_def split: option.splits if_splits)

lemma parse_authorization_contracts:
  assumes "parse_authorization a = Some b" and "c \<in> set (au_contracts b)"
  shows "\<exists>raw. parse_contract raw = Some c"
proof -
  from assms(1) have "all_some (map parse_contract (au_contracts a)) = Some (au_contracts b)"
    by (auto simp: parse_authorization_def split: option.splits if_splits)
  then have "map parse_contract (au_contracts a) = map Some (au_contracts b)"
    by (simp add: all_some_iff)
  then have "Some c \<in> set (map parse_contract (au_contracts a))"
    using assms(2) by simp
  then show ?thesis by (auto dest: sym)
qed

lemma parse_contract_max_nonneg: "parse_contract raw = Some c \<Longrightarrow> 0 \<le> con_max_charge c"
  by (auto simp: parse_contract_def Let_def safe_nonnegative_def split: option.splits if_splits)

lemma read_authorization_Inr:
  "read_authorization row = Inr au \<Longrightarrow>
    (\<exists>v. parse_authorization v = Some au) \<and> au_id au = a_id row \<and> au_ceiling au = a_ceiling row \<and>
    au_run au = a_run row"
  by (auto simp: read_authorization_def bind_res_Inr_iff parse_json_Inr split: if_splits)

lemma get_authorization_Inr:
  "get_authorization db i = Inr a \<Longrightarrow> a \<in> set (db_auths db) \<and> a_id a = i"
  by (auto simp: get_authorization_def find_Some_iff split: option.splits if_splits)

lemma get_contract_Inr: "get_contract au i = Inr c \<Longrightarrow> c \<in> set (au_contracts au) \<and> con_id c = i"
  by (auto simp: get_contract_def dest: find_Some_set split: option.splits)

lemma contract_max_nonneg:
  assumes "read_authorization row = Inr au" and "get_contract au i = Inr c"
  shows "0 \<le> con_max_charge c"
  using read_authorization_Inr [OF assms(1)] get_contract_Inr [OF assms(2)]
    parse_authorization_contracts parse_contract_max_nonneg by blast

lemma freeze_ok: "ledger_ok db \<Longrightarrow> ledger_ok (snd (freeze_authorization input now db))"
proof -
  assume ok: "ledger_ok db"
  have new: "ledger_ok (db\<lparr>db_auths := db_auths db @ [a]\<rparr>)"
    if "a_id a \<notin> a_id ` set (db_auths db)" "0 \<le> a_ceiling a" "a_ceiling a \<le> max_ceiling" for a
  proof -
    have none: "\<forall>r \<in> set (db_rows db). r_auth r \<noteq> a_id a"
      using ok that(1) by (metis ledger_ok_def)
    then have "pj.owned (a_id a) (db_rows db) = []"
      by (simp add: pj.owned_def)
    then have "auth_ok (db_rows db) a"
      using that none by (auto simp: auth_ok_def pj.encumbered_def)
    then show ?thesis using ok that(1) by (auto simp: ledger_ok_def)
  qed
  show ?thesis
  proof (cases "bind_res (zod (parse_authorization input)) (\<lambda>au.
      bind_res (content_digest_of (authorization_value au)) (\<lambda>h. Inr (au, h)))")
    case (Inr p)
    then obtain au h where p: "p = (au, h)" "parse_authorization input = Some au"
      by (auto simp: bind_res_Inr_iff)
    show ?thesis
      unfolding freeze_authorization_def Inr p(1) sum.case prod.case
      using ok parse_authorization_ceiling [OF p(2)]
      by (intro transaction_ok)
        (auto simp: bind_res_Inr_iff find_None_iff split: option.splits intro!: new)
  qed (use ok in \<open>simp add: freeze_authorization_def\<close>)
qed

lemma admit_ok:
  assumes ok: "ledger_ok db" and a: "a \<in> set (db_auths db)" "a_id a = r_auth r" "a_state a = Active"
    and fresh: "r_key r \<notin> r_key ` set (db_rows db)" and r: "r_state r = Reserved" "row_ok r"
    and room: "r_max r \<le> a_ceiling a - pj.encumbered (r_auth r) (db_rows db)"
  shows "ledger_ok (db\<lparr>db_rows := db_rows db @ [r]\<rparr>)"
proof -
  have "auth_ok (db_rows db @ [r]) b" if b: "b \<in> set (db_auths db)" for b
  proof (cases "a_id b = r_auth r")
    case True
    have "distinct (map a_id (db_auths db))" using ok by (simp add: ledger_ok_def)
    then have "inj_on a_id (set (db_auths db))" by (simp add: distinct_map)
    then have "b = a" using True a b by (metis inj_onD)
    moreover have "row_charge r = r_max r" using r(1) by (simp add: row_charge_def)
    ultimately show ?thesis
      using ok a room pj.admit_within [of r "db_rows db" "a_ceiling a"]
      by (auto simp: ledger_ok_def auth_ok_def)
  next
    case False
    then show ?thesis
      using ok b by (auto simp: ledger_ok_def auth_ok_def)
  qed
  moreover have "r_auth r \<in> a_id ` set (db_auths db)" using a by (metis imageI)
  ultimately show ?thesis using ok fresh r by (auto simp: ledger_ok_def)
qed

lemma reserve_ok: "ledger_ok db \<Longrightarrow> ledger_ok (snd (reserve sc0 d0 now db))"
proof -
  assume ok: "ledger_ok db"
  have "ledger_ok db'" if body: "reserve_body sc d now db = Inr (rec, db')" for sc d rec db'
  proof -
    from body obtain arow au c dh where
        arow: "get_authorization db (sc_auth sc) = Inr arow" and au: "read_authorization arow = Inr au"
      and act: "a_state arow = Active" and c: "get_contract au (de_contract d) = Inr c"
      and rest: "(case find (\<lambda>r. r_key r = de_key d) (db_rows db) of
          Some ex \<Rightarrow> bind_res (ensure (r_auth ex = au_id au \<and> r_descriptor_hash ex = dh) ''paid_effect_idempotency_conflict'') (\<lambda>_.
            bind_res (map_reservation db ex) (\<lambda>rec. Inr (rec, db)))
        | None \<Rightarrow>
            let rs = get_rows db (au_id au); mx = con_max_charge c in
            bind_res (cumulative_check d rs (con_dimensions c)) (\<lambda>_.
            bind_res (checked_sum rs) (\<lambda>totals.
            bind_res (ensure (\<not> (t_total totals > au_ceiling au \<or> mx > au_ceiling au - t_total totals))
                        ''paid_effect_budget_exhausted'') (\<lambda>_.
            let row = new_row au sc d dh mx now; db' = db\<lparr>db_rows := db_rows db @ [row]\<rparr> in
            bind_res (map_reservation db' row) (\<lambda>rec. Inr (rec, db')))))) = Inr (rec, db')"
      unfolding reserve_body_def by (auto simp: bind_res_Inr_iff)
    show ?thesis
    proof (cases "find (\<lambda>r. r_key r = de_key d) (db_rows db)")
      case (Some ex)
      with rest ok show ?thesis by (auto simp: bind_res_Inr_iff)
    next
      case None
      with rest obtain totals where tot: "checked_sum (get_rows db (au_id au)) = Inr totals"
        and room: "con_max_charge c \<le> au_ceiling au - t_total totals"
        and db': "db' = db\<lparr>db_rows := db_rows db @ [new_row au sc d dh (con_max_charge c) now]\<rparr>"
        by (auto simp: bind_res_Inr_iff Let_def)
      note ra = read_authorization_Inr [OF au] and ga = get_authorization_Inr [OF arow]
      show ?thesis
        unfolding db'
      proof (rule admit_ok [OF ok, of arow])
        show "row_ok (new_row au sc d dh (con_max_charge c) now)"
          using contract_max_nonneg [OF au c] by (simp add: row_ok_def new_row_def)
        show "r_max (new_row au sc d dh (con_max_charge c) now) \<le> a_ceiling arow -
            pj.encumbered (r_auth (new_row au sc d dh (con_max_charge c) now)) (db_rows db)"
          using room ra checked_sum_get_rows [OF ok tot] by (simp add: new_row_def)
        show "r_key (new_row au sc d dh (con_max_charge c) now) \<notin> r_key ` set (db_rows db)"
          using None by (auto simp: find_None_iff new_row_def)
      qed (use ra ga act in \<open>simp_all add: new_row_def\<close>)
    qed
  qed
  then show ?thesis
    using ok by (auto simp: reserve_def split: sum.splits intro!: transaction_ok [OF ok])
qed


lemma update_rows_ok:
  assumes "ledger_ok db" and "\<And>r. r \<in> set (db_rows db) \<Longrightarrow> row_ok r \<Longrightarrow> p r \<Longrightarrow> row_evolves r (f r)"
  shows "ledger_ok (db\<lparr>db_rows := update_where p f (db_rows db)\<rparr>)"
  using assms by (intro evolve_rows_ok pj.update_evolves) (auto simp: ledger_ok_def)

lemma mark_ok: "ledger_ok db \<Longrightarrow> ledger_ok (snd (mark_dispatched i k dh now db))"
  unfolding mark_dispatched_def
  by (rule transaction_ok)
    (auto simp: bind_res_Inr_iff Let_def intro!: update_rows_ok intro: row_evolves.dispatched)

text \<open>What a settlement does when its transaction commits.\<close>

lemma settle_authoritative_cases:
  assumes "settle_authoritative i k oh ref src usage cost est au r now db = Inr (res, db')"
  obtains (replay) "r_state r = Settled" "res = Settle_ok" "db' = db"
  | (drift) reason where "r_state r = Dispatched" "res = Settle_drift"
      "db' = close_for_drift i reason now db"
  | (charged) d c where "r_state r = Dispatched" "res = Settle_ok"
      "parse_json ''descriptor'' parse_descriptor (r_descriptor r) = Inr d"
      "get_contract au (de_contract d) = Inr c" "src = con_source c"
      "calculate_charge c usage = Inr cost" "cost \<le> r_max r"
      "db' = record_charge i k oh ref src usage cost est now db"
proof (cases "r_state r = Settled")
  case True
  with assms show ?thesis
    by (intro replay) (auto simp: settle_authoritative_def split: if_splits)
next
  case False
  with assms obtain d c where rs: "r_state r = Dispatched"
    and d: "parse_json ''descriptor'' parse_descriptor (r_descriptor r) = Inr d"
    and c: "get_contract au (de_contract d) = Inr c" and src: "src = con_source c"
    and rest: "(case calculate_charge c usage of
          Inl e \<Rightarrow> Inr (Settle_drift, close_for_drift i (thrown_message e) now db)
        | Inr computed \<Rightarrow>
            (case find (\<lambda>(unit, q). case map_of (de_units d) unit of None \<Rightarrow> True | Some m \<Rightarrow> q > m) usage of
               Some (unit, _) \<Rightarrow> Inr (Settle_drift, close_for_drift i (''paid_effect_contract_drift:'' @ unit) now db)
             | None \<Rightarrow>
                 if computed \<noteq> cost \<or> cost > r_max r
                 then Inr (Settle_drift, close_for_drift i ''paid_effect_authoritative_charge_exceeds_contract'' now db)
                 else Inr (Settle_ok, record_charge i k oh ref src usage cost est now db))) =
        (Inr (res, db') :: (thrown, settle_outcome \<times> ledger_db) result)"
    unfolding settle_authoritative_def if_not_P [OF False]
    by (elim bind_res_InrE, unfold ensure_Inr) (elim conjE, rule that; assumption)
  show ?thesis
  proof (cases "calculate_charge c usage")
    case (Inl e)
    with rest show ?thesis by (intro drift [OF rs, of "thrown_message e"]) simp_all
  next
    case (Inr computed)
    show ?thesis
    proof (cases "find (\<lambda>(unit, q). case map_of (de_units d) unit of None \<Rightarrow> True | Some m \<Rightarrow> q > m) usage")
      case (Some uq)
      with Inr rest show ?thesis
        by (cases uq) (intro drift [OF rs, of "''paid_effect_contract_drift:'' @ fst uq"]; simp)
    next
      case None
      show ?thesis
      proof (cases "computed \<noteq> cost \<or> cost > r_max r")
        case True
        with Inr None rest show ?thesis
          by (intro drift [OF rs, of "''paid_effect_authoritative_charge_exceeds_contract''"]) simp_all
      next
        case False
        with Inr None rest show ?thesis
          by (intro charged [OF rs _ d c src]) simp_all
      qed
    qed
  qed
qed

lemma parse_settlement_cost:
  "parse_settlement input = Some (Authoritative ref src usage cost est) \<Longrightarrow> 0 \<le> cost"
  by (cases input) (auto simp: safe_nonnegative_def split: option.splits if_splits)

lemma find_row_Some: "find_row db i k = Some r \<Longrightarrow> r \<in> set (db_rows db) \<and> r_auth r = i \<and> r_key r = k"
  unfolding find_row_def by (auto dest: find_Some_set)

lemma record_charge_ok:
  assumes ok: "ledger_ok db" and r: "find_row db i k = Some r" and cost: "0 \<le> cost" "cost \<le> r_max r"
  shows "ledger_ok (record_charge i k oh ref src usage cost est now db)"
proof -
  let ?p = "\<lambda>q. r_auth q = i \<and> r_key q = k \<and> r_state q = Dispatched"
  let ?f = "\<lambda>q. q\<lparr>r_state := Settled, r_actual := Some cost, r_settled := Some now\<rparr>"
  have inj: "inj_on r_key (set (db_rows db))"
    using ok by (simp add: ledger_ok_def distinct_map)
  have "row_evolves q (?f q)" if q: "q \<in> set (db_rows db)" "?p q" for q
  proof -
    have "q = r" using inj q find_row_Some [OF r] by (metis inj_onD)
    then show ?thesis using q cost by (intro row_evolves.settled) auto
  qed
  then have "ledger_ok (db\<lparr>db_rows := update_where ?p ?f (db_rows db)\<rparr>)"
    by (intro update_rows_ok [OF ok])
  then show ?thesis
    by (simp add: record_charge_def ledger_ok_def)
qed

lemma settle_body_cases:
  assumes "settle_body i k dh st oh now db = Inr (res, db')"
  obtains (unknown) r obs where "find_row db i k = Some r" "r_state r = Dispatched" "res = Settle_ok"
      "db' = db\<lparr>db_obs := obs\<rparr>"
  | (authoritative) au r ref src usage cost est where "st = Authoritative ref src usage cost est"
      "find_row db i k = Some r" "r_descriptor_hash r = dh" "\<exists>arow. read_authorization arow = Inr au"
      "settle_authoritative i k oh ref src usage cost est au r now db = Inr (res, db')"
proof -
  from assms obtain arow au where au: "read_authorization arow = Inr au"
    and rest: "(case find_row db i k of
       None \<Rightarrow> js_error ''paid_effect_reservation_missing''
     | Some r \<Rightarrow>
         bind_res (ensure (r_descriptor_hash r = dh) ''paid_effect_idempotency_conflict'') (\<lambda>_.
         case st of
           Unknown_charge usage est \<Rightarrow> settle_unknown k oh usage est r now db
         | Authoritative ref src usage cost est \<Rightarrow>
             settle_authoritative i k oh ref src usage cost est au r now db)) = Inr (res, db')"
    unfolding settle_body_def by (elim bind_res_InrE)
  from rest obtain r where r: "find_row db i k = Some r" "r_descriptor_hash r = dh"
    and run: "(case st of
           Unknown_charge usage est \<Rightarrow> settle_unknown k oh usage est r now db
         | Authoritative ref src usage cost est \<Rightarrow>
             settle_authoritative i k oh ref src usage cost est au r now db) = Inr (res, db')"
    by (cases "find_row db i k") (auto simp: bind_res_Inr_iff)
  show thesis
  proof (cases st)
    case (Unknown_charge usage est)
    with run r show thesis
      by (auto simp: settle_unknown_def bind_res_Inr_iff intro: unknown)
  next
    case (Authoritative ref src usage cost est)
    with run r au show thesis by (intro authoritative) auto
  qed
qed

lemma settle_body_ok:
  assumes ok: "ledger_ok db" and st: "parse_settlement input = Some st"
    and body: "settle_body i k dh st oh now db = Inr (res, db')"
  shows "ledger_ok db'"
  using body
proof (cases rule: settle_body_cases)
  case (unknown r obs)
  with ok show ?thesis by simp
next
  case (authoritative au r ref src usage cost est)
  from authoritative(5) show ?thesis
  proof (cases rule: settle_authoritative_cases)
    case (charged d c)
    with ok st authoritative show ?thesis
      by (auto intro: record_charge_ok parse_settlement_cost)
  qed (use ok close_for_drift_ok in auto)
qed

lemma settle_attempt_state:
  "snd (settle_attempt i k dh input now db) = db \<or>
   (\<exists>st oh res. parse_settlement input = Some st \<and>
      settle_body i k dh st oh now db = Inr (res, snd (settle_attempt i k dh input now db)))"
proof (cases "bind_res (zod (parse_settlement input)) (\<lambda>st.
             bind_res (content_digest_of (settlement_value st)) (\<lambda>oh. Inr (st, oh)))")
  case (Inl e)
  then show ?thesis by (simp add: settle_attempt_def)
next
  case (Inr p)
  then obtain st oh where p: "p = (st, oh)" "parse_settlement input = Some st"
    by (auto simp: bind_res_Inr_iff)
  show ?thesis
  proof (cases "settle_body i k dh st oh now db")
    case (Inl e)
    with Inr p show ?thesis by (simp add: settle_attempt_def transaction_def)
  next
    case (Inr q)
    with \<open>_ = Inr p\<close> p show ?thesis
      by (cases q; cases "fst q") (auto simp: settle_attempt_def transaction_def)
  qed
qed

lemma settle_ok: "ledger_ok db \<Longrightarrow> ledger_ok (snd (settle_attempt i k dh input now db))"
  using settle_attempt_state [of i k dh input now db] settle_body_ok by metis

lemma release_ok: "ledger_ok db \<Longrightarrow> ledger_ok (snd (release_undispatched i k dh reason now db))"
proof -
  assume ok: "ledger_ok db"
  show ?thesis
    unfolding release_undispatched_def Let_def
    by (auto simp: bind_res_Inr_iff row_ok_def ok split: option.splits if_splits
        intro!: transaction_ok [OF ok] update_rows_ok [OF ok] row_evolves.released)
qed

lemma close_ok: "ledger_ok db \<Longrightarrow> ledger_ok (snd (close_authorization i reason now db))"
proof -
  assume ok: "ledger_ok db"
  show ?thesis
    unfolding close_authorization_def Let_def
    by (auto simp: bind_res_Inr_iff ok split: if_splits intro!: transaction_ok [OF ok] stop_ok [OF ok])
qed


section \<open>Histories\<close>

datatype ledger_call =
    Freeze authorization
  | Reserve qualification_scope attempt_descriptor
  | Mark string string string
  | Settle string string string settlement
  | Release string string string string
  | Close string string

fun exec_call :: "string \<times> ledger_call \<Rightarrow> ledger_db \<Rightarrow> ledger_db" where
  "exec_call (now, Freeze au) db = snd (freeze_authorization au now db)"
| "exec_call (now, Reserve sc d) db = snd (reserve sc d now db)"
| "exec_call (now, Mark i k dh) db = snd (mark_dispatched i k dh now db)"
| "exec_call (now, Settle i k dh st) db = snd (settle_attempt i k dh st now db)"
| "exec_call (now, Release i k dh reason) db = snd (release_undispatched i k dh reason now db)"
| "exec_call (now, Close i reason) db = snd (close_authorization i reason now db)"

definition empty_ledger :: ledger_db where
  "empty_ledger = \<lparr>db_auths = [], db_rows = [], db_obs = []\<rparr>"

definition run_calls :: "(string \<times> ledger_call) list \<Rightarrow> ledger_db \<Rightarrow> ledger_db" where
  "run_calls calls db = fold exec_call calls db"

lemma exec_call_ok: "ledger_ok db \<Longrightarrow> ledger_ok (exec_call c db)"
  by (cases "(c, db)" rule: exec_call.cases)
    (simp_all add: freeze_ok reserve_ok mark_ok settle_ok release_ok close_ok)

lemma run_calls_ok: "ledger_ok db \<Longrightarrow> ledger_ok (run_calls calls db)"
  unfolding run_calls_def by (induction calls arbitrary: db) (simp_all add: exec_call_ok)

lemma empty_ledger_ok: "ledger_ok empty_ledger"
  by (simp add: ledger_ok_def empty_ledger_def)

lemmas reachable_ok = run_calls_ok [OF empty_ledger_ok]

text \<open>Every call lets the existing rows evolve and appends at most new ones.\<close>

definition grows :: "res_row list \<Rightarrow> res_row list \<Rightarrow> bool" where
  "grows rows rows' \<longleftrightarrow> (\<exists>evolved new. rows' = evolved @ new \<and> list_all2 row_evolves rows evolved)"

lemma grows_refl [simp]: "grows rows rows"
  unfolding grows_def by (intro exI [of _ rows] exI [of _ "[]"]) (simp add: list_all2_refl row_evolves.unchanged)

lemma grows_append: "grows rows (rows @ new)"
  unfolding grows_def by (intro exI [of _ rows] exI [of _ new]) (simp add: list_all2_refl row_evolves.unchanged)

lemma grows_evolve: "list_all2 row_evolves rows rows' \<Longrightarrow> grows rows rows'"
  unfolding grows_def by force

lemma grows_update:
  "(\<And>r. r \<in> set rows \<Longrightarrow> p r \<Longrightarrow> row_evolves r (f r)) \<Longrightarrow> grows rows (update_where p f rows)"
  by (intro grows_evolve pj.update_evolves)

lemma transaction_grows:
  assumes "\<And>a db'. body db = Inr (a, db') \<Longrightarrow> grows (db_rows db) (db_rows db')"
  shows "grows (db_rows db) (db_rows (snd (transaction body db)))"
  using assms by (auto simp: transaction_def split: sum.splits prod.splits)

lemma freeze_rows: "db_rows (snd (freeze_authorization input now db)) = db_rows db"
  by (auto simp: freeze_authorization_def transaction_def bind_res_def ensure_def
      split: sum.splits option.splits prod.splits if_splits)

lemma reserve_body_rows:
  assumes "reserve_body sc d now db = Inr (rec, db')"
  shows "db_auths db' = db_auths db \<and> (db' = db \<or> (\<exists>row. db' = db\<lparr>db_rows := db_rows db @ [row]\<rparr> \<and> map_reservation db' row = Inr rec))"
  using assms unfolding reserve_body_def
  by (elim bind_res_InrE) (auto simp: Let_def bind_res_Inr_iff split: option.splits)

lemma reserve_grows: "grows (db_rows db) (db_rows (snd (reserve sc0 d0 now db)))"
  unfolding reserve_def
  by (auto split: sum.splits intro!: transaction_grows dest!: reserve_body_rows simp: grows_append)

lemma release_reserved_grows: "ledger_ok db \<Longrightarrow> grows (db_rows db) (release_reserved i reason now (db_rows db))"
  by (intro grows_evolve release_reserved_evolves) (simp add: ledger_ok_def)

lemma record_charge_grows:
  assumes ok: "ledger_ok db" and r: "find_row db i k = Some r" and cost: "0 \<le> cost" "cost \<le> r_max r"
  shows "grows (db_rows db) (db_rows (record_charge i k oh ref src usage cost est now db))"
proof -
  have "inj_on r_key (set (db_rows db))"
    using ok by (simp add: ledger_ok_def distinct_map)
  then have "q = r" if "q \<in> set (db_rows db)" "r_key q = k" for q
    using that find_row_Some [OF r] by (metis inj_onD)
  then show ?thesis
    using cost by (auto simp: record_charge_def intro!: grows_update row_evolves.settled)
qed

lemma settle_grows:
  assumes ok: "ledger_ok db"
  shows "grows (db_rows db) (db_rows (snd (settle_attempt i k dh input now db)))"
proof -
  have "grows (db_rows db) (db_rows db')"
    if st: "parse_settlement input = Some st" and body: "settle_body i k dh st oh now db = Inr (res, db')"
    for st oh res db'
    using body
  proof (cases rule: settle_body_cases)
    case (authoritative au r ref src usage cost est)
    from authoritative(5) show ?thesis
    proof (cases rule: settle_authoritative_cases)
      case (charged d c)
      with authoritative st show ?thesis
        by (auto intro: record_charge_grows [OF ok] parse_settlement_cost)
    qed (auto simp: close_for_drift_def release_reserved_grows [OF ok])
  qed simp
  then show ?thesis
    using settle_attempt_state [of i k dh input now db] by (metis grows_refl)
qed

lemma exec_call_grows: "ledger_ok db \<Longrightarrow> grows (db_rows db) (db_rows (exec_call c db))"
proof (cases "(c, db)" rule: exec_call.cases)
  case (3 now i k dh db')
  then show ?thesis
    by (auto simp: mark_dispatched_def bind_res_Inr_iff Let_def
        intro!: transaction_grows grows_update intro: row_evolves.dispatched)
next
  case (5 now i k dh reason db')
  moreover assume "ledger_ok db"
  ultimately show ?thesis
    by (auto simp: release_undispatched_def bind_res_Inr_iff Let_def ledger_ok_def row_ok_def
        split: option.splits if_splits intro!: transaction_grows grows_update row_evolves.released)
next
  case (6 now i reason db')
  moreover assume "ledger_ok db"
  ultimately show ?thesis
    by (auto simp: close_authorization_def bind_res_Inr_iff Let_def release_reserved_grows
        split: if_splits intro!: transaction_grows)
qed (simp_all add: freeze_rows reserve_grows settle_grows)

lemma grows_nth:
  assumes "grows rows rows'" and "i < length rows"
  shows "i < length rows' \<and> row_evolves (rows ! i) (rows' ! i)"
  using assms by (auto simp: grows_def list_all2_conv_all_nth nth_append)

lemma run_calls_nth:
  assumes "ledger_ok db" and "i < length (db_rows db)"
  shows "i < length (db_rows (run_calls calls db)) \<and>
    row_evolves\<^sup>*\<^sup>* (db_rows db ! i) (db_rows (run_calls calls db) ! i)"
  using assms unfolding run_calls_def
proof (induction calls arbitrary: db)
  case (Cons c calls)
  have "i < length (db_rows (exec_call c db)) \<and> row_evolves (db_rows db ! i) (db_rows (exec_call c db) ! i)"
    using grows_nth [OF exec_call_grows] Cons.prems by blast
  with Cons.IH [of "exec_call c db"] Cons.prems show ?case
    by (auto simp: exec_call_ok intro: converse_rtranclp_into_rtranclp)
qed simp

lemma evolves_many:
  assumes "row_evolves\<^sup>*\<^sup>* r s"
  shows "r_key s = r_key r \<and> r_auth s = r_auth r \<and> r_descriptor_hash s = r_descriptor_hash r \<and>
    r_max s = r_max r \<and> r_state r \<le> r_state s \<and> row_charge s \<le> row_charge r \<and>
    (\<not> open_attempt (r_state r) \<longrightarrow> s = r)"
  using assms
proof (induction rule: rtranclp_induct)
  case (step s t)
  have "r_key t = r_key s \<and> r_auth t = r_auth s \<and> r_descriptor_hash t = r_descriptor_hash s \<and> r_max t = r_max s"
    using step.hyps(2) by (auto elim!: row_evolves.cases)
  moreover have "r_state s \<le> r_state t"
    using pj.evolves_state [OF step.hyps(2)] lifecycle_increases by fastforce
  moreover have "\<not> open_attempt (r_state s) \<longrightarrow> t = s"
    using step.hyps(2) by (auto elim!: row_evolves.cases simp: open_attempt_def)
  ultimately show ?case
    using step.IH pj.evolves_charge [OF step.hyps(2)] by auto
qed simp

section \<open>Properties\<close>

text \<open>
  C1. Approved spending is never exceeded: after any sequence of repository calls on an empty
  ledger, whatever their arguments, what the attempts of an authorization have cost or may still
  cost (settled charges at their actual cost, reserved and dispatched ones at their maximum) is
  within its approved ceiling, the ceiling is within three dollars, and a closed or drifted
  authorization holds no attempt that could still be dispatched.
\<close>

theorem spending_within_ceiling:
  assumes "a \<in> set (db_auths (run_calls calls empty_ledger))"
  shows "(\<Sum>r\<leftarrow>filter (\<lambda>r. r_auth r = a_id a) (db_rows (run_calls calls empty_ledger)). row_charge r) \<le> a_ceiling a \<and>
    a_ceiling a \<le> 3000000 \<and>
    (a_state a \<noteq> Active \<longrightarrow>
      filter (\<lambda>r. r_auth r = a_id a \<and> r_state r = Reserved) (db_rows (run_calls calls empty_ledger)) = [])"
  using reachable_ok [of calls] assms
  by (auto simp: ledger_ok_def auth_ok_def pj.encumbered_def pj.owned_def max_ceiling_def filter_empty_conv)



text \<open>The successful paths of a reservation.\<close>

lemma reserve_body_cases:
  assumes "reserve_body sc d now db = Inr (rec, db')"
  obtains arow au c v1 v2 dh where "get_authorization db (sc_auth sc) = Inr arow"
    "read_authorization arow = Inr au" "assert_scope sc au = Inr v1" "a_state arow = Active"
    "get_contract au (de_contract d) = Inr c" "validate_descriptor d c = Inr v2"
    "reservation_digest (a_hash arow) sc d (con_max_charge c) = Inr dh"
    "(\<exists>ex. find (\<lambda>r. r_key r = de_key d) (db_rows db) = Some ex \<and> r_auth ex = au_id au \<and>
        r_descriptor_hash ex = dh \<and> map_reservation db ex = Inr rec \<and> db' = db) \<or>
     (find (\<lambda>r. r_key r = de_key d) (db_rows db) = None \<and>
        (let row = new_row au sc d dh (con_max_charge c) now
         in db' = db\<lparr>db_rows := db_rows db @ [row]\<rparr> \<and> map_reservation db' row = Inr rec))"
  using assms unfolding reserve_body_def
  by (elim bind_res_InrE, unfold ensure_Inr)
    (rule that, assumption+, auto simp: Let_def bind_res_Inr_iff split: option.splits)

lemma find_append_new: "find p xs = None \<Longrightarrow> p y \<Longrightarrow> find p (xs @ [y]) = Some y"
  by (induction xs) (auto split: if_splits)

lemma reserve_body_replay:
  assumes "reserve_body sc d now db = Inr (rec, db')"
  shows "reserve_body sc d later db' = Inr (rec, db')"
  using assms
proof (cases rule: reserve_body_cases)
  case (1 arow au c v1 v2 dh)
  have auths: "db_auths db' = db_auths db"
    using reserve_body_rows [OF assms] by blast
  then have ga: "get_authorization db' (sc_auth sc) = Inr arow"
    using 1(1) by (simp add: get_authorization_def)
  have ex: "\<exists>ex. find (\<lambda>r. r_key r = de_key d) (db_rows db') = Some ex \<and> r_auth ex = au_id au \<and>
      r_descriptor_hash ex = dh \<and> map_reservation db' ex = Inr rec"
    using 1(8) by (auto simp: Let_def find_append_new new_row_def)
  from ex show ?thesis
    unfolding reserve_body_def using ga 1(2-7) by (auto simp: ensure_def)
qed

text \<open>
  C8. Reserving is idempotent: repeating a successful reservation request, at any later time but
  with nothing in between, returns the same record and changes nothing, so a replayed request
  never sets the money aside twice.
\<close>

theorem reserve_replay:
  assumes "reserve scope desc now db = (Inr rec, db')"
  shows "reserve scope desc later db' = (Inr rec, db')"
proof -
  from assms obtain sc d where p: "parse_scope scope = Some sc" "parse_descriptor desc = Some d"
    and "transaction (reserve_body sc d now) db = (Inr rec, db')"
    by (auto simp: reserve_def bind_res_Inr_iff split: sum.splits)
  then have "reserve_body sc d now db = Inr (rec, db')"
    by (auto simp: transaction_def split: sum.splits)
  from reserve_body_replay [OF this] p show ?thesis
    by (simp add: reserve_def transaction_def)
qed

lemma settle_attempt_Inr:
  assumes "settle_attempt i k dh input now db = (Inr (), db')"
  shows "\<exists>st oh. parse_settlement input = Some st \<and> settle_body i k dh st oh now db = Inr (Settle_ok, db')"
proof -
  from assms obtain st oh where p: "parse_settlement input = Some st"
    and run: "(case transaction (settle_body i k dh st oh now) db of
             (Inl e, db') \<Rightarrow> (Inl e, db')
           | (Inr Settle_drift, db') \<Rightarrow> (js_error ''paid_effect_billing_contract_drift'', db')
           | (Inr Settle_ok, db') \<Rightarrow> (Inr (), db')) = (Inr (), db')"
    unfolding settle_attempt_def by (auto simp: bind_res_Inr_iff split: sum.splits)
  show ?thesis
  proof (cases "settle_body i k dh st oh now db")
    case (Inr q)
    with run p show ?thesis by (cases q; cases "fst q") (auto simp: transaction_def)
  qed (use run in \<open>simp add: transaction_def\<close>)
qed


text \<open>After drift or closing, the authorization is stopped.\<close>

definition stopped :: "string \<Rightarrow> ledger_db \<Rightarrow> bool" where
  "stopped i db \<longleftrightarrow> (\<forall>a \<in> set (db_auths db). a_id a = i \<longrightarrow> a_state a \<noteq> Active)"

lemma stop_authorization_stops:
  "st \<noteq> Active \<Longrightarrow> a \<in> set (stop_authorization st i reason now auths) \<Longrightarrow> a_id a = i \<Longrightarrow> a_state a \<noteq> Active"
  unfolding stop_authorization_def set_update_where by (elim bexE disjE conjE) simp_all

lemma close_for_drift_stops: "stopped i (close_for_drift i reason now db)"
  by (auto simp: stopped_def close_for_drift_def dest: stop_authorization_stops [rotated])

lemma stopped_no_reserve:
  assumes "stopped i db" and "parse_scope scope = Some sc" and "sc_auth sc = i"
  shows "\<exists>e. reserve scope desc now db = (Inl e, db)"
proof (cases "parse_descriptor desc")
  case (Some d)
  have "reserve_body sc d now db \<noteq> Inr (rec, db')" for rec db'
  proof
    assume "reserve_body sc d now db = Inr (rec, db')"
    then show False
    proof (cases rule: reserve_body_cases)
      case (1 arow au c v1 v2 dh)
      with get_authorization_Inr [OF 1(1)] assms show False by (auto simp: stopped_def)
    qed
  qed
  then show ?thesis
    using assms(2) Some by (cases "reserve_body sc d now db") (auto simp: reserve_def transaction_def)
qed (use assms in \<open>simp add: reserve_def zod_def\<close>)

lemma stopped_no_dispatch:
  assumes "stopped i db"
  shows "\<exists>e. mark_dispatched i k dh now db = (Inl e, db)"
proof (cases "get_authorization db i")
  case (Inr a)
  with get_authorization_Inr [OF Inr] assms show ?thesis
    by (auto simp: stopped_def mark_dispatched_def transaction_def ensure_def js_error_def)
qed (simp add: mark_dispatched_def transaction_def)


end
