(* ===== verification/PaidEffectSamples.thy ===== *)
theory PaidEffectSamples
  imports PaidEffectLedger
begin

text \<open>
  A concrete ledger run (one authorization, one contract, one attempt) that the theorems of the
  paid-effect ledger are applied to. The digests stay symbolic: that they exist is proved from the
  canonical JSON theory, not computed.
\<close>

section \<open>A sample ledger\<close>


definition sample_authorization :: "string \<Rightarrow> authorization" where
  "sample_authorization h = \<lparr>au_schema = 1, au_id = ''a'', au_run = ''r'', au_ceiling = 100,
     au_arms = [Baseline], au_contracts = [sample_contract h]\<rparr>"

definition sample_scope :: qualification_scope where
  "sample_scope = \<lparr>sc_run = ''r'', sc_auth = ''a'', sc_arm = Baseline, sc_output = ''o'',
     sc_beneficiaries = [\<lparr>ben_kind = Item_kind, ben_id = ''b''\<rparr>]\<rparr>"

definition sample_descriptor :: "string \<Rightarrow> attempt_descriptor" where
  "sample_descriptor ch = \<lparr>de_key = ''k'', de_logical = ''l'', de_provider = ''p'', de_model = ''m'',
     de_effect = ''e'', de_contract = ''c'', de_contract_hash = ch, de_units = [(''tokens'', 2000)]\<rparr>"

lemma parse_identifier_letter: "\<not> is_space c \<Longrightarrow> parse_identifier [c] = Some [c]"
  by (simp add: parse_identifier_def parse_identifier_upto_def trim_singleton)

lemma sample_letters: "c \<in> set ''aroblpmeckv'' \<Longrightarrow> \<not> is_space c"
  by (auto simp: is_space_def code_def)

lemma sample_scope_parses: "parse_scope sample_scope = Some sample_scope"
  by (simp add: sample_scope_def parse_scope_def parse_beneficiaries_def parse_beneficiary_def
      parse_identifier_letter sample_letters)

lemma sample_descriptor_parses:
  "is_sha256_hex ch \<Longrightarrow> parse_descriptor (sample_descriptor ch) = Some (sample_descriptor ch)"
  by (simp add: sample_descriptor_def parse_descriptor_def idempotency_key_ok_def
      parse_identifier_letter sample_letters safe_nonnegative_def max_safe_integer_def is_letter_def code_def)

lemma json_ok_sample_contract: "json_ok (contract_value (sample_contract h))"
proof -
  have "json_ok (dimension_value sample_dimension)"
    unfolding dimension_value_def by (intro json_ok_obj) (simp add: sample_dimension_def max_safe_integer_def)
  then have "json_ok (arr (map dimension_value (con_dimensions (sample_contract h))))"
    by (intro json_ok_arr) (simp add: sample_contract_def)
  then show ?thesis
    unfolding contract_value_def terms_fields_def
    by (intro json_ok_obj) (simp add: sample_contract_def max_safe_integer_def)
qed

lemma json_ok_sample_authorization: "json_ok (authorization_value (sample_authorization h))"
proof -
  have "json_ok (arr (map contract_value (au_contracts (sample_authorization h))))"
    by (intro json_ok_arr) (simp add: sample_authorization_def json_ok_sample_contract)
  moreover have "json_ok (arr (map (jstr \<circ> arm_name) (au_arms (sample_authorization h))))"
    by (intro json_ok_arr) simp
  ultimately show ?thesis
    unfolding authorization_value_def
    by (intro json_ok_obj) (simp add: sample_authorization_def max_safe_integer_def)
qed

lemma json_ok_reservation:
  "json_ok (obj [(''authorizationHash'', jstr ah), (''scope'', scope_value sample_scope),
     (''descriptor'', descriptor_value (sample_descriptor ch)), (''billingContractHash'', jstr ch),
     (''maximumChargeMicros'', jint 31)])"
proof -
  have "json_ok (beneficiaries_value bs)" for bs
    unfolding beneficiaries_value_def by (intro json_ok_arr) (auto intro!: json_ok_obj)
  then have "json_ok (scope_value sample_scope)"
    unfolding scope_value_def by (intro json_ok_obj) simp
  moreover have "json_ok (obj (map (\<lambda>(k, n). (k, jint n)) (de_units (sample_descriptor ch))))"
    by (intro json_ok_obj) (simp add: sample_descriptor_def max_safe_integer_def)
  then have "json_ok (descriptor_value (sample_descriptor ch))"
    unfolding descriptor_value_def by (intro json_ok_obj) simp
  ultimately show ?thesis by (intro json_ok_obj) (simp add: max_safe_integer_def)
qed

text \<open>All the hashes of a sample run: one authorization, one attempt.\<close>

lemma sample_run:
  obtains h ah ch dh where
    "parse_contract (sample_contract h) = Some (sample_contract h)"
    "content_digest_of (authorization_value (sample_authorization h)) = Inr ah"
    "content_digest_of (contract_value (sample_contract h)) = Inr ch" "is_sha256_hex ch"
    "reservation_digest ah sample_scope (sample_descriptor ch) 31 = Inr dh"
proof -
  obtain h where "parse_contract (sample_contract h) = Some (sample_contract h)"
    using sample_contract_parses by blast
  moreover obtain ah where "content_digest_of (authorization_value (sample_authorization h)) = Inr ah"
    using digest_exists [OF json_ok_sample_authorization] by blast
  moreover obtain ch where "content_digest_of (contract_value (sample_contract h)) = Inr ch" "is_sha256_hex ch"
    using digest_exists [OF json_ok_sample_contract] by blast
  moreover obtain dh where "reservation_digest ah sample_scope (sample_descriptor ch) 31 = Inr dh"
    using digest_exists [OF json_ok_reservation [of ah ch]]
    by (auto simp: reservation_digest_def sample_descriptor_def)
  ultimately show thesis by (rule that)
qed

definition sample_auth_row :: "string \<Rightarrow> string \<Rightarrow> auth_row" where
  "sample_auth_row h ah = \<lparr>a_id = ''a'', a_run = ''r'', a_ceiling = 100, a_hash = ah,
     a_json = Json_text (sample_authorization h), a_state = Active, a_close_reason = None,
     a_created = ''t0'', a_closed = None\<rparr>"

lemma sample_authorization_parses:
  "parse_contract (sample_contract h) = Some (sample_contract h) \<Longrightarrow>
    parse_authorization (sample_authorization h) = Some (sample_authorization h)"
  by (simp add: parse_authorization_def sample_authorization_def parse_identifier_letter sample_letters
      safe_nonnegative_def max_safe_integer_def max_ceiling_def)

lemma sample_freeze:
  assumes "parse_contract (sample_contract h) = Some (sample_contract h)"
    and "content_digest_of (authorization_value (sample_authorization h)) = Inr ah"
  shows "run_calls [(''t0'', Freeze (sample_authorization h))] empty_ledger =
    \<lparr>db_auths = [sample_auth_row h ah], db_rows = [], db_obs = []\<rparr>"
  using assms(2) sample_authorization_parses [OF assms(1)]
  by (simp add: run_calls_def freeze_authorization_def transaction_def empty_ledger_def
      sample_auth_row_def) (simp add: sample_authorization_def)

definition sample_row :: "string \<Rightarrow> string \<Rightarrow> attempt_state \<Rightarrow> res_row" where
  "sample_row ch dh st = (new_row (sample_authorization []) sample_scope (sample_descriptor ch) dh 31 ''t1'')\<lparr>r_state := st\<rparr>"

lemma sample_read:
  assumes "parse_contract (sample_contract h) = Some (sample_contract h)"
    and "content_digest_of (authorization_value (sample_authorization h)) = Inr ah"
  shows "get_authorization \<lparr>db_auths = [sample_auth_row h ah], db_rows = rows, db_obs = obs\<rparr> ''a'' = Inr (sample_auth_row h ah)"
    and "read_authorization (sample_auth_row h ah) = Inr (sample_authorization h)"
  using assms(2) sample_authorization_parses [OF assms(1)]
  by (simp_all add: get_authorization_def sample_auth_row_def max_safe_integer_def read_authorization_def
      parse_json_def) (simp_all add: sample_authorization_def)

lemma sample_reserve:
  assumes "parse_contract (sample_contract h) = Some (sample_contract h)"
    and "content_digest_of (authorization_value (sample_authorization h)) = Inr ah"
    and "content_digest_of (contract_value (sample_contract h)) = Inr ch" "is_sha256_hex ch"
    and "reservation_digest ah sample_scope (sample_descriptor ch) 31 = Inr dh"
  shows "\<exists>rec. reserve sample_scope (sample_descriptor ch) ''t1''
      \<lparr>db_auths = [sample_auth_row h ah], db_rows = [], db_obs = []\<rparr> =
    (Inr rec, \<lparr>db_auths = [sample_auth_row h ah], db_rows = [sample_row ch dh Reserved], db_obs = []\<rparr>)"
proof -
  let ?db = "\<lparr>db_auths = [sample_auth_row h ah], db_rows = [], db_obs = []\<rparr>"
  have c: "get_contract (sample_authorization h) (de_contract (sample_descriptor ch)) = Inr (sample_contract h)"
    by (simp add: get_contract_def sample_authorization_def sample_descriptor_def sample_contract_def)
  have sc: "assert_scope sample_scope (sample_authorization h) = Inr sample_scope"
    by (simp add: assert_scope_def sample_scope_parses ensure_def) (simp add: sample_scope_def sample_authorization_def)
  have vd: "validate_descriptor (sample_descriptor ch) (sample_contract h) = Inr (sample_descriptor ch)"
    by (simp add: validate_descriptor_def sample_descriptor_parses assms(3,4) ensure_def exceeds_dimension_def)
      (simp add: sample_descriptor_def sample_contract_def sample_dimension_def exceeds_dimension_def)
  have row: "new_row (sample_authorization h) sample_scope (sample_descriptor ch) dh 31 ''t1'' = sample_row ch dh Reserved"
    by (simp add: sample_row_def new_row_def sample_authorization_def)
  have "\<exists>rec. map_reservation db (sample_row ch dh Reserved) = Inr rec" if "db_obs db = []" for db
  proof -
    have "r_beneficiaries (sample_row ch dh Reserved) = Json_text (sc_beneficiaries sample_scope)"
      "r_descriptor (sample_row ch dh Reserved) = Json_text (sample_descriptor ch)"
      "row_scope (sample_row ch dh Reserved) (sc_beneficiaries sample_scope) = sample_scope"
      by (simp_all add: sample_row_def new_row_def row_scope_def)
        (simp add: sample_scope_def sample_authorization_def)
    moreover have "parse_beneficiaries (sc_beneficiaries sample_scope) = Some (sc_beneficiaries sample_scope)"
      by (simp add: sample_scope_def parse_beneficiaries_def parse_beneficiary_def
          parse_identifier_letter sample_letters)
    ultimately show ?thesis
      using sample_descriptor_parses [OF assms(4)] that
      by (simp add: map_reservation_def parse_json_def sample_scope_parses parse_observations_def)
  qed
  then obtain rec where rec: "map_reservation (?db\<lparr>db_rows := [sample_row ch dh Reserved]\<rparr>) (sample_row ch dh Reserved) = Inr rec"
    by fastforce
  have vals: "sc_auth sample_scope = ''a''" "a_state (sample_auth_row h ah) = Active"
      "a_hash (sample_auth_row h ah) = ah" "con_max_charge (sample_contract h) = 31"
      "au_ceiling (sample_authorization h) = 100" "get_rows ?db i = []"
      "checked_sum [] = Inr \<lparr>t_known = 0, t_unknown = 0, t_reserved = 0, t_total = 0\<rparr>"
      "cumulative_check (sample_descriptor ch) [] (con_dimensions (sample_contract h)) = Inr ()" for i
    by (simp_all add: sample_scope_def sample_auth_row_def sample_contract_def sample_authorization_def
        get_rows_def checked_sum_def checked_add_def Let_def max_safe_integer_def sample_dimension_def)
  have "reserve_body sample_scope (sample_descriptor ch) ''t1'' ?db =
      Inr (rec, ?db\<lparr>db_rows := [sample_row ch dh Reserved]\<rparr>)"
    unfolding reserve_body_def
    using sample_read [OF assms(1,2)] c sc vd rec assms(5) row
    by (simp add: ensure_def vals Let_def)
  then show ?thesis
    using sample_scope_parses sample_descriptor_parses [OF assms(4)]
    by (simp add: reserve_def transaction_def)
qed


section \<open>Witnesses\<close>

theorem spending_within_ceiling_witness:
  "\<exists>calls. \<exists>a \<in> set (db_auths (run_calls calls empty_ledger)).
     (\<Sum>r\<leftarrow>filter (\<lambda>r. r_auth r = a_id a) (db_rows (run_calls calls empty_ledger)). row_charge r) \<le> a_ceiling a"
proof -
  obtain h ah ch dh where s: "parse_contract (sample_contract h) = Some (sample_contract h)"
    "content_digest_of (authorization_value (sample_authorization h)) = Inr ah"
    by (rule sample_run)
  then have "sample_auth_row h ah \<in> set (db_auths (run_calls [(''t0'', Freeze (sample_authorization h))] empty_ledger))"
    by (simp add: sample_freeze)
  with spending_within_ceiling [OF this] show ?thesis by blast
qed

lemma sample_reserved:
  obtains h ah ch dh where
    "run_calls [(''t0'', Freeze (sample_authorization h)), (''t1'', Reserve sample_scope (sample_descriptor ch))]
       empty_ledger = \<lparr>db_auths = [sample_auth_row h ah], db_rows = [sample_row ch dh Reserved], db_obs = []\<rparr>"
proof -
  obtain h ah ch dh where s: "parse_contract (sample_contract h) = Some (sample_contract h)"
    "content_digest_of (authorization_value (sample_authorization h)) = Inr ah"
    "content_digest_of (contract_value (sample_contract h)) = Inr ch" "is_sha256_hex ch"
    "reservation_digest ah sample_scope (sample_descriptor ch) 31 = Inr dh"
    by (rule sample_run)
  from sample_reserve [OF s] sample_freeze [OF s(1,2)] show thesis
    by (intro that [of h ch ah dh]) (auto simp: run_calls_def)
qed


theorem reserve_replay_witness:
  "\<exists>scope desc db db' rec. reserve scope desc ''t1'' db = (Inr rec, db') \<and> db' \<noteq> db \<and>
     reserve scope desc ''t2'' db' = (Inr rec, db')"
proof -
  obtain h ah ch dh where s: "parse_contract (sample_contract h) = Some (sample_contract h)"
    "content_digest_of (authorization_value (sample_authorization h)) = Inr ah"
    "content_digest_of (contract_value (sample_contract h)) = Inr ch" "is_sha256_hex ch"
    "reservation_digest ah sample_scope (sample_descriptor ch) 31 = Inr dh"
    by (rule sample_run)
  from sample_reserve [OF s] obtain rec where r: "reserve sample_scope (sample_descriptor ch) ''t1''
      \<lparr>db_auths = [sample_auth_row h ah], db_rows = [], db_obs = []\<rparr> =
    (Inr rec, \<lparr>db_auths = [sample_auth_row h ah], db_rows = [sample_row ch dh Reserved], db_obs = []\<rparr>)"
    by blast
  from r reserve_replay [OF r] show ?thesis
    by (intro exI conjI) (assumption, simp, assumption)
qed

text \<open>A dispatched attempt of 1500 tokens, settled at six micros.\<close>

lemma sample_settle:
  assumes "parse_contract (sample_contract h) = Some (sample_contract h)"
    and "content_digest_of (authorization_value (sample_authorization h)) = Inr ah" "is_sha256_hex ch"
    and "calculate_charge (sample_contract h) usage = Inr n" "usage = [(''tokens'', 1500)]" "n = 6"
  shows "settle_body ''a'' ''k'' dh (Authoritative ''e'' Provider_usage usage cost Absent) oh ''t2''
      \<lparr>db_auths = [sample_auth_row h ah], db_rows = [sample_row ch dh Dispatched], db_obs = []\<rparr> =
    (let db = \<lparr>db_auths = [sample_auth_row h ah], db_rows = [sample_row ch dh Dispatched], db_obs = []\<rparr>
     in if cost = 6 then Inr (Settle_ok, record_charge ''a'' ''k'' oh ''e'' Provider_usage usage cost Absent ''t2'' db)
        else Inr (Settle_drift, close_for_drift ''a'' ''paid_effect_authoritative_charge_exceeds_contract'' ''t2'' db))"
proof -
  let ?r = "sample_row ch dh Dispatched"
  let ?db = "\<lparr>db_auths = [sample_auth_row h ah], db_rows = [?r], db_obs = []\<rparr>"
  have f: "find_row ?db ''a'' ''k'' = Some ?r"
    by (simp add: find_row_def sample_row_def new_row_def sample_authorization_def sample_descriptor_def)
  have row: "r_descriptor_hash ?r = dh" "r_state ?r = Dispatched" "r_max ?r = 31"
    "parse_json ''descriptor'' parse_descriptor (r_descriptor ?r) = Inr (sample_descriptor ch)"
    "parse_json ''beneficiaries'' parse_beneficiaries (r_beneficiaries ?r) = Inr (sc_beneficiaries sample_scope)"
    "row_scope ?r (sc_beneficiaries sample_scope) = sample_scope"
    using sample_descriptor_parses [OF assms(3)]
    by (simp_all add: sample_row_def new_row_def parse_json_def row_scope_def)
      (simp_all add: sample_scope_def sample_authorization_def parse_beneficiaries_def parse_beneficiary_def
        parse_identifier_letter sample_letters)
  have c: "get_contract (sample_authorization h) (de_contract (sample_descriptor ch)) = Inr (sample_contract h)"
    by (simp add: get_contract_def sample_authorization_def sample_descriptor_def sample_contract_def)
  have sc: "assert_scope sample_scope (sample_authorization h) = Inr sample_scope"
    by (simp add: assert_scope_def sample_scope_parses ensure_def) (simp add: sample_scope_def sample_authorization_def)
  have src: "con_source (sample_contract h) = Provider_usage"
    "de_units (sample_descriptor ch) = [(''tokens'', 2000)]"
    by (simp_all add: sample_contract_def sample_descriptor_def)
  have "settle_authoritative ''a'' ''k'' oh ''e'' Provider_usage usage cost Absent (sample_authorization h) ?r ''t2'' ?db =
    (if cost = 6 then Inr (Settle_ok, record_charge ''a'' ''k'' oh ''e'' Provider_usage usage cost Absent ''t2'' ?db)
        else Inr (Settle_drift, close_for_drift ''a'' ''paid_effect_authoritative_charge_exceeds_contract'' ''t2'' ?db))"
    unfolding settle_authoritative_def using row c sc src assms(4-6)
    by (simp add: sample_scope_parses ensure_def)
  then show ?thesis
    unfolding settle_body_def using sample_read [OF assms(1,2)] f row(1)
    by (simp add: ensure_def)
qed

lemma sample_charge: "parse_contract (sample_contract h) = Some (sample_contract h) \<Longrightarrow>
    calculate_charge (sample_contract h) [(''tokens'', 1500)] = Inr 6"
  by (simp add: calculate_charge_def sample_contract_def sample_dimension_def ceil_price_def
      max_safe_integer_def)



end
