(* ===== verification/PaidEffectCoordinator.thy ===== *)
theory PaidEffectCoordinator
  imports PaidEffectSamples
begin

text \<open>
  The paid-effect coordinator and its client (\<open>src/src/ai/paid-effect-budget.ts\<close>): the parent
  process owns the ledger and answers the requests of a child that performs paid calls; the child
  runs every paid call through \<open>runPaidEffect\<close>. Transport is the direct call of the handler; what
  \<open>AbortSignal.aborted\<close> reads at each check is an argument.
\<close>

section \<open>Errors\<close>

datatype budget_code =
    Scope_missing | Scope_mismatch | Invalid_request | Authorization_missing | Authorization_closed
  | Budget_exhausted | Idempotency_conflict | Reservation_state | Contract_unverified | Contract_drift
  | Settlement_not_authoritative | Authoritative_settlement_parent_only | Cancelled
  | Coordinator_disconnected | Journal_unavailable

datatype coord_error = Budget_error budget_code string | Repo_error thrown

fun code_text :: "budget_code \<Rightarrow> string" where
  "code_text Scope_missing = ''scope_missing''"
| "code_text Scope_mismatch = ''scope_mismatch''"
| "code_text Invalid_request = ''invalid_request''"
| "code_text Authorization_missing = ''authorization_missing''"
| "code_text Authorization_closed = ''authorization_closed''"
| "code_text Budget_exhausted = ''budget_exhausted''"
| "code_text Idempotency_conflict = ''idempotency_conflict''"
| "code_text Reservation_state = ''reservation_state''"
| "code_text Contract_unverified = ''contract_unverified''"
| "code_text Contract_drift = ''contract_drift''"
| "code_text Settlement_not_authoritative = ''settlement_not_authoritative''"
| "code_text Authoritative_settlement_parent_only = ''authoritative_settlement_parent_only''"
| "code_text Cancelled = ''cancelled''"
| "code_text Coordinator_disconnected = ''coordinator_disconnected''"
| "code_text Journal_unavailable = ''journal_unavailable''"

text \<open>\<open>new PaidEffectBudgetError(code)\<close>: the message defaults to the code.\<close>

definition budget_error :: "budget_code \<Rightarrow> coord_error" where
  "budget_error c = Budget_error c (code_text c)"

definition scope_errors :: "string list" where
  "scope_errors = [''paid_effect_qualification_scope_mismatch'', ''paid_effect_arm_not_authorized'']"

definition contract_errors :: "string list" where
  "contract_errors = [''paid_effect_billing_contract_unverified'', ''paid_effect_request_exceeds_contract'',
     ''paid_effect_request_missing_dimension'']"

definition reservation_errors :: "string list" where
  "reservation_errors = [''paid_effect_reservation_not_dispatchable'', ''paid_effect_reservation_not_settleable'',
     ''paid_effect_reservation_already_settled'', ''paid_effect_dispatched_reservation_not_releasable'',
     ''paid_effect_reservation_missing'', ''paid_effect_settlement_conflict'']"

definition classify_message :: "string \<Rightarrow> budget_code \<times> bool \<times> string" where
  "classify_message m =
     (if m = ''paid_effect_budget_exhausted'' then (Budget_exhausted, False, m)
      else if m = ''paid_effect_idempotency_conflict'' \<or> m = ''paid_effect_authorization_conflict''
        then (Idempotency_conflict, False, m)
      else if m = ''paid_effect_authorization_missing'' then (Authorization_missing, False, m)
      else if m = ''paid_effect_ledger_closed'' \<or> m = ''paid_effect_ledger_drifted''
        then (Authorization_closed, False, m)
      else if m = ''paid_effect_billing_contract_drift'' \<or> starts_with m ''paid_effect_authoritative_charge''
        then (Contract_drift, False, m)
      else if m = ''paid_effect_settlement_not_authoritative'' then (Settlement_not_authoritative, False, m)
      else if m \<in> set scope_errors then (Scope_mismatch, False, m)
      else if m \<in> set contract_errors \<or> starts_with m ''paid_effect_usage_outside_contract:'' \<or>
          starts_with m ''paid_effect_unknown_billing_dimension:''
        then (Contract_unverified, False, m)
      else if m \<in> set reservation_errors then (Reservation_state, False, m)
      else if starts_with m ''paid_effect_journal_'' \<or> starts_with m ''paid_effect_journal_corrupt:'' \<or>
          starts_with m ''paid_effect_cost_overflow''
        then (Journal_unavailable, True, m)
      else (Journal_unavailable, True, ''paid_effect_journal_unavailable''))"

fun error_code :: "coord_error \<Rightarrow> budget_code \<times> bool \<times> string" where
  "error_code (Budget_error c m) = (c, False, m)"
| "error_code (Repo_error Zod_error) = (Invalid_request, False, ''paid_effect_invalid_request'')"
| "error_code (Repo_error (Js_error m)) = classify_message m"
| "error_code (Repo_error (Canonical_error e)) = (Journal_unavailable, True, ''paid_effect_journal_unavailable'')"

section \<open>Requests\<close>

datatype operation =
    Op_reserve attempt_descriptor
  | Op_mark string string
  | Op_settle string string settlement
  | Op_release string string string
  | Op_snapshot

record request =
  rq_version :: int
  rq_id :: string
  rq_scope :: qualification_scope
  rq_op :: operation

text \<open>
  What the handler receives: a value of the request shape, or something else, of which only a
  string \<open>requestId\<close> is read.
\<close>

datatype raw_request = Malformed "string option" | Shaped request

fun parse_operation :: "operation \<Rightarrow> operation option" where
  "parse_operation (Op_reserve d) = map_option Op_reserve (parse_descriptor d)"
| "parse_operation (Op_mark k h) =
     (if idempotency_key_ok k \<and> is_sha256_hex h then Some (Op_mark k h) else None)"
| "parse_operation (Op_settle k h st) =
     (if idempotency_key_ok k \<and> is_sha256_hex h then map_option (Op_settle k h) (parse_settlement st) else None)"
| "parse_operation (Op_release k h r) =
     (if idempotency_key_ok k \<and> is_sha256_hex h then map_option (Op_release k h) (parse_identifier_upto 256 r) else None)"
| "parse_operation Op_snapshot = Some Op_snapshot"

fun parse_request :: "raw_request \<Rightarrow> request option" where
  "parse_request (Malformed _) = None"
| "parse_request (Shaped rq) =
     (case (parse_scope (rq_scope rq), parse_operation (rq_op rq)) of
        (Some sc, Some op) \<Rightarrow>
          if rq_version rq = 1 \<and> 1 \<le> length (rq_id rq) \<and> length (rq_id rq) \<le> 128
          then Some (rq\<lparr>rq_scope := sc, rq_op := op\<rparr>) else None
      | _ \<Rightarrow> None)"

fun raw_id :: "raw_request \<Rightarrow> string" where
  "raw_id (Malformed (Some i)) = i"
| "raw_id (Malformed None) = ''invalid''"
| "raw_id (Shaped rq) = rq_id rq"

datatype answer = No_result | Reservation_result reservation_record | Snapshot_result budget_snapshot

datatype reply = Ok_reply string answer | Error_reply string budget_code string

section \<open>The coordinator\<close>

record coordinator =
  co_healthy :: bool
  co_stopped :: bool
  co_auth :: authorization
  co_hash :: string
  co_db :: ledger_db

definition new_coordinator ::
    "authorization \<Rightarrow> string \<Rightarrow> ledger_db \<Rightarrow> (coord_error, coordinator) result \<times> ledger_db" where
  "new_coordinator input now db =
     (case parse_authorization input of
        None \<Rightarrow> (Inl (Repo_error Zod_error), db)
      | Some au \<Rightarrow>
          (case freeze_authorization au now db of
             (Inl e, db') \<Rightarrow>
               (let (c, fatal, m) = error_code (Repo_error e) in (Inl (Budget_error c m), db'))
           | (Inr (_, h, st), db') \<Rightarrow>
               (Inr \<lparr>co_healthy = True, co_stopped = (st \<noteq> Active), co_auth = au, co_hash = h, co_db = db'\<rparr>, db')))"

definition assert_scope_for_authorization ::
    "qualification_scope \<Rightarrow> authorization \<Rightarrow> (coord_error, unit) result" where
  "assert_scope_for_authorization sc au =
     (if sc_auth sc \<noteq> au_id au \<or> sc_run sc \<noteq> au_run au \<or> sc_arm sc \<notin> set (au_arms au)
      then Inl (budget_error Scope_mismatch) else Inr ())"

definition of_repo :: "(thrown, 'a) result \<Rightarrow> (coord_error, 'a) result" where
  "of_repo r = map_sum Repo_error id r"

definition assert_reservation_binding ::
    "ledger_db \<Rightarrow> qualification_scope \<Rightarrow> string \<Rightarrow> string \<Rightarrow> (coord_error, unit) result" where
  "assert_reservation_binding db sc k dh =
     bind_res (of_repo (get_reservation (sc_auth sc) k db)) (\<lambda>found.
     case found of
       None \<Rightarrow> Inl (Budget_error Scope_mismatch ''paid_effect_reservation_binding_mismatch'')
     | Some r \<Rightarrow>
         if rr_descriptor_hash r \<noteq> dh \<or> rr_run r \<noteq> sc_run sc \<or> rr_arm r \<noteq> sc_arm sc \<or> rr_output r \<noteq> sc_output sc
         then Inl (Budget_error Scope_mismatch ''paid_effect_reservation_binding_mismatch'')
         else bind_res (of_repo (content_digest_of (beneficiaries_value (rr_beneficiaries r)))) (\<lambda>h1.
              bind_res (of_repo (content_digest_of (beneficiaries_value (sc_beneficiaries sc)))) (\<lambda>h2.
              if h1 \<noteq> h2 then Inl (Budget_error Scope_mismatch ''paid_effect_reservation_binding_mismatch'')
              else Inr ())))"

text \<open>One operation of the \<open>switch\<close>: the answer or the error, and the ledger afterwards.\<close>

fun perform ::
    "qualification_scope \<Rightarrow> operation \<Rightarrow> string \<Rightarrow> ledger_db \<Rightarrow> (coord_error, answer) result \<times> ledger_db" where
  "perform sc (Op_reserve d) now db =
     (let (r, db') = reserve sc d now db in (map_sum Repo_error Reservation_result r, db'))"
| "perform sc (Op_mark k dh) now db =
     (case assert_reservation_binding db sc k dh of
        Inl e \<Rightarrow> (Inl e, db)
      | Inr _ \<Rightarrow> (let (r, db') = mark_dispatched (sc_auth sc) k dh now db
                 in (map_sum Repo_error (\<lambda>_. No_result) r, db')))"
| "perform sc (Op_settle k dh st) now db =
     (case st of
        Authoritative _ _ _ _ _ \<Rightarrow> (Inl (budget_error Authoritative_settlement_parent_only), db)
      | Unknown_charge _ _ \<Rightarrow>
          (case assert_reservation_binding db sc k dh of
             Inl e \<Rightarrow> (Inl e, db)
           | Inr _ \<Rightarrow> (let (r, db') = settle_attempt (sc_auth sc) k dh st now db
                      in (map_sum Repo_error (\<lambda>_. No_result) r, db'))))"
| "perform sc (Op_release k dh reason) now db =
     (case assert_reservation_binding db sc k dh of
        Inl e \<Rightarrow> (Inl e, db)
      | Inr _ \<Rightarrow> (let (r, db') = release_undispatched (sc_auth sc) k dh reason now db
                 in (map_sum Repo_error (\<lambda>_. No_result) r, db')))"
| "perform sc Op_snapshot now db = (map_sum Repo_error Snapshot_result (ledger_snapshot (sc_auth sc) db), db)"

fun spends :: "operation \<Rightarrow> bool" where
  "spends (Op_reserve _) = True" | "spends (Op_mark _ _) = True" | "spends _ = False"

definition guarded ::
    "request \<Rightarrow> string \<Rightarrow> coordinator \<Rightarrow> (coord_error, answer) result \<times> ledger_db" where
  "guarded rq now co =
     (if \<not> co_healthy co then (Inl (budget_error Journal_unavailable), co_db co)
      else if co_stopped co \<and> spends (rq_op rq) then (Inl (budget_error Authorization_closed), co_db co)
      else case assert_scope_for_authorization (rq_scope rq) (co_auth co) of
          Inl e \<Rightarrow> (Inl e, co_db co)
        | Inr _ \<Rightarrow> perform (rq_scope rq) (rq_op rq) now (co_db co))"

definition absorb_error :: "coord_error \<Rightarrow> coordinator \<Rightarrow> coordinator" where
  "absorb_error e co =
     (let (c, fatal, m) = error_code e
      in co\<lparr>co_healthy := co_healthy co \<and> \<not> fatal, co_stopped := co_stopped co \<or> c = Contract_drift\<rparr>)"

definition handle_request :: "raw_request \<Rightarrow> string \<Rightarrow> coordinator \<Rightarrow> reply \<times> coordinator" where
  "handle_request raw now co =
     (let (i, outcome, db') =
        (case parse_request raw of
           None \<Rightarrow> (raw_id raw, Inl (Repo_error Zod_error), co_db co)
         | Some rq \<Rightarrow> (rq_id rq, guarded rq now co))
      in case outcome of
           Inr a \<Rightarrow> (Ok_reply i a, co\<lparr>co_db := db'\<rparr>)
         | Inl e \<Rightarrow> (let (c, fatal, m) = error_code e
                    in (Error_reply i c m, absorb_error e (co\<lparr>co_db := db'\<rparr>))))"

text \<open>The parent's own settlement, with authenticated evidence.\<close>

definition parent_settle ::
    "qualification_scope \<Rightarrow> string \<Rightarrow> string \<Rightarrow> settlement \<Rightarrow> string \<Rightarrow> coordinator \<Rightarrow>
     (coord_error, unit) result \<times> coordinator" where
  "parent_settle scope0 k dh st0 now co =
     (case bind_res (of_repo (zod (parse_scope scope0))) (\<lambda>sc.
           bind_res (of_repo (zod (case st0 of Unknown_charge _ _ \<Rightarrow> None | _ \<Rightarrow> parse_settlement st0))) (\<lambda>st.
           bind_res (assert_scope_for_authorization sc (co_auth co)) (\<lambda>_.
           bind_res (if co_healthy co then Inr () else Inl (budget_error Journal_unavailable)) (\<lambda>_.
           bind_res (assert_reservation_binding (co_db co) sc k dh) (\<lambda>_. Inr (sc, st)))))) of
        Inl e \<Rightarrow> (Inl e, co)
      | Inr (sc, st) \<Rightarrow>
          (case settle_attempt (sc_auth sc) k dh st now (co_db co) of
             (Inr _, db') \<Rightarrow> (Inr (), co\<lparr>co_db := db'\<rparr>)
           | (Inl e, db') \<Rightarrow>
               (let (c, fatal, m) = error_code (Repo_error e)
                in (Inl (Budget_error c m), absorb_error (Repo_error e) (co\<lparr>co_db := db'\<rparr>)))))"

definition parent_snapshot ::
    "qualification_scope \<Rightarrow> coordinator \<Rightarrow> (coord_error, budget_snapshot) result \<times> coordinator" where
  "parent_snapshot scope0 co =
     (case bind_res (of_repo (zod (parse_scope scope0))) (\<lambda>sc.
           bind_res (assert_scope_for_authorization sc (co_auth co)) (\<lambda>_.
           bind_res (if co_healthy co then Inr () else Inl (budget_error Journal_unavailable)) (\<lambda>_. Inr sc))) of
        Inl e \<Rightarrow> (Inl e, co)
      | Inr sc \<Rightarrow>
          (case ledger_snapshot (sc_auth sc) (co_db co) of
             Inr s \<Rightarrow> (Inr s, co)
           | Inl e \<Rightarrow> (let (c, fatal, m) = error_code (Repo_error e)
                      in (Inl (Budget_error c m), co\<lparr>co_healthy := co_healthy co \<and> \<not> fatal\<rparr>))))"

definition coordinator_close :: "string \<Rightarrow> string \<Rightarrow> coordinator \<Rightarrow> (coord_error, unit) result \<times> coordinator" where
  "coordinator_close reason now co =
     (if co_stopped co then (Inr (), co)
      else let (r, db') = close_authorization (au_id (co_auth co)) reason now (co_db co)
           in (of_repo r, co\<lparr>co_stopped := True, co_db := db'\<rparr>))"

definition is_closed :: "coordinator \<Rightarrow> bool" where
  "is_closed co \<longleftrightarrow> co_stopped co \<or> \<not> co_healthy co"

section \<open>The client\<close>

text \<open>Readings of \<open>closedSignal.aborted\<close> and of the request's signal before a request is sent.\<close>

definition client_request ::
    "bool \<Rightarrow> bool \<Rightarrow> string \<Rightarrow> qualification_scope \<Rightarrow> operation \<Rightarrow> string \<Rightarrow> coordinator \<Rightarrow>
     (coord_error, answer) result \<times> coordinator" where
  "client_request closed aborted i sc op now co =
     (if closed then (Inl (budget_error Coordinator_disconnected), co)
      else if aborted then (Inl (budget_error Cancelled), co)
      else case handle_request (Shaped \<lparr>rq_version = 1, rq_id = i, rq_scope = sc, rq_op = op\<rparr>) now co of
          (Ok_reply j a, co') \<Rightarrow>
            if j \<noteq> i then (Inl (Budget_error Journal_unavailable ''paid_effect_invalid_parent_reply''), co')
            else (Inr a, co')
        | (Error_reply j c m, co') \<Rightarrow>
            if j \<noteq> i then (Inl (Budget_error Journal_unavailable ''paid_effect_invalid_parent_reply''), co')
            else (Inl (Budget_error c m), co'))"

definition client_reserve ::
    "bool \<Rightarrow> bool \<Rightarrow> string \<Rightarrow> qualification_scope \<Rightarrow> attempt_descriptor \<Rightarrow> string \<Rightarrow> coordinator \<Rightarrow>
     (coord_error, qualification_scope \<times> string \<times> string) result \<times> coordinator" where
  "client_reserve closed aborted i scope0 desc0 now co =
     (case (parse_scope scope0, parse_descriptor desc0) of
        (Some sc, Some d) \<Rightarrow>
          (case client_request closed aborted i sc (Op_reserve d) now co of
             (Inr (Reservation_result rcd), co') \<Rightarrow>
               if rr_key rcd \<noteq> de_key d \<or> \<not> is_sha256_hex (rr_descriptor_hash rcd) \<or>
                  \<not> safe_nonnegative (rr_max rcd)
               then (Inl (Budget_error Journal_unavailable ''paid_effect_invalid_parent_reservation_receipt''), co')
               else (Inr (sc, rr_key rcd, rr_descriptor_hash rcd), co')
           | (Inr _, co') \<Rightarrow>
               (Inl (Budget_error Journal_unavailable ''paid_effect_invalid_parent_reservation_receipt''), co')
           | (Inl e, co') \<Rightarrow> (Inl e, co'))
      | _ \<Rightarrow> (Inl (Repo_error Zod_error), co))"

definition client_settle ::
    "bool \<Rightarrow> string \<Rightarrow> qualification_scope \<Rightarrow> string \<Rightarrow> string \<Rightarrow> settlement \<Rightarrow> string \<Rightarrow> coordinator \<Rightarrow>
     (coord_error, unit) result \<times> coordinator" where
  "client_settle closed i sc k dh ev now co =
     (case parse_settlement ev of
        None \<Rightarrow> (Inl (Repo_error Zod_error), co)
      | Some (Authoritative _ _ _ _ _) \<Rightarrow> (Inl (budget_error Authoritative_settlement_parent_only), co)
      | Some st \<Rightarrow>
          (case client_request closed False i sc (Op_settle k dh st) now co of
             (Inl e, co') \<Rightarrow> (Inl e, co') | (Inr _, co') \<Rightarrow> (Inr (), co')))"

definition client_void ::
    "(coord_error, answer) result \<times> coordinator \<Rightarrow> (coord_error, unit) result \<times> coordinator" where
  "client_void p = (map_sum id (\<lambda>_. ()) (fst p), snd p)"

text \<open>
  \<open>runPaidEffect\<close>. \<open>rd n\<close> and \<open>cl n\<close> are what the composed signal and \<open>closedSignal\<close> read at the
  \<open>n\<close>-th check, \<open>ids n\<close> and \<open>tm n\<close> the request ids and times. An error of \<open>execute\<close> is \<open>Foreign\<close>
  unless it is itself a budget error.
\<close>

datatype effect_error = Coord coord_error | Foreign string

datatype scope_frame = No_frame | Frame bool "qualification_scope option"

definition cleanup ::
    "(nat \<Rightarrow> bool) \<Rightarrow> (nat \<Rightarrow> bool) \<Rightarrow> (nat \<Rightarrow> string) \<Rightarrow> (nat \<Rightarrow> string) \<Rightarrow>
     (qualification_scope \<times> string \<times> string) option \<Rightarrow> bool \<Rightarrow> effect_error \<Rightarrow> coordinator \<Rightarrow>
     effect_error \<times> coordinator" where
  "cleanup rd cl ids tm res dispatch_requested e co =
     (case res of
        None \<Rightarrow> (e, co)
      | Some (sc, k, dh) \<Rightarrow>
          if \<not> dispatch_requested \<and> rd 6 then
            (case client_void (client_request (cl 6) False (ids 6) sc (Op_release k dh ''cancelled_before_dispatch'') (tm 6) co) of
               (Inl e', co') \<Rightarrow> (Coord e', co') | (Inr _, co') \<Rightarrow> (e, co'))
          else if dispatch_requested \<and> (case e of Coord (Budget_error _ _) \<Rightarrow> False | _ \<Rightarrow> True) then
            (case client_settle (cl 6) (ids 6) sc k dh (Unknown_charge Absent Absent) (tm 6) co of
               (Inl e', co') \<Rightarrow> (Coord e', co') | (Inr _, co') \<Rightarrow> (e, co'))
          else (e, co))"

definition run_paid_effect ::
    "(nat \<Rightarrow> bool) \<Rightarrow> (nat \<Rightarrow> bool) \<Rightarrow> (nat \<Rightarrow> string) \<Rightarrow> (nat \<Rightarrow> string) \<Rightarrow> scope_frame \<Rightarrow>
     attempt_descriptor \<Rightarrow>
     (coordinator \<Rightarrow> (effect_error, 'v \<times> settlement option) result \<times> coordinator) \<Rightarrow>
     coordinator \<Rightarrow> (effect_error, 'v) result \<times> coordinator" where
  "run_paid_effect rd cl ids tm frame desc execute co =
     (case frame of
        No_frame \<Rightarrow> (let (r, co') = execute co in (map_sum id fst r, co'))
      | Frame required None \<Rightarrow>
          if required then (Inl (Coord (budget_error Scope_missing)), co)
          else (let (r, co') = execute co in (map_sum id fst r, co'))
      | Frame required (Some scope) \<Rightarrow>
          let fail = (\<lambda>res dispatched e co. let (e', co') = cleanup rd cl ids tm res dispatched e co in (Inl e', co')) in
          if rd 0 then fail None False (Coord (budget_error Cancelled)) co
          else case client_reserve (cl 1) (rd 1) (ids 1) scope desc (tm 1) co of
            (Inl e, co1) \<Rightarrow> fail None False (Coord e) co1
          | (Inr (sc, k, dh), co1) \<Rightarrow>
              if rd 2 then
                (case client_void (client_request (cl 2) False (ids 2) sc (Op_release k dh ''cancelled_before_dispatch'') (tm 2) co1) of
                   (Inl e, co2) \<Rightarrow> fail (Some (sc, k, dh)) False (Coord e) co2
                 | (Inr _, co2) \<Rightarrow> fail (Some (sc, k, dh)) False (Coord (budget_error Cancelled)) co2)
              else case client_void (client_request (cl 3) (rd 3) (ids 3) sc (Op_mark k dh) (tm 3) co1) of
                (Inl e, co2) \<Rightarrow> fail (Some (sc, k, dh)) False (Coord e) co2
              | (Inr _, co2) \<Rightarrow>
                  if rd 4 then fail (Some (sc, k, dh)) True (Coord (budget_error Cancelled)) co2
                  else case execute co2 of
                    (Inl e, co3) \<Rightarrow> fail (Some (sc, k, dh)) True e co3
                  | (Inr (v, st), co3) \<Rightarrow>
                      (case client_settle (cl 5) (ids 5) sc k dh
                              (case st of Some s \<Rightarrow> s | None \<Rightarrow> Unknown_charge Absent Absent) (tm 5) co3 of
                         (Inl e, co4) \<Rightarrow> fail (Some (sc, k, dh)) True (Coord e) co4
                       | (Inr _, co4) \<Rightarrow> (Inr v, co4)))"


section \<open>Lemmas\<close>

lemma filter_update_where:
  "(\<And>r. p r \<Longrightarrow> \<not> P r \<and> \<not> P (f r)) \<Longrightarrow> filter P (update_where p f rows) = filter P rows"
  by (induction rows) (auto simp: update_where_def)

lemma reserve_rows:
  "db_rows (snd (reserve sc0 d0 now db)) = db_rows db \<or>
   (\<exists>row. r_state row = Reserved \<and> db_rows (snd (reserve sc0 d0 now db)) = db_rows db @ [row])"
proof (cases "\<exists>sc d. parse_scope sc0 = Some sc \<and> parse_descriptor d0 = Some d")
  case True
  then obtain sc d where p: "parse_scope sc0 = Some sc" "parse_descriptor d0 = Some d" by blast
  show ?thesis
  proof (cases "reserve_body sc d now db")
    case (Inr q)
    obtain rcd db' where q: "q = (rcd, db')" by (cases q)
    have "db_rows db' = db_rows db \<or> (\<exists>row. r_state row = Reserved \<and> db_rows db' = db_rows db @ [row])"
      using Inr unfolding q by (cases rule: reserve_body_cases) (auto simp: Let_def new_row_def)
    with Inr p q show ?thesis by (simp add: reserve_def transaction_def)
  qed (use p in \<open>simp add: reserve_def transaction_def\<close>)
qed (auto simp: reserve_def zod_def bind_res_def split: option.splits)

lemma mark_rows:
  "db_rows (snd (mark_dispatched i k dh now db)) = db_rows db \<or>
   (\<exists>p f. (\<forall>r. p r \<longrightarrow> r_state r = Reserved \<and> r_state (f r) = Dispatched) \<and>
      db_rows (snd (mark_dispatched i k dh now db)) = update_where p f (db_rows db))"
proof -
  let ?p = "\<lambda>r. r_auth r = i \<and> r_key r = k \<and> r_descriptor_hash r = dh \<and> r_state r = Reserved"
  let ?f = "\<lambda>r. r\<lparr>r_state := Dispatched, r_dispatched := Some now\<rparr>"
  have "db_rows (snd (mark_dispatched i k dh now db)) = db_rows db \<or>
      db_rows (snd (mark_dispatched i k dh now db)) = update_where ?p ?f (db_rows db)"
    by (auto simp: mark_dispatched_def transaction_def bind_res_def ensure_def js_error_def Let_def split: sum.splits)
  then show ?thesis
    by (elim disjE) (auto intro!: exI [of _ ?p] exI [of _ ?f])
qed

lemma release_rows:
  "db_rows (snd (release_undispatched i k dh reason now db)) = db_rows db \<or>
   (\<exists>p f. (\<forall>r. p r \<longrightarrow> r_state r = Reserved \<and> r_state (f r) = Released) \<and>
      db_rows (snd (release_undispatched i k dh reason now db)) = update_where p f (db_rows db))"
proof -
  let ?p = "\<lambda>q. r_auth q = i \<and> r_key q = k \<and> r_descriptor_hash q = dh \<and> r_state q = Reserved"
  let ?f = "\<lambda>q. q\<lparr>r_state := Released, r_release_reason := Some (take 256 (trim reason)), r_settled := Some now\<rparr>"
  have "db_rows (snd (release_undispatched i k dh reason now db)) = db_rows db \<or>
      db_rows (snd (release_undispatched i k dh reason now db)) = update_where ?p ?f (db_rows db)"
    by (auto simp: release_undispatched_def transaction_def bind_res_def ensure_def js_error_def Let_def
        split: sum.splits option.splits)
  then show ?thesis
    by (elim disjE) (auto intro!: exI [of _ ?p] exI [of _ ?f])
qed

lemma unknown_rows:
  "db_rows (snd (settle_attempt i k dh (Unknown_charge usage est) now db)) = db_rows db"
proof -
  have "db_rows db' = db_rows db"
    if st: "parse_settlement (Unknown_charge usage est) = Some st"
      and body: "settle_body i k dh st oh now db = Inr (res, db')" for st oh res db'
  proof -
    from st have "st = Unknown_charge usage est" by (simp split: if_splits)
    with body show ?thesis by (cases rule: settle_body_cases) auto
  qed
  then show ?thesis
    using settle_attempt_state [of i k dh "Unknown_charge usage est" now db] by metis
qed

text \<open>What the operations of a child do to the rows.\<close>

inductive child_effect :: "bool \<Rightarrow> res_row list \<Rightarrow> res_row list \<Rightarrow> bool" where
  nothing: "child_effect sp rows rows"
| admitted: "r_state row = Reserved \<Longrightarrow> child_effect True rows (rows @ [row])"
| dispatching: "\<forall>r. p r \<longrightarrow> r_state r = Reserved \<and> r_state (f r) = Dispatched \<Longrightarrow>
    child_effect True rows (update_where p f rows)"
| releasing: "\<forall>r. p r \<longrightarrow> r_state r = Reserved \<and> r_state (f r) = Released \<Longrightarrow>
    child_effect sp rows (update_where p f rows)"

inductive_cases child_effect_passive: "child_effect False rows rows'"

lemma perform_effect: "child_effect (spends op) (db_rows db) (db_rows (snd (perform sc op now db)))"
proof (cases "(sc, op, now, db)" rule: perform.cases)
  case (1 sc' d now' db')
  then show ?thesis
    using reserve_rows [of sc d now db] child_effect.intros by (auto simp: case_prod_beta)
next
  case (2 sc' k dh now' db')
  then show ?thesis
    using mark_rows [of "sc_auth sc" k dh now db] child_effect.intros
    by (auto simp: case_prod_beta split: sum.splits)
next
  case (3 sc' k dh st now' db')
  then show ?thesis
    using unknown_rows child_effect.nothing
    by (auto simp: case_prod_beta split: sum.splits settlement.splits)
next
  case (4 sc' k dh reason now' db')
  then show ?thesis
    using release_rows [of "sc_auth sc" k dh reason now db] child_effect.intros
    by (auto simp: case_prod_beta split: sum.splits)
next
  case (5 sc' now' db')
  then show ?thesis by (simp add: child_effect.nothing)
qed

lemma handle_request_effect:
  "child_effect (\<not> is_closed co) (db_rows (co_db co)) (db_rows (co_db (snd (handle_request raw now co))))"
proof (cases "parse_request raw")
  case None
  then show ?thesis
    by (auto simp: handle_request_def absorb_error_def case_prod_beta Let_def intro: child_effect.nothing)
next
  case (Some rq)
  have db: "db_rows (co_db (snd (handle_request raw now co))) = db_rows (snd (guarded rq now co))"
    using Some by (auto simp: handle_request_def absorb_error_def case_prod_beta Let_def split: sum.splits)
  have mono: "child_effect (spends op) rows rows' \<Longrightarrow> \<not> (co_stopped co \<and> spends op) \<Longrightarrow> co_healthy co \<Longrightarrow>
      child_effect (\<not> is_closed co) rows rows'" for op rows rows'
    by (auto simp: is_closed_def elim!: child_effect.cases intro: child_effect.intros)
  show ?thesis
    unfolding db guarded_def
    using mono [OF perform_effect]
    by (auto intro: child_effect.nothing split: sum.splits)
qed

text \<open>The coordinator keeps the ledger invariant on every path.\<close>

lemma perform_ok: "ledger_ok db \<Longrightarrow> ledger_ok (snd (perform sc op now db))"
  by (cases "(sc, op, now, db)" rule: perform.cases)
    (auto simp: case_prod_beta reserve_ok mark_ok settle_ok release_ok split: sum.splits settlement.splits)

lemma handle_request_ok: "ledger_ok (co_db co) \<Longrightarrow> ledger_ok (co_db (snd (handle_request raw now co)))"
  by (auto simp: handle_request_def guarded_def absorb_error_def case_prod_beta Let_def perform_ok
      split: option.splits sum.splits)

lemma parent_settle_ok: "ledger_ok (co_db co) \<Longrightarrow> ledger_ok (co_db (snd (parent_settle sc k dh st now co)))"
  using settle_ok [of "co_db co"]
  by (auto simp: parent_settle_def absorb_error_def case_prod_beta Let_def split: sum.splits prod.splits)

lemma coordinator_close_ok: "ledger_ok (co_db co) \<Longrightarrow> ledger_ok (co_db (snd (coordinator_close reason now co)))"
  by (auto simp: coordinator_close_def case_prod_beta Let_def close_ok)

section \<open>Properties\<close>

text \<open>
  Only the parent settles: whatever a child sends, including an authoritative settlement and
  malformed requests, the settled attempts of the ledger are exactly the same before and after.
\<close>

theorem child_never_settles:
  "filter (\<lambda>r. r_state r = Settled) (db_rows (co_db (snd (handle_request raw now co)))) =
   filter (\<lambda>r. r_state r = Settled) (db_rows (co_db co))"
  using handle_request_effect [of co raw now]
  by (cases rule: child_effect.cases) (auto intro!: filter_update_where)

text \<open>
  C11. A closed coordinator stays closed and spends nothing: once it was stopped or its journal
  failed, no request admits an attempt or dispatches one, and no request reopens it.
\<close>

theorem closed_coordinator_spends_nothing:
  assumes "is_closed co"
  shows "is_closed (snd (handle_request raw now co)) \<and>
    length (db_rows (co_db (snd (handle_request raw now co)))) = length (db_rows (co_db co)) \<and>
    filter (\<lambda>r. r_state r = Dispatched) (db_rows (co_db (snd (handle_request raw now co)))) =
    filter (\<lambda>r. r_state r = Dispatched) (db_rows (co_db co))"
proof -
  have "is_closed (snd (handle_request raw now co))"
    using assms by (auto simp: is_closed_def handle_request_def absorb_error_def case_prod_beta Let_def
        split: sum.splits)
  moreover have "child_effect False (db_rows (co_db co)) (db_rows (co_db (snd (handle_request raw now co))))"
    using handle_request_effect [of co raw now] assms by simp
  ultimately show ?thesis
    by (elim child_effect_passive) (auto intro!: filter_update_where)
qed

definition sample_coordinator :: "bool \<Rightarrow> coordinator" where
  "sample_coordinator st = \<lparr>co_healthy = True, co_stopped = st, co_auth = sample_authorization ''h'',
     co_hash = ''h'', co_db = \<lparr>db_auths = [], db_rows = [sample_row ''c'' ''d'' Dispatched], db_obs = []\<rparr>\<rparr>"

theorem closed_coordinator_spends_nothing_witness:
  "is_closed (snd (handle_request (Malformed None) ''t'' (sample_coordinator True)))"
  by (rule conjunct1 [OF closed_coordinator_spends_nothing]) (simp add: is_closed_def sample_coordinator_def)

text \<open>
  C2. Paying only after the ledger knows: inside a qualification scope, what \<open>runPaidEffect\<close> does
  depends on the paid call only in states where the ledger holds the attempt, under the
  descriptor's idempotency key, as dispatched. The paid call is never reached in any other state,
  whatever the abort signals read and whatever the coordinator answers.
\<close>

definition attempt_dispatched :: "attempt_descriptor \<Rightarrow> coordinator \<Rightarrow> bool" where
  "attempt_dispatched desc co \<longleftrightarrow>
     list_ex (\<lambda>r. r_key r = de_key desc \<and> r_state r = Dispatched) (db_rows (co_db co))"

lemma mark_dispatched_Inr:
  assumes "mark_dispatched i k dh now db = (Inr (), db')"
  shows "list_ex (\<lambda>r. r_key r = k \<and> r_state r = Dispatched) (db_rows db')"
proof -
  let ?p = "\<lambda>r. r_auth r = i \<and> r_key r = k \<and> r_descriptor_hash r = dh \<and> r_state r = Reserved"
  let ?f = "\<lambda>r. r\<lparr>r_state := Dispatched, r_dispatched := Some now\<rparr>"
  from assms have "changes ?p (db_rows db) = 1" "db_rows db' = update_where ?p ?f (db_rows db)"
    by (auto simp: mark_dispatched_def transaction_def bind_res_def ensure_def js_error_def Let_def
        split: sum.splits if_splits)
  moreover from this(1) have "filter ?p (db_rows db) \<noteq> []"
    unfolding changes_def by (intro notI) simp
  then obtain r where "r \<in> set (db_rows db)" "?p r"
    unfolding filter_empty_conv by blast
  ultimately have "?f r \<in> set (db_rows db')"
    by (auto simp: set_update_where)
  moreover have "r_key (?f r) = k" "r_state (?f r) = Dispatched"
    using \<open>?p r\<close> by simp_all
  ultimately show ?thesis unfolding list_ex_iff by blast
qed

lemma handle_request_Ok:
  assumes "handle_request raw now co = (Ok_reply j a, co')"
  shows "\<exists>rq. parse_request raw = Some rq \<and> guarded rq now co = (Inr a, co_db co')"
proof (cases "parse_request raw")
  case (Some rq)
  obtain out db' where g: "guarded rq now co = (out, db')" by (cases "guarded rq now co")
  with Some assms show ?thesis
    by (cases out) (auto simp: handle_request_def case_prod_beta Let_def)
qed (use assms in \<open>simp add: handle_request_def case_prod_beta Let_def\<close>)

lemma parse_request_mark:
  "parse_request (Shaped rq) = Some rq' \<Longrightarrow> rq_op rq = Op_mark k dh \<Longrightarrow> rq_op rq' = Op_mark k dh"
  by (auto split: option.splits if_splits)

lemma client_mark_Inr:
  assumes "client_request closed aborted i sc (Op_mark k dh) now co = (Inr a, co')"
  shows "list_ex (\<lambda>r. r_key r = k \<and> r_state r = Dispatched) (db_rows (co_db co'))"
proof -
  from assms obtain j where h: "handle_request (Shaped \<lparr>rq_version = 1, rq_id = i, rq_scope = sc, rq_op = Op_mark k dh\<rparr>) now co =
      (Ok_reply j a, co')"
    by (auto simp: client_request_def split: if_splits prod.splits reply.splits)
  from handle_request_Ok [OF h] obtain rq where rq: "guarded rq now co = (Inr a, co_db co')"
    and "rq_op rq = Op_mark k dh"
    using parse_request_mark by fastforce
  then have "perform (rq_scope rq) (Op_mark k dh) now (co_db co) = (Inr a, co_db co')"
    by (auto simp: guarded_def split: if_splits sum.splits)
  then obtain r db' where "mark_dispatched (sc_auth (rq_scope rq)) k dh now (co_db co) = (r, db')"
    and "map_sum Repo_error (\<lambda>_. No_result) r = Inr a" and "db' = co_db co'"
    by (cases "mark_dispatched (sc_auth (rq_scope rq)) k dh now (co_db co)") (auto split: sum.splits)
  then have "mark_dispatched (sc_auth (rq_scope rq)) k dh now (co_db co) = (Inr (), co_db co')"
    by (cases r) simp_all
  then show ?thesis by (rule mark_dispatched_Inr)
qed

lemma client_reserve_key:
  "client_reserve closed aborted i scope desc now co = (Inr (sc, k, dh), co') \<Longrightarrow> k = de_key desc"
  by (auto simp: client_reserve_def parse_descriptor_def
      split: option.splits prod.splits sum.splits answer.splits if_splits)



text \<open>
  A request that leaves a dimension unpriced disables the ledger: the repository refuses it
  with \<open>paid_effect_request_missing_dimension:\<close> and the dimension's name, which the coordinator's
  table of contract errors lists without the name; the error is therefore classified as a fatal
  journal failure, and the coordinator answers nothing afterwards.
\<close>

theorem missing_dimension_is_fatal:
  "error_code (Repo_error (Js_error (''paid_effect_request_missing_dimension:'' @ name))) =
     (Journal_unavailable, True, ''paid_effect_journal_unavailable'') \<and>
   \<not> co_healthy (absorb_error (Repo_error (Js_error (''paid_effect_request_missing_dimension:'' @ name))) co)"
  by (simp add: classify_message_def starts_with_def scope_errors_def contract_errors_def
      reservation_errors_def absorb_error_def)

end
