(* ===== verification/AcquisitionBudget.thy ===== *)
theory AcquisitionBudget
  imports Reservations
begin

text \<open>
  The acquisition attempt ledger (\<open>src/src/db/repositories/item-acquisition-budget-repo.ts\<close>):
  attempts of an item reserve resources and money against the limits of the item and of its
  batch, are dispatched, and settle or are released. \<open>now\<close> is the clock reading of a call.
\<close>

section \<open>Data\<close>

record resources =
  rs_attempts :: int
  rs_pages :: int
  rs_actions :: int
  rs_redirects :: int
  rs_bytes :: int
  rs_artifacts :: int
  rs_duration_ms :: int
  rs_input_tokens :: int
  rs_output_tokens :: int

datatype resource_key =
    Attempts | Pages | Actions | Redirects | Bytes | Artifacts | Duration_ms | Input_tokens | Output_tokens

definition resource_keys :: "resource_key list" where
  "resource_keys = [Attempts, Pages, Actions, Redirects, Bytes, Artifacts, Duration_ms, Input_tokens, Output_tokens]"

fun amount :: "resources \<Rightarrow> resource_key \<Rightarrow> int" where
  "amount r Attempts = rs_attempts r"
| "amount r Pages = rs_pages r"
| "amount r Actions = rs_actions r"
| "amount r Redirects = rs_redirects r"
| "amount r Bytes = rs_bytes r"
| "amount r Artifacts = rs_artifacts r"
| "amount r Duration_ms = rs_duration_ms r"
| "amount r Input_tokens = rs_input_tokens r"
| "amount r Output_tokens = rs_output_tokens r"

record acquisition_limits =
  lim_resources :: resources
  lim_concurrent :: int
  lim_cost :: "int option"

datatype attempt_kind = Model_kind | Brave_search | Serper_search | Browser

datatype billing = Pending | Known | Unknown | Not_applicable

text \<open>A JSON text column: its value, or text that is no resource record.\<close>

datatype resource_text = Bad_text | Resource_text resources

record acq_row =
  q_id :: string
  q_workspace :: string
  q_batch :: string
  q_item :: string
  q_run :: string
  q_provider :: string
  q_model :: string
  q_kind :: attempt_kind
  q_policy :: string
  q_pricing :: string
  q_reserved :: resource_text
  q_actual :: "resource_text option"
  q_cost :: "int option"
  q_actual_cost :: "int option"
  q_billing :: billing
  q_state :: attempt_state
  q_release_reason :: "string option"
  q_created :: string
  q_dispatched :: "string option"
  q_settled :: "string option"

record reservation_input =
  in_id :: string
  in_workspace :: string
  in_batch :: string
  in_item :: string
  in_run :: string
  in_provider :: string
  in_model :: string
  in_kind :: attempt_kind
  in_policy :: string
  in_pricing :: string
  in_resources :: resources
  in_cost :: "int option"
  in_item_limits :: acquisition_limits
  in_batch_limits :: acquisition_limits

text \<open>The reservations, and the onboarding rows that say which batch and workspace own an item.\<close>

record acq_db =
  acq_rows :: "acq_row list"
  item_batch :: "string \<Rightarrow> string option"
  batch_workspace :: "string \<Rightarrow> string option"

datatype limit_scope = Item_scope | Batch_scope

datatype acq_error =
    Row_invalid | Invalid_resources | Invalid_cost | Resource_overflow | Cost_overflow
  | Owner_unavailable | Exhausted limit_scope resource_key | Concurrency limit_scope
  | Cost_unknown limit_scope | Cost_exhausted limit_scope | Constraint_failed
  | Not_dispatchable | Known_requires_cost | Not_settleable | Not_releasable

section \<open>Reading the ledger\<close>

definition safe_integer :: "int \<Rightarrow> bool" where
  "safe_integer n \<longleftrightarrow> \<bar>n\<bar> \<le> 9007199254740991"

definition resources_valid :: "resources \<Rightarrow> bool" where
  "resources_valid r \<longleftrightarrow> list_all (\<lambda>k. safe_integer (amount r k) \<and> 0 \<le> amount r k) resource_keys"

fun parse_resources :: "resource_text \<Rightarrow> (acq_error, resources) result" where
  "parse_resources Bad_text = Inl Row_invalid"
| "parse_resources (Resource_text r) = (if resources_valid r then Inr r else Inl Row_invalid)"

definition assert_valid_resources :: "resources \<Rightarrow> (acq_error, unit) result" where
  "assert_valid_resources r = (if resources_valid r then Inr () else Inl Invalid_resources)"

definition row_text :: "acq_row \<Rightarrow> resource_text" where
  "row_text r = (case q_actual r of Some t \<Rightarrow> if q_state r = Settled then t else q_reserved r
     | None \<Rightarrow> q_reserved r)"

definition add_resources :: "resources \<Rightarrow> resources \<Rightarrow> resources" where
  "add_resources a b = \<lparr>rs_attempts = rs_attempts a + rs_attempts b, rs_pages = rs_pages a + rs_pages b,
     rs_actions = rs_actions a + rs_actions b, rs_redirects = rs_redirects a + rs_redirects b,
     rs_bytes = rs_bytes a + rs_bytes b, rs_artifacts = rs_artifacts a + rs_artifacts b,
     rs_duration_ms = rs_duration_ms a + rs_duration_ms b,
     rs_input_tokens = rs_input_tokens a + rs_input_tokens b,
     rs_output_tokens = rs_output_tokens a + rs_output_tokens b\<rparr>"

definition no_resources :: resources where
  "no_resources = \<lparr>rs_attempts = 0, rs_pages = 0, rs_actions = 0, rs_redirects = 0, rs_bytes = 0,
     rs_artifacts = 0, rs_duration_ms = 0, rs_input_tokens = 0, rs_output_tokens = 0\<rparr>"

fun sum_resources :: "resources \<Rightarrow> acq_row list \<Rightarrow> (acq_error, resources) result" where
  "sum_resources t [] = Inr t"
| "sum_resources t (r # rs) =
     (if q_state r = Released then sum_resources t rs
      else bind_res (parse_resources (row_text r)) (\<lambda>x.
        let t' = add_resources t x in
        if list_all (\<lambda>k. safe_integer (amount t' k)) resource_keys then sum_resources t' rs
        else Inl Resource_overflow))"

definition exceeds :: "resources \<Rightarrow> resources \<Rightarrow> acquisition_limits \<Rightarrow> resource_key option" where
  "exceeds t req lim =
     find (\<lambda>k. amount t k + amount req k > amount (lim_resources lim) k) resource_keys"

text \<open>Open rows that reserve an attempt; every reserved text of an open row is parsed.\<close>

fun active_attempts :: "acq_row list \<Rightarrow> (acq_error, int) result" where
  "active_attempts [] = Inr 0"
| "active_attempts (r # rs) =
     (if open_attempt (q_state r)
      then bind_res (parse_resources (q_reserved r)) (\<lambda>x.
           bind_res (active_attempts rs) (\<lambda>n. Inr (if rs_attempts x > 0 then n + 1 else n)))
      else active_attempts rs)"

definition billed :: "acq_row \<Rightarrow> int option" where
  "billed r = (if q_state r = Settled \<and> q_billing r = Known then q_actual_cost r else q_cost r)"

fun total_cost :: "int \<Rightarrow> acq_row list \<Rightarrow> (acq_error, int option) result" where
  "total_cost t [] = Inr (Some t)"
| "total_cost t (r # rs) =
     (if q_state r = Released then total_cost t rs
      else case billed r of
          None \<Rightarrow> Inr None
        | Some a \<Rightarrow> if safe_integer (t + a) then total_cost (t + a) rs else Inl Cost_overflow)"

section \<open>Operations\<close>

definition cost_valid :: "int option \<Rightarrow> bool" where
  "cost_valid c \<longleftrightarrow> pred_option (\<lambda>n. safe_integer n \<and> 0 \<le> n) c"

definition check_concurrency ::
    "limit_scope \<Rightarrow> resources \<Rightarrow> acquisition_limits \<Rightarrow> acq_row list \<Rightarrow> (acq_error, unit) result" where
  "check_concurrency sc req lim rows =
     bind_res (active_attempts rows) (\<lambda>n.
       guard_res (\<not> (rs_attempts req > 0 \<and> n \<ge> lim_concurrent lim)) (Concurrency sc))"

definition check_cost ::
    "limit_scope \<Rightarrow> int option \<Rightarrow> acquisition_limits \<Rightarrow> int option \<Rightarrow> (acq_error, unit) result" where
  "check_cost sc cost lim prior =
     (case lim_cost lim of
        None \<Rightarrow> Inr ()
      | Some m \<Rightarrow>
          (case (prior, cost) of
             (Some p, Some c) \<Rightarrow> guard_res (\<not> p + c > m) (Cost_exhausted sc)
           | _ \<Rightarrow> Inl (Cost_unknown sc)))"

definition owner_batch :: "acq_db \<Rightarrow> string \<Rightarrow> string \<Rightarrow> string option" where
  "owner_batch db ws item =
     (case item_batch db item of
        None \<Rightarrow> None
      | Some b \<Rightarrow> if batch_workspace db b = Some ws then Some b else None)"

definition new_acq_row :: "reservation_input \<Rightarrow> string \<Rightarrow> acq_row" where
  "new_acq_row i now =
     \<lparr>q_id = in_id i, q_workspace = in_workspace i, q_batch = in_batch i, q_item = in_item i,
      q_run = in_run i, q_provider = in_provider i, q_model = in_model i, q_kind = in_kind i,
      q_policy = in_policy i, q_pricing = in_pricing i, q_reserved = Resource_text (in_resources i),
      q_actual = None, q_cost = in_cost i, q_actual_cost = None, q_billing = Pending,
      q_state = Reserved, q_release_reason = None, q_created = now, q_dispatched = None, q_settled = None\<rparr>"

text \<open>\<open>INSERT\<close>: the primary key and the \<open>CHECK\<close> on the owner columns.\<close>

definition insert_row :: "acq_row \<Rightarrow> acq_row list \<Rightarrow> (acq_error, acq_row list) result" where
  "insert_row r rows =
     (if q_id r \<in> q_id ` set rows \<or> q_workspace r = [] \<or> q_batch r = [] \<or> q_item r = []
      then Inl Constraint_failed else Inr (rows @ [r]))"

definition item_rows :: "string \<Rightarrow> string \<Rightarrow> acq_row list \<Rightarrow> acq_row list" where
  "item_rows ws item rows = filter (\<lambda>r. q_workspace r = ws \<and> q_item r = item) rows"

definition batch_rows :: "string \<Rightarrow> string \<Rightarrow> acq_row list \<Rightarrow> acq_row list" where
  "batch_rows ws batch rows = filter (\<lambda>r. q_workspace r = ws \<and> q_batch r = batch) rows"

definition reserve_transaction :: "reservation_input \<Rightarrow> string \<Rightarrow> acq_db \<Rightarrow> (acq_error, acq_row list) result" where
  "reserve_transaction i now db =
     (let its = item_rows (in_workspace i) (in_item i) (acq_rows db);
          bts = batch_rows (in_workspace i) (in_batch i) (acq_rows db)
      in bind_res (guard_res (owner_batch db (in_workspace i) (in_item i) = Some (in_batch i)) Owner_unavailable) (\<lambda>_.
         bind_res (sum_resources no_resources its) (\<lambda>it.
         bind_res (sum_resources no_resources bts) (\<lambda>bt.
         bind_res (case exceeds it (in_resources i) (in_item_limits i) of
                     Some k \<Rightarrow> Inl (Exhausted Item_scope k) | None \<Rightarrow> Inr ()) (\<lambda>_.
         bind_res (case exceeds bt (in_resources i) (in_batch_limits i) of
                     Some k \<Rightarrow> Inl (Exhausted Batch_scope k) | None \<Rightarrow> Inr ()) (\<lambda>_.
         bind_res (check_concurrency Item_scope (in_resources i) (in_item_limits i) its) (\<lambda>_.
         bind_res (check_concurrency Batch_scope (in_resources i) (in_batch_limits i) bts) (\<lambda>_.
         bind_res (total_cost 0 its) (\<lambda>ic.
         bind_res (total_cost 0 bts) (\<lambda>bc.
         bind_res (check_cost Item_scope (in_cost i) (in_item_limits i) ic) (\<lambda>_.
         bind_res (check_cost Batch_scope (in_cost i) (in_batch_limits i) bc) (\<lambda>_.
           insert_row (new_acq_row i now) (acq_rows db)))))))))))))"

definition reserve_attempt :: "reservation_input \<Rightarrow> string \<Rightarrow> acq_db \<Rightarrow> (acq_error, string) result \<times> acq_db" where
  "reserve_attempt i now db =
     (if \<not> resources_valid (in_resources i) then (Inl Invalid_resources, db)
      else if \<not> cost_valid (in_cost i) then (Inl Invalid_cost, db)
      else case reserve_transaction i now db of
          Inl e \<Rightarrow> (Inl e, db)
        | Inr rows \<Rightarrow> (Inr (in_batch i), db\<lparr>acq_rows := rows\<rparr>))"

definition addressed :: "string \<Rightarrow> string \<Rightarrow> string \<Rightarrow> string \<Rightarrow> attempt_state \<Rightarrow> acq_row \<Rightarrow> bool" where
  "addressed i ws item run st r \<longleftrightarrow>
     q_id r = i \<and> q_workspace r = ws \<and> q_item r = item \<and> q_run r = run \<and> q_state r = st"

text \<open>An \<open>UPDATE\<close> outside a transaction, with its check that exactly one row changed.\<close>

definition update_one ::
    "acq_error \<Rightarrow> (acq_row \<Rightarrow> bool) \<Rightarrow> (acq_row \<Rightarrow> acq_row) \<Rightarrow> acq_db \<Rightarrow> (acq_error, unit) result \<times> acq_db" where
  "update_one e p f db =
     (if changes p (acq_rows db) = 1 then Inr () else Inl e,
      db\<lparr>acq_rows := update_where p f (acq_rows db)\<rparr>)"

definition dispatch_row :: "string \<Rightarrow> acq_row \<Rightarrow> acq_row" where
  "dispatch_row now r = r\<lparr>q_state := Dispatched, q_dispatched := Some now\<rparr>"

definition settle_row :: "billing \<Rightarrow> resource_text option \<Rightarrow> int option \<Rightarrow> string \<Rightarrow> acq_row \<Rightarrow> acq_row" where
  "settle_row b act cost now r =
     r\<lparr>q_state := Settled, q_billing := b, q_actual := act, q_actual_cost := cost, q_settled := Some now\<rparr>"

definition release_row :: "string \<Rightarrow> string \<Rightarrow> acq_row \<Rightarrow> acq_row" where
  "release_row reason now r =
     r\<lparr>q_state := Released, q_billing := Not_applicable, q_release_reason := Some reason, q_settled := Some now\<rparr>"

definition dispatch_attempt ::
    "string \<Rightarrow> string \<Rightarrow> string \<Rightarrow> string \<Rightarrow> string \<Rightarrow> acq_db \<Rightarrow> (acq_error, unit) result \<times> acq_db" where
  "dispatch_attempt i ws item run now =
     update_one Not_dispatchable (addressed i ws item run Reserved) (dispatch_row now)"

definition settle_acquisition ::
    "string \<Rightarrow> string \<Rightarrow> string \<Rightarrow> string \<Rightarrow> billing \<Rightarrow> resources \<Rightarrow> int option \<Rightarrow> string \<Rightarrow> acq_db \<Rightarrow>
     (acq_error, unit) result \<times> acq_db" where
  "settle_acquisition i ws item run b act cost now db =
     (if \<not> resources_valid act then (Inl Invalid_resources, db)
      else if \<not> cost_valid cost then (Inl Invalid_cost, db)
      else if b = Known \<and> cost = None then (Inl Known_requires_cost, db)
      else update_one Not_settleable (addressed i ws item run Dispatched)
             (settle_row b (Some (Resource_text act)) cost now) db)"

definition release_attempt ::
    "string \<Rightarrow> string \<Rightarrow> string \<Rightarrow> string \<Rightarrow> string \<Rightarrow> string \<Rightarrow> acq_db \<Rightarrow> (acq_error, unit) result \<times> acq_db" where
  "release_attempt i ws item run reason now =
     update_one Not_releasable (addressed i ws item run Reserved) (release_row (take 128 reason) now)"

fun settle_abandoned_loop ::
    "string list \<Rightarrow> string \<Rightarrow> string \<Rightarrow> string \<Rightarrow> string \<Rightarrow> acq_row list \<Rightarrow> acq_row list" where
  "settle_abandoned_loop [] ws item run now rows = rows"
| "settle_abandoned_loop (i # ids) ws item run now rows =
     settle_abandoned_loop ids ws item run now
       (update_where (addressed i ws item run Reserved) (release_row ''scope_closed_before_dispatch'' now)
         (update_where (addressed i ws item run Dispatched) (settle_row Unknown None None now) rows))"

definition settle_abandoned :: "string list \<Rightarrow> string \<Rightarrow> string \<Rightarrow> string \<Rightarrow> string \<Rightarrow> acq_db \<Rightarrow> acq_db" where
  "settle_abandoned ids ws item run now db =
     (if ids = [] then db
      else db\<lparr>acq_rows := settle_abandoned_loop ids ws item run now (acq_rows db)\<rparr>)"

definition acquisition_batch_id :: "string \<Rightarrow> string \<Rightarrow> acq_db \<Rightarrow> string option" where
  "acquisition_batch_id ws item db = owner_batch db ws item"


section \<open>The rows as a journal\<close>

text \<open>What a row counts against a limit, per resource: the actual amount once settled with one.\<close>

definition row_amount :: "resource_key \<Rightarrow> acq_row \<Rightarrow> int" where
  "row_amount k r =
     (if q_state r = Released then 0
      else case row_text r of Resource_text x \<Rightarrow> amount x k | Bad_text \<Rightarrow> 0)"

definition text_valid :: "resource_text \<Rightarrow> bool" where
  "text_valid t = is_ok (parse_resources t)"

text \<open>
  What calls do to a row when every settlement reports at most what was reserved. A row keeps its
  identity and owner columns throughout.
\<close>

inductive acq_evolves :: "acq_row \<Rightarrow> acq_row \<Rightarrow> bool" where
  same: "acq_evolves r r"
| dispatches: "q_state r = Reserved \<Longrightarrow> acq_evolves r (dispatch_row now r)"
| releases: "q_state r = Reserved \<Longrightarrow> acq_evolves r (release_row reason now r)"
| settles: "q_state r = Dispatched \<Longrightarrow> q_reserved r = Resource_text x \<Longrightarrow> resources_valid act \<Longrightarrow>
    \<forall>k. amount act k \<le> amount x k \<Longrightarrow> acq_evolves r (settle_row b (Some (Resource_text act)) cost now r)"
| abandons: "q_state r = Dispatched \<Longrightarrow> acq_evolves r (settle_row Unknown None None now r)"

text \<open>Texts of a row parse, and a row that never settled holds no actual amounts.\<close>

definition acq_row_ok :: "acq_row \<Rightarrow> bool" where
  "acq_row_ok r \<longleftrightarrow> text_valid (q_reserved r) \<and> pred_option text_valid (q_actual r) \<and>
     (q_state r \<noteq> Settled \<longrightarrow> q_actual r = None)"

lemma text_valid_iff: "text_valid t \<longleftrightarrow> (\<exists>x. t = Resource_text x \<and> resources_valid x)"
  by (cases t) (auto simp: text_valid_def)

lemma resources_valid_amount: "resources_valid x \<Longrightarrow> 0 \<le> amount x k"
  by (cases k) (auto simp: resources_valid_def resource_keys_def)

lemmas row_updates = dispatch_row_def settle_row_def release_row_def

lemma evolves_row_ok: "acq_evolves r s \<Longrightarrow> acq_row_ok r \<Longrightarrow> acq_row_ok s"
  by (induction rule: acq_evolves.induct) (auto simp: acq_row_ok_def row_updates text_valid_def)

text \<open>
  The journal of one limit scope: \<open>owner\<close> picks the columns a limit is summed over (workspace and
  item, or workspace and batch). Rows carry their own well-formedness.
\<close>

definition good_evolves :: "acq_row \<Rightarrow> acq_row \<Rightarrow> bool" where
  "good_evolves r s \<longleftrightarrow> r = s \<or> (acq_row_ok r \<and> acq_evolves r s)"

lemma good_evolves_amount: "good_evolves r s \<Longrightarrow> row_amount k s \<le> row_amount k r"
proof -
  assume "good_evolves r s"
  then consider "r = s" | "acq_row_ok r" "acq_evolves r s" by (auto simp: good_evolves_def)
  then show ?thesis
  proof cases
    case 2
    from 2(2,1) show ?thesis
      by (induction rule: acq_evolves.induct)
        (auto simp: row_amount_def row_text_def row_updates acq_row_ok_def text_valid_iff
          intro: resources_valid_amount)
  qed simp
qed

lemma acq_evolves_frame:
  "acq_evolves r s \<Longrightarrow> q_id s = q_id r \<and> q_workspace s = q_workspace r \<and> q_item s = q_item r \<and>
    q_batch s = q_batch r \<and> q_run s = q_run r \<and> q_reserved s = q_reserved r \<and> q_cost s = q_cost r \<and>
    (q_state s = q_state r \<or> lifecycle (q_state r) (q_state s))"
  by (induction rule: acq_evolves.induct) (auto simp: row_updates lifecycle_simps)

lemmas good_evolves_frame = good_evolves_def acq_evolves_frame

interpretation item_journal: attempt_journal q_id "\<lambda>r. (q_workspace r, q_item r)" q_state "row_amount k" good_evolves
  for k
  by unfold_locales (auto simp: good_evolves_amount good_evolves_def dest: acq_evolves_frame)

interpretation batch_journal: attempt_journal q_id "\<lambda>r. (q_workspace r, q_batch r)" q_state "row_amount k" good_evolves
  for k
  by unfold_locales (auto simp: good_evolves_amount good_evolves_def dest: acq_evolves_frame)

section \<open>Sums against limits\<close>

definition used :: "resource_key \<Rightarrow> acq_row list \<Rightarrow> int" where
  "used k rows = (\<Sum>r\<leftarrow>rows. row_amount k r)"

lemma used_simps [simp]: "used k [] = 0" "used k (r # rs) = row_amount k r + used k rs"
  "used k (rs @ rs') = used k rs + used k rs'"
  by (simp_all add: used_def)

lemma item_encumbered: "item_journal.encumbered k (ws, item) rows = used k (item_rows ws item rows)"
  by (simp add: item_journal.encumbered_def item_journal.owned_def used_def item_rows_def)

lemma batch_encumbered: "batch_journal.encumbered k (ws, b) rows = used k (batch_rows ws b rows)"
  by (simp add: batch_journal.encumbered_def batch_journal.owned_def used_def batch_rows_def)

lemma amount_add [simp]: "amount (add_resources a b) k = amount a k + amount b k"
  by (cases k) (simp_all add: add_resources_def)

lemma amount_none [simp]: "amount no_resources k = 0"
  by (cases k) (simp_all add: no_resources_def)

lemma sum_resources_amount: "sum_resources t rows = Inr s \<Longrightarrow> amount s k = amount t k + used k rows"
proof (induction t rows rule: sum_resources.induct)
  case (2 t r rs)
  show ?case
  proof (cases "q_state r = Released")
    case True
    with 2 show ?thesis by (simp add: row_amount_def)
  next
    case False
    with 2(3) obtain x where x: "row_text r = Resource_text x"
      and rest: "sum_resources (add_resources t x) rs = Inr s"
      and safe: "list_all (\<lambda>k. safe_integer (amount (add_resources t x) k)) resource_keys"
      by (cases "row_text r") (auto simp: Let_def split: if_splits)
    from 2(2) [OF False refl safe rest] x False show ?thesis
      by (simp add: row_amount_def)
  qed
qed simp

lemma exceeds_None: "exceeds t req lim = None \<longleftrightarrow> (\<forall>k. amount t k + amount req k \<le> amount (lim_resources lim) k)"
proof -
  have "set resource_keys = UNIV"
    using resource_key.exhaust by (auto simp: resource_keys_def)
  then show ?thesis
    by (simp add: exceeds_def find_None_all not_less)
qed

lemma reserve_transaction_cases:
  assumes "reserve_transaction i now db = Inr rows"
  obtains "owner_batch db (in_workspace i) (in_item i) = Some (in_batch i)"
    "\<forall>k. used k (item_rows (in_workspace i) (in_item i) (acq_rows db)) + amount (in_resources i) k \<le>
       amount (lim_resources (in_item_limits i)) k"
    "\<forall>k. used k (batch_rows (in_workspace i) (in_batch i) (acq_rows db)) + amount (in_resources i) k \<le>
       amount (lim_resources (in_batch_limits i)) k"
    "rows = acq_rows db @ [new_acq_row i now]" "in_id i \<notin> q_id ` set (acq_rows db)"
proof -
  have none: "(case x of Some k \<Rightarrow> Inl (Exhausted sc k) | None \<Rightarrow> Inr ()) = Inr u \<longleftrightarrow> x = None" for x sc u
    by (cases x) simp_all
  from assms obtain it bt where
      o: "owner_batch db (in_workspace i) (in_item i) = Some (in_batch i)"
    and it: "sum_resources no_resources (item_rows (in_workspace i) (in_item i) (acq_rows db)) = Inr it"
    and bt: "sum_resources no_resources (batch_rows (in_workspace i) (in_batch i) (acq_rows db)) = Inr bt"
    and ex: "exceeds it (in_resources i) (in_item_limits i) = None"
      "exceeds bt (in_resources i) (in_batch_limits i) = None"
    and ins: "insert_row (new_acq_row i now) (acq_rows db) = Inr rows"
    unfolding reserve_transaction_def Let_def by (auto simp: bind_res_Inr_iff none)
  show thesis
    by (rule that) (use o ex sum_resources_amount [OF it] sum_resources_amount [OF bt] ins in
      \<open>auto simp: exceeds_None insert_row_def new_acq_row_def split: if_splits\<close>)
qed


lemma reserve_attempt_cases:
  assumes "reserve_attempt i now db = (Inr b, db')"
  obtains "resources_valid (in_resources i)" "b = in_batch i"
    "reserve_transaction i now db = Inr (acq_rows db')" "db' = db\<lparr>acq_rows := acq_rows db'\<rparr>"
  using assms by (auto simp: reserve_attempt_def split: if_splits sum.splits)

section \<open>Runs under fixed limits\<close>

text \<open>
  One history of calls: the limits of the policy are fixed, and a settlement reports at most what
  its attempt reserved, which is what the callers enforce before they settle.
\<close>

inductive acq_run :: "acquisition_limits \<Rightarrow> acquisition_limits \<Rightarrow> acq_db \<Rightarrow> bool"
  for item_lim batch_lim where
  start: "acq_rows db = [] \<Longrightarrow> acq_run item_lim batch_lim db"
| reserving: "acq_run item_lim batch_lim db \<Longrightarrow> in_item_limits i = item_lim \<Longrightarrow> in_batch_limits i = batch_lim \<Longrightarrow>
    acq_run item_lim batch_lim (snd (reserve_attempt i now db))"
| dispatching: "acq_run item_lim batch_lim db \<Longrightarrow>
    acq_run item_lim batch_lim (snd (dispatch_attempt i ws item run now db))"
| settling: "acq_run item_lim batch_lim db \<Longrightarrow>
    \<forall>r \<in> set (acq_rows db). addressed i ws item run Dispatched r \<longrightarrow>
      (\<forall>x k. q_reserved r = Resource_text x \<longrightarrow> amount act k \<le> amount x k) \<Longrightarrow>
    acq_run item_lim batch_lim (snd (settle_acquisition i ws item run b act cost now db))"
| releasing: "acq_run item_lim batch_lim db \<Longrightarrow>
    acq_run item_lim batch_lim (snd (release_attempt i ws item run reason now db))"
| abandoning: "acq_run item_lim batch_lim db \<Longrightarrow>
    acq_run item_lim batch_lim (settle_abandoned ids ws item run now db)"

definition acq_inv :: "acquisition_limits \<Rightarrow> acquisition_limits \<Rightarrow> acq_row list \<Rightarrow> bool" where
  "acq_inv il bl rows \<longleftrightarrow> (\<forall>r \<in> set rows. acq_row_ok r) \<and>
     (\<forall>k ws x. used k (item_rows ws x rows) \<le> amount (lim_resources il) k \<and>
               used k (batch_rows ws x rows) \<le> amount (lim_resources bl) k)"

lemma inv_update:
  assumes inv: "acq_inv il bl rows"
    and ev: "\<And>r. r \<in> set rows \<Longrightarrow> acq_row_ok r \<Longrightarrow> p r \<Longrightarrow> acq_evolves r (f r)"
  shows "acq_inv il bl (update_where p f rows)"
proof -
  have je: "list_all2 good_evolves rows (update_where p f rows)"
    using inv ev by (intro item_journal.update_evolves) (auto simp: acq_inv_def good_evolves_def)
  have "used k (item_rows ws x (update_where p f rows)) \<le> amount (lim_resources il) k" for k ws x
    using item_journal.evolve_within [OF _ je, of k "(ws, x)"] inv
    by (auto simp: acq_inv_def item_encumbered)
  moreover have "used k (batch_rows ws x (update_where p f rows)) \<le> amount (lim_resources bl) k" for k ws x
    using batch_journal.evolve_within [OF _ je, of k "(ws, x)"] inv
    by (auto simp: acq_inv_def batch_encumbered)
  moreover have "acq_row_ok s" if "s \<in> set (update_where p f rows)" for s
    using that inv ev evolves_row_ok by (auto simp: set_update_where acq_inv_def)
  ultimately show ?thesis by (simp add: acq_inv_def)
qed

lemma inv_reserve:
  assumes inv: "acq_inv (in_item_limits i) (in_batch_limits i) (acq_rows db)"
    and valid: "resources_valid (in_resources i)" and r: "reserve_transaction i now db = Inr rows"
  shows "acq_inv (in_item_limits i) (in_batch_limits i) rows"
  using r
proof (cases rule: reserve_transaction_cases)
  case 1
  have new: "acq_row_ok (new_acq_row i now)" "row_amount k (new_acq_row i now) = amount (in_resources i) k" for k
    using valid by (simp_all add: acq_row_ok_def new_acq_row_def text_valid_def row_amount_def row_text_def)
  have "used k (item_rows ws x rows) \<le> amount (lim_resources (in_item_limits i)) k" for k ws x
    using inv 1(2) new(2) by (auto simp: acq_inv_def 1(4) item_rows_def new_acq_row_def)
  moreover have "used k (batch_rows ws x rows) \<le> amount (lim_resources (in_batch_limits i)) k" for k ws x
    using inv 1(3) new(2) by (auto simp: acq_inv_def 1(4) batch_rows_def new_acq_row_def)
  ultimately show ?thesis
    using inv new(1) by (simp add: acq_inv_def 1(4))
qed

lemma acq_row_ok_text: "acq_row_ok r \<Longrightarrow> \<exists>x. q_reserved r = Resource_text x"
  by (auto simp: acq_row_ok_def text_valid_iff)

lemma inv_abandon:
  "acq_inv il bl rows \<Longrightarrow> acq_inv il bl (settle_abandoned_loop ids ws item run now rows)"
proof (induction ids ws item run now rows rule: settle_abandoned_loop.induct)
  case (2 i ids ws item run now rows)
  have "acq_inv il bl (update_where (addressed i ws item run Dispatched) (settle_row Unknown None None now) rows)"
    using 2(2) by (rule inv_update) (auto simp: addressed_def intro: abandons)
  then have "acq_inv il bl (update_where (addressed i ws item run Reserved) (release_row ''scope_closed_before_dispatch'' now)
      (update_where (addressed i ws item run Dispatched) (settle_row Unknown None None now) rows))"
    by (rule inv_update) (auto simp: addressed_def intro: releases)
  from 2(1) [OF this] show ?case by simp
qed simp

lemma acq_run_inv:
  assumes "acq_run il bl db" and nonneg: "\<forall>k. 0 \<le> amount (lim_resources il) k \<and> 0 \<le> amount (lim_resources bl) k"
  shows "acq_inv il bl (acq_rows db)"
  using assms(1)
proof (induction rule: acq_run.induct)
  case (start db)
  with nonneg show ?case by (simp add: acq_inv_def item_rows_def batch_rows_def)
next
  case (reserving db i now)
  then show ?case using inv_reserve by (auto simp: reserve_attempt_def split: sum.splits)
next
  case (dispatching db i ws item run now)
  then show ?case
    by (auto simp: dispatch_attempt_def update_one_def addressed_def intro!: inv_update intro: dispatches)
next
  case (settling db i ws item run act b cost now)
  then show ?case
    using acq_row_ok_text
    by (fastforce simp: settle_acquisition_def update_one_def addressed_def intro!: inv_update intro: settles)
next
  case (releasing db i ws item run reason now)
  then show ?case
    by (auto simp: release_attempt_def update_one_def addressed_def intro!: inv_update intro: releases)
next
  case (abandoning db ids ws item run now)
  then show ?case by (simp add: settle_abandoned_def inv_abandon)
qed

section \<open>Abandoned attempts\<close>

definition listed :: "string list \<Rightarrow> string \<Rightarrow> string \<Rightarrow> string \<Rightarrow> acq_row \<Rightarrow> bool" where
  "listed ids ws item run r \<longleftrightarrow> q_id r \<in> set ids \<and> q_workspace r = ws \<and> q_item r = item \<and> q_run r = run"

definition abandon_row :: "string list \<Rightarrow> string \<Rightarrow> string \<Rightarrow> string \<Rightarrow> string \<Rightarrow> acq_row \<Rightarrow> acq_row" where
  "abandon_row ids ws item run now r =
     (if listed ids ws item run r \<and> q_state r = Dispatched then settle_row Unknown None None now r
      else if listed ids ws item run r \<and> q_state r = Reserved
        then release_row ''scope_closed_before_dispatch'' now r
      else r)"

lemma listed_Cons: "listed (i # ids) ws item run r \<longleftrightarrow>
    listed ids ws item run r \<or> (q_id r = i \<and> q_workspace r = ws \<and> q_item r = item \<and> q_run r = run)"
  by (auto simp: listed_def)

lemma listed_update [simp]:
  "listed ids ws item run (settle_row b act cost now r) = listed ids ws item run r"
  "listed ids ws item run (release_row reason now r) = listed ids ws item run r"
  by (simp_all add: listed_def row_updates)

lemma state_update [simp]:
  "q_state (settle_row b act cost now r) = Settled"
  "q_state (release_row reason now r) = Released"
  by (simp_all add: row_updates)

lemma abandon_row_cases:
  "listed ids ws item run r \<Longrightarrow> q_state r = Dispatched \<Longrightarrow> abandon_row ids ws item run now r = settle_row Unknown None None now r"
  "listed ids ws item run r \<Longrightarrow> q_state r = Reserved \<Longrightarrow>
     abandon_row ids ws item run now r = release_row ''scope_closed_before_dispatch'' now r"
  "\<not> listed ids ws item run r \<or> q_state r = Settled \<or> q_state r = Released \<Longrightarrow> abandon_row ids ws item run now r = r"
  by (auto simp: abandon_row_def)

definition abandon_one :: "string \<Rightarrow> string \<Rightarrow> string \<Rightarrow> string \<Rightarrow> string \<Rightarrow> acq_row \<Rightarrow> acq_row" where
  "abandon_one i ws item run now r =
     (let r' = (if addressed i ws item run Dispatched r then settle_row Unknown None None now r else r)
      in if addressed i ws item run Reserved r' then release_row ''scope_closed_before_dispatch'' now r' else r')"

lemma abandon_one_single: "abandon_one i ws item run now r = abandon_row [i] ws item run now r"
  by (cases "q_state r"; cases "listed [i] ws item run r")
    (auto simp: abandon_one_def Let_def addressed_def listed_def abandon_row_cases)

lemma abandon_step: "abandon_row ids ws item run now (abandon_one i ws item run now r) = abandon_row (i # ids) ws item run now r"
proof -
  have l: "listed (i # ids) ws item run r \<longleftrightarrow> listed ids ws item run r \<or> listed [i] ws item run r"
    by (auto simp: listed_def)
  show ?thesis
    unfolding abandon_one_single
    by (cases "listed [i] ws item run r"; cases "listed ids ws item run r"; cases "q_state r")
      (simp_all add: abandon_row_cases l)
qed

lemma abandon_loop_map:
  "settle_abandoned_loop ids ws item run now rows = map (abandon_row ids ws item run now) rows"
proof (induction ids ws item run now rows rule: settle_abandoned_loop.induct)
  case (1 ws item run now rows)
  then show ?case by (simp add: abandon_row_def listed_def map_idI)
next
  case (2 i ids ws item run now rows)
  have "map (abandon_row ids ws item run now)
      (update_where (addressed i ws item run Reserved) (release_row ''scope_closed_before_dispatch'' now)
         (update_where (addressed i ws item run Dispatched) (settle_row Unknown None None now) rows)) =
      map (abandon_row (i # ids) ws item run now) rows"
    unfolding update_where_def map_map comp_def
    by (rule map_cong [OF refl]) (simp add: abandon_step [unfolded abandon_one_def Let_def])
  with 2 show ?case by simp
qed

lemma abandon_row_facts:
  "listed ids ws item run (abandon_row ids ws item run now r) = listed ids ws item run r"
  "q_state (abandon_row ids ws item run now r) =
     (if listed ids ws item run r \<and> q_state r = Dispatched then Settled
      else if listed ids ws item run r \<and> q_state r = Reserved then Released else q_state r)"
  "row_amount k (abandon_row ids ws item run now r) =
     (if listed ids ws item run r \<and> q_state r = Reserved then 0 else row_amount k r)"
  "billed (abandon_row ids ws item run now r) = billed r"
proof -
  show "listed ids ws item run (abandon_row ids ws item run now r) = listed ids ws item run r"
    by (simp add: abandon_row_def)
  show "q_state (abandon_row ids ws item run now r) =
     (if listed ids ws item run r \<and> q_state r = Dispatched then Settled
      else if listed ids ws item run r \<and> q_state r = Reserved then Released else q_state r)"
    by (simp add: abandon_row_def row_updates)
  show "row_amount k (abandon_row ids ws item run now r) =
     (if listed ids ws item run r \<and> q_state r = Reserved then 0 else row_amount k r)"
    by (cases "q_actual r"; cases "listed ids ws item run r"; cases "q_state r")
      (simp_all add: abandon_row_def row_updates row_amount_def row_text_def)
  show "billed (abandon_row ids ws item run now r) = billed r"
    by (simp add: abandon_row_def row_updates billed_def)
qed

section \<open>Properties\<close>

text \<open>
  C12. Limits hold over a whole history: from an empty ledger, under fixed item and batch limits and
  with settlements that report at most what was reserved, the resources counted for an item and for
  a batch never exceed their limits, resource by resource, however reservations, dispatches,
  settlements, releases and abandoned scopes interleave.
\<close>

theorem acquisition_limits_hold:
  assumes "acq_run item_lim batch_lim db"
    and "\<forall>k. 0 \<le> amount (lim_resources item_lim) k \<and> 0 \<le> amount (lim_resources batch_lim) k"
  shows "(\<Sum>r\<leftarrow>item_rows ws item (acq_rows db). row_amount k r) \<le> amount (lim_resources item_lim) k \<and>
    (\<Sum>r\<leftarrow>batch_rows ws batch (acq_rows db). row_amount k r) \<le> amount (lim_resources batch_lim) k"
  using acq_run_inv [OF assms] by (auto simp: acq_inv_def used_def)

definition sample_limits :: acquisition_limits where
  "sample_limits = \<lparr>lim_resources = \<lparr>rs_attempts = 2, rs_pages = 10, rs_actions = 10, rs_redirects = 10,
     rs_bytes = 1000, rs_artifacts = 10, rs_duration_ms = 1000, rs_input_tokens = 100, rs_output_tokens = 100\<rparr>,
     lim_concurrent = 1, lim_cost = Some 50\<rparr>"

definition sample_input :: reservation_input where
  "sample_input = \<lparr>in_id = ''r1'', in_workspace = ''w'', in_batch = ''b'', in_item = ''i'', in_run = ''run'',
     in_provider = ''p'', in_model = ''m'', in_kind = Browser, in_policy = ''ph'', in_pricing = ''qh'',
     in_resources = no_resources\<lparr>rs_attempts := 1, rs_pages := 4\<rparr>, in_cost = Some 20,
     in_item_limits = sample_limits, in_batch_limits = sample_limits\<rparr>"

definition sample_acq_db :: acq_db where
  "sample_acq_db = \<lparr>acq_rows = [], item_batch = [''i'' \<mapsto> ''b''], batch_workspace = [''b'' \<mapsto> ''w'']\<rparr>"

lemma sample_reservation:
  "reserve_attempt sample_input ''t'' sample_acq_db = (Inr ''b'', sample_acq_db\<lparr>acq_rows := [new_acq_row sample_input ''t'']\<rparr>)"
  by (simp add: reserve_attempt_def resources_valid_def resource_keys_def safe_integer_def cost_valid_def
      reserve_transaction_def Let_def item_rows_def batch_rows_def owner_batch_def exceeds_def
      check_concurrency_def check_cost_def insert_row_def new_acq_row_def
      sample_input_def sample_acq_db_def sample_limits_def no_resources_def)

theorem acquisition_limits_hold_witness:
  "(\<Sum>r\<leftarrow>item_rows ''w'' ''i'' (acq_rows (snd (reserve_attempt sample_input ''t'' sample_acq_db))). row_amount Pages r) = 4 \<and>
   (\<Sum>r\<leftarrow>item_rows ''w'' ''i'' (acq_rows (snd (reserve_attempt sample_input ''t'' sample_acq_db))). row_amount Pages r) \<le>
     amount (lim_resources sample_limits) Pages"
proof
  have "acq_run sample_limits sample_limits sample_acq_db"
    by (rule acq_run.start) (simp add: sample_acq_db_def)
  then have run: "acq_run sample_limits sample_limits (snd (reserve_attempt sample_input ''t'' sample_acq_db))"
    by (rule acq_run.reserving) (simp_all add: sample_input_def)
  have lim: "\<forall>k. 0 \<le> amount (lim_resources sample_limits) k \<and> 0 \<le> amount (lim_resources sample_limits) k"
  proof
    fix k show "0 \<le> amount (lim_resources sample_limits) k \<and> 0 \<le> amount (lim_resources sample_limits) k"
      by (cases k) (simp_all add: sample_limits_def)
  qed
  show "(\<Sum>r\<leftarrow>item_rows ''w'' ''i'' (acq_rows (snd (reserve_attempt sample_input ''t'' sample_acq_db))). row_amount Pages r) \<le>
     amount (lim_resources sample_limits) Pages"
    using acquisition_limits_hold [OF run lim] by blast
  show "(\<Sum>r\<leftarrow>item_rows ''w'' ''i'' (acq_rows (snd (reserve_attempt sample_input ''t'' sample_acq_db))). row_amount Pages r) = 4"
    by (simp add: sample_reservation item_rows_def new_acq_row_def row_amount_def row_text_def)
      (simp add: sample_input_def no_resources_def)
qed

text \<open>
  C13. A reservation is admitted only when it fits: after a successful reservation, the item belongs
  to the batch and workspace it was made for, and the item's and the batch's totals, the new attempt
  included, are within the limits the request carried, whatever happened before.
\<close>

theorem reservation_fits_limits:
  assumes "reserve_attempt i now db = (Inr b, db')"
  shows "b = in_batch i \<and> acquisition_batch_id (in_workspace i) (in_item i) db = Some b \<and>
    (\<Sum>r\<leftarrow>item_rows (in_workspace i) (in_item i) (acq_rows db'). row_amount k r) \<le> amount (lim_resources (in_item_limits i)) k \<and>
    (\<Sum>r\<leftarrow>batch_rows (in_workspace i) (in_batch i) (acq_rows db'). row_amount k r) \<le> amount (lim_resources (in_batch_limits i)) k"
  using assms
proof (cases rule: reserve_attempt_cases)
  case 1
  from 1(3) show ?thesis
  proof (cases rule: reserve_transaction_cases)
    case fits: 1
    have "row_amount k (new_acq_row i now) = amount (in_resources i) k"
      by (simp add: new_acq_row_def row_amount_def row_text_def)
    with fits 1(2) show ?thesis
      by (simp add: acquisition_batch_id_def item_rows_def batch_rows_def new_acq_row_def used_def)
  qed
qed

theorem reservation_fits_limits_witness:
  "acquisition_batch_id ''w'' ''i'' sample_acq_db = Some ''b''"
  using reservation_fits_limits [OF sample_reservation, of Pages] by (simp add: sample_input_def)

text \<open>
  An abandoned scope pays in full: closing a scope leaves none of its attempts open, every
  attempt it had dispatched keeps counting its whole reservation (resources and money, with billing
  unknown), and the attempts it had only reserved stop counting.
\<close>

theorem abandoned_attempts_charged_in_full:
  "filter (\<lambda>r. listed ids ws item run r \<and> open_attempt (q_state r)) (acq_rows (settle_abandoned ids ws item run now db)) = [] \<and>
   (\<Sum>r\<leftarrow>acq_rows (settle_abandoned ids ws item run now db). row_amount k r) =
   (\<Sum>r\<leftarrow>filter (\<lambda>r. \<not> (listed ids ws item run r \<and> q_state r = Reserved)) (acq_rows db). row_amount k r) \<and>
   map billed (filter (\<lambda>r. q_state r \<noteq> Released) (acq_rows (settle_abandoned ids ws item run now db))) =
   map billed (filter (\<lambda>r. q_state r \<noteq> Released \<and> \<not> (listed ids ws item run r \<and> q_state r = Reserved)) (acq_rows db))"
proof -
  have rows: "acq_rows (settle_abandoned ids ws item run now db) = map (abandon_row ids ws item run now) (acq_rows db)"
    by (cases "ids = []")
      (simp add: settle_abandoned_def flip: abandon_loop_map, simp add: settle_abandoned_def abandon_loop_map)
  have "filter (\<lambda>r. listed ids ws item run r \<and> open_attempt (q_state r)) (map (abandon_row ids ws item run now) rs) = []" for rs
    by (induction rs) (simp_all add: abandon_row_facts open_attempt_def)
  moreover have "(\<Sum>r\<leftarrow>map (abandon_row ids ws item run now) rs. row_amount k r) =
      (\<Sum>r\<leftarrow>filter (\<lambda>r. \<not> (listed ids ws item run r \<and> q_state r = Reserved)) rs. row_amount k r)" for rs
    by (induction rs) (simp_all add: abandon_row_facts)
  moreover have "map billed (filter (\<lambda>r. q_state r \<noteq> Released) (map (abandon_row ids ws item run now) rs)) =
      map billed (filter (\<lambda>r. q_state r \<noteq> Released \<and> \<not> (listed ids ws item run r \<and> q_state r = Reserved)) rs)" for rs
    by (induction rs) (simp_all add: abandon_row_facts)
  ultimately show ?thesis unfolding rows by blast
qed

end
