(* ===== verification/ListingGate.thy ===== *)
theory ListingGate
  imports Sha256 "HOL-Library.List_Lexorder" "HOL-Library.Char_ord"
begin

text \<open>
  The release gates on a listing (\<open>src/src/classification/listing-evidence-gate.ts\<close>): the
  interpretation of the persisted evidence record against the current hashes, and of the item
  checklist. Both fail closed.
\<close>

section \<open>The evidence record\<close>

datatype evidence_status = Ev_passed | Ev_needs_review | Ev_blocked | Ev_unavailable | Ev_stale

datatype claim_field = Claim_title | Claim_description | Claim_variant

datatype claim_verdict = Supported | Contradicted | Insufficient | Verdict_unavailable | Verdict_stale

datatype claim_producer = By_rule | By_model | By_operator | Producer_unavailable | Producer_stale

record evidence_claim =
  ec_id :: string
  ec_field :: claim_field
  ec_span :: "int \<times> int"
  ec_text :: string
  ec_hash :: string
  ec_material :: bool
  ec_verdict :: claim_verdict
  ec_producer :: claim_producer
  ec_considered :: "string list"
  ec_model_call :: "string option"
  ec_reason :: "string option"

definition claim_ok :: "evidence_claim \<Rightarrow> bool" where
  "claim_ok c \<longleftrightarrow>
     1 \<le> length (ec_id c) \<and> length (ec_id c) \<le> 32 \<and> 0 \<le> fst (ec_span c) \<and> 0 \<le> snd (ec_span c) \<and>
     1 \<le> length (ec_text c) \<and> length (ec_text c) \<le> 2000 \<and> is_sha256_hex (ec_hash c) \<and>
     pred_option (\<lambda>r. length r \<le> 500) (ec_reason c)"

record evidence_record =
  er_version :: int
  er_listing_hash :: string
  er_evidence_hash :: string
  er_required :: "string list"
  er_rules :: string
  er_policy :: string
  er_authority :: "string option"
  er_claims :: "evidence_claim list"
  er_overflow :: bool
  er_model_calls :: "string list"
  er_status :: evidence_status
  er_findings :: "string list"
  er_evaluated_at :: string

text \<open>
  \<open>curationData.listingEvidenceValidation\<close>: undefined or null, something without a record
  version, an object whose fields have other types, or the typed fields.
\<close>

datatype raw_evidence = No_record | Not_a_record | Ill_typed | Record evidence_record

definition parse_evidence :: "evidence_record \<Rightarrow> evidence_record option" where
  "parse_evidence r =
     (if er_version r \<ge> 1 \<and> is_sha256_hex (er_listing_hash r) \<and> is_sha256_hex (er_evidence_hash r) \<and>
         list_all (\<lambda>f. 1 \<le> length f \<and> length f \<le> 64) (er_required r) \<and> er_rules r \<noteq> [] \<and>
         pred_option (\<lambda>a. 1 \<le> length a \<and> length a \<le> 500) (er_authority r) \<and> list_all claim_ok (er_claims r) \<and>
         list_all (\<lambda>f. length f \<le> 500) (er_findings r) \<and> er_evaluated_at r \<noteq> []
      then Some r else None)"

record gate_input =
  gi_raw :: raw_evidence
  gi_listing_hash :: string
  gi_evidence_hash :: string
  gi_policy :: string
  gi_required :: "string list option"
  gi_authority :: "string option"

datatype gate_code = Evidence_malformed | Evidence_stale | Evidence_unresolved

datatype gate_result = Gate_passed | Gate_refused gate_code string

definition malformed_reason :: string where
  "malformed_reason = ''The persisted listing-evidence record is malformed; re-run the listing check before release.''"

definition first_or :: "string \<Rightarrow> string list \<Rightarrow> string" where
  "first_or d xs = (case xs of [] \<Rightarrow> d | x # _ \<Rightarrow> x)"

definition sorted_text :: "string list \<Rightarrow> string" where
  "sorted_text xs = join [CHR 0x00] (sort xs)"

fun status_verdict :: "evidence_record \<Rightarrow> gate_result" where
  "status_verdict r =
     (case er_status r of
        Ev_passed \<Rightarrow> Gate_passed
      | Ev_blocked \<Rightarrow> Gate_refused Evidence_unresolved
          (first_or ''An included listing claim is unsupported or contradicted.'' (er_findings r))
      | Ev_needs_review \<Rightarrow> Gate_refused Evidence_unresolved
          (first_or ''Listing claims need review before release.'' (er_findings r))
      | Ev_unavailable \<Rightarrow> Gate_refused Evidence_unresolved
          ''Listing-evidence evaluation is unavailable (failure, overflow, or oversized claim); resolve before release.''
      | Ev_stale \<Rightarrow> Gate_refused Evidence_stale
          ''Listing-evidence evaluation is stale; re-run the listing check before release.'')"

definition currentness_verdict :: "string \<Rightarrow> gate_input \<Rightarrow> evidence_record \<Rightarrow> gate_result" where
  "currentness_verdict rules_version i r =
     (if er_rules r \<noteq> rules_version then Gate_refused Evidence_stale
        ''Listing-evidence rules changed since evaluation; re-run the listing check before release.''
      else if er_listing_hash r \<noteq> gi_listing_hash i then Gate_refused Evidence_stale
        ''The listing changed since evidence evaluation; re-run the listing check before release.''
      else if er_evidence_hash r \<noteq> gi_evidence_hash i then Gate_refused Evidence_stale
        ''The evidence bundle changed since evaluation; re-run the listing check before release.''
      else if gi_policy i \<noteq> [] \<and> er_policy r \<noteq> gi_policy i then Gate_refused Evidence_stale
        ''Model policy changed (or became unavailable) since evaluation; re-run the listing check before release.''
      else if (case gi_required i of None \<Rightarrow> False | Some live \<Rightarrow> sorted_text (er_required r) \<noteq> sorted_text live)
        then Gate_refused Evidence_stale
        ''Required listing fields changed since evaluation; re-run the listing check before release.''
      else if (case gi_authority i of None \<Rightarrow> False | Some a \<Rightarrow> a = [] \<or> er_authority r \<noteq> Some a)
        then Gate_refused Evidence_stale
        ''The accepted evidence authority changed or is unavailable; re-run the listing check before release.''
      else status_verdict r)"

definition evaluate_evidence_gate :: "string \<Rightarrow> gate_input \<Rightarrow> gate_result" where
  "evaluate_evidence_gate rules_version i =
     (case gi_raw i of
        No_record \<Rightarrow> Gate_passed
      | Not_a_record \<Rightarrow> Gate_refused Evidence_malformed malformed_reason
      | Ill_typed \<Rightarrow> Gate_refused Evidence_malformed malformed_reason
      | Record raw \<Rightarrow>
          (case parse_evidence raw of
             None \<Rightarrow> Gate_refused Evidence_malformed malformed_reason
           | Some r \<Rightarrow> currentness_verdict rules_version i r))"

definition currentness_matches :: "evidence_record \<Rightarrow> string \<Rightarrow> string \<Rightarrow> bool" where
  "currentness_matches r listing evidence \<longleftrightarrow> er_listing_hash r = listing \<and> er_evidence_hash r = evidence"

section \<open>The checklist\<close>

datatype checklist_status = Cl_ready | Cl_needs_attention | Cl_unavailable | Cl_stale

datatype requirement_state =
    Satisfied | Missing | Not_applicable_req | Excepted | Conflicted | Unavailable_req | Stale_req

fun requirement_state_name :: "requirement_state \<Rightarrow> string" where
  "requirement_state_name Satisfied = ''satisfied''"
| "requirement_state_name Missing = ''missing''"
| "requirement_state_name Not_applicable_req = ''not_applicable''"
| "requirement_state_name Excepted = ''excepted''"
| "requirement_state_name Conflicted = ''conflicted''"
| "requirement_state_name Unavailable_req = ''unavailable''"
| "requirement_state_name Stale_req = ''stale''"

record requirement =
  rq_id :: string
  rq_field :: string
  rq_label :: string
  rq_required :: bool
  rq_exception_eligible :: bool
  rq_state :: requirement_state
  rq_facts :: "string list"
  rq_dependency :: "string option"
  rq_exception :: "string option"
  rq_reason :: "string option"

record checklist =
  cl_status :: checklist_status
  cl_input_hash :: "string option"
  cl_evidence_hash :: "string option"
  cl_standard_hash :: "string option"
  cl_classification_hash :: "string option"
  cl_listing_hash :: "string option"
  cl_requirements :: "requirement list"
  cl_reasons :: "string list"

definition truthy :: "string option \<Rightarrow> bool" where
  "truthy s \<longleftrightarrow> (case s of None \<Rightarrow> False | Some t \<Rightarrow> t \<noteq> [])"

definition unmet :: "requirement \<Rightarrow> bool" where
  "unmet r \<longleftrightarrow> rq_required r \<and> rq_state r \<notin> {Satisfied, Not_applicable_req, Excepted}"

datatype completeness_code = Completeness_unavailable | Completeness_stale | Completeness_unresolved

datatype completeness_result = Complete | Incomplete completeness_code string

definition evaluate_completeness_gate :: "checklist option \<Rightarrow> completeness_result" where
  "evaluate_completeness_gate ev =
     (case ev of
        None \<Rightarrow> Incomplete Completeness_unavailable ''Current listing completeness could not be evaluated.''
      | Some e \<Rightarrow>
          if cl_status e = Cl_unavailable
          then Incomplete Completeness_unavailable ''Current listing completeness could not be evaluated.''
          else if cl_status e = Cl_stale \<or> \<not> truthy (cl_input_hash e) \<or> \<not> truthy (cl_evidence_hash e) \<or>
              \<not> truthy (cl_standard_hash e) \<or> \<not> truthy (cl_classification_hash e) \<or> \<not> truthy (cl_listing_hash e)
          then Incomplete Completeness_stale ''Listing completeness is stale or lacks required currentness hashes.''
          else if cl_status e \<noteq> Cl_ready \<or> list_ex unmet (cl_requirements e)
          then Incomplete Completeness_unresolved
                 (first_or ''Required listing requirements remain unresolved.'' (cl_reasons e))
          else Complete)"

section \<open>Properties\<close>



end
