(* ===== verification/CircuitBreaker.thy ===== *)
theory CircuitBreaker
  imports Prelude
begin

text \<open>
  The circuit breaker in front of the vision model (\<open>src/src/onboarding/vlm-circuit-breaker.ts\<close>).
  The module-level registry is a map passed through every operation, \<open>Date.now()\<close> is an argument,
  and so is the environment variable that holds the cooldown.
\<close>

section \<open>State\<close>

datatype breaker_state = Closed_circuit | Open_circuit | Half_open

record breaker_entry =
  be_state :: breaker_state
  be_failures :: nat
  be_opened :: "int option"
  be_probe :: "int option"

record circuit_decision =
  cd_allowed :: bool
  cd_state :: breaker_state

type_synonym breakers = "string \<Rightarrow> breaker_entry option"

definition trip_threshold :: nat where "trip_threshold = 3"

definition probe_lease_ms :: int where "probe_lease_ms = 180000"

definition default_cooldown_ms :: int where "default_cooldown_ms = 60000"

text \<open>
  \<open>parseInt(raw, 10)\<close>: leading white space and an optional sign, then the longest run of
  digits; \<open>NaN\<close> is \<^term>\<open>None\<close>.
\<close>

definition parse_int10 :: "string \<Rightarrow> int option" where
  "parse_int10 raw =
     (let s = dropWhile is_space raw;
          neg = (s \<noteq> [] \<and> hd s = CHR ''-'');
          rest = (if s \<noteq> [] \<and> (hd s = CHR ''-'' \<or> hd s = CHR ''+'') then tl s else s);
          ds = takeWhile is_digit rest
      in if ds = [] then None
         else Some (if neg then - int (digits_value ds) else int (digits_value ds)))"

definition get_cooldown_ms :: "string option \<Rightarrow> int" where
  "get_cooldown_ms env =
     (case env of
        Some raw \<Rightarrow>
          (if raw = [] then default_cooldown_ms
           else case parse_int10 raw of
             Some n \<Rightarrow> if n > 0 then n else default_cooldown_ms
           | None \<Rightarrow> default_cooldown_ms)
      | None \<Rightarrow> default_cooldown_ms)"

definition build_circuit_breaker_key :: "string \<Rightarrow> string \<Rightarrow> string" where
  "build_circuit_breaker_key base_url model = base_url @ ''|'' @ model"

section \<open>Operations\<close>

definition grant_probe ::
    "int \<Rightarrow> string \<Rightarrow> breaker_entry \<Rightarrow> breakers \<Rightarrow> circuit_decision \<times> breakers" where
  "grant_probe now key e bs =
     (if (case be_probe e of None \<Rightarrow> False | Some t \<Rightarrow> now - t < probe_lease_ms)
      then (\<lparr>cd_allowed = False, cd_state = Half_open\<rparr>, bs(key \<mapsto> e))
      else (\<lparr>cd_allowed = True, cd_state = Half_open\<rparr>, bs(key \<mapsto> e\<lparr>be_probe := Some now\<rparr>)))"

definition check_circuit ::
    "string option \<Rightarrow> int \<Rightarrow> string \<Rightarrow> breakers \<Rightarrow> circuit_decision \<times> breakers" where
  "check_circuit env now key bs =
     (case bs key of
        None \<Rightarrow> (\<lparr>cd_allowed = True, cd_state = Closed_circuit\<rparr>, bs)
      | Some e \<Rightarrow>
          (case be_state e of
             Open_circuit \<Rightarrow>
               (if (case be_opened e of None \<Rightarrow> False | Some t \<Rightarrow> now - t \<ge> get_cooldown_ms env)
                then grant_probe now key (e\<lparr>be_state := Half_open, be_probe := None\<rparr>) bs
                else (\<lparr>cd_allowed = False, cd_state = Open_circuit\<rparr>, bs))
           | Half_open \<Rightarrow> grant_probe now key e bs
           | Closed_circuit \<Rightarrow> (\<lparr>cd_allowed = True, cd_state = Closed_circuit\<rparr>, bs)))"

definition record_success :: "string \<Rightarrow> breakers \<Rightarrow> breakers" where
  "record_success key bs =
     (case bs key of
        None \<Rightarrow> bs
      | Some e \<Rightarrow> bs(key \<mapsto> e\<lparr>be_state := Closed_circuit, be_failures := 0, be_opened := None,
                               be_probe := None\<rparr>))"

definition fresh_entry :: breaker_entry where
  "fresh_entry = \<lparr>be_state = Closed_circuit, be_failures = 0, be_opened = None, be_probe = None\<rparr>"

definition failed_entry :: "int \<Rightarrow> breaker_entry \<Rightarrow> breaker_entry" where
  "failed_entry now e0 =
     (let e = e0\<lparr>be_probe := None\<rparr>;
          n = Suc (be_failures e)
      in if be_state e = Half_open
         then e\<lparr>be_state := Open_circuit, be_opened := Some now, be_failures := n\<rparr>
         else if be_state e = Closed_circuit \<and> n \<ge> trip_threshold
         then e\<lparr>be_failures := n, be_state := Open_circuit, be_opened := Some now\<rparr>
         else e\<lparr>be_failures := n\<rparr>)"

definition record_transport_failure :: "int \<Rightarrow> string \<Rightarrow> breakers \<Rightarrow> breakers" where
  "record_transport_failure now key bs =
     bs(key \<mapsto> failed_entry now (case bs key of None \<Rightarrow> fresh_entry | Some e \<Rightarrow> e))"

record route_stats =
  rs_state :: breaker_state
  rs_failures :: nat
  rs_opened :: "int option"
  rs_cooldown :: int

definition get_circuit_breaker_stats :: "string option \<Rightarrow> breakers \<Rightarrow> string \<Rightarrow> route_stats option" where
  "get_circuit_breaker_stats env bs key =
     map_option (\<lambda>e. \<lparr>rs_state = be_state e, rs_failures = be_failures e, rs_opened = be_opened e,
                       rs_cooldown = get_cooldown_ms env\<rparr>) (bs key)"

definition reset_circuit_breakers :: "breakers \<Rightarrow> breakers" where
  "reset_circuit_breakers bs = Map.empty"

section \<open>Histories\<close>

text \<open>What callers do over time, newest event first; a check carries the environment it read.\<close>

datatype breaker_event =
    Checked "string option" int string
  | Succeeded string
  | Transport_failed int string
  | Reset_all

fun breaker_step :: "breaker_event \<Rightarrow> breakers \<Rightarrow> breakers" where
  "breaker_step (Checked env now key) bs = snd (check_circuit env now key bs)"
| "breaker_step (Succeeded key) bs = record_success key bs"
| "breaker_step (Transport_failed now key) bs = record_transport_failure now key bs"
| "breaker_step Reset_all bs = reset_circuit_breakers bs"

primrec breakers_after :: "breaker_event list \<Rightarrow> breakers" where
  "breakers_after [] = Map.empty"
| "breakers_after (ev # h) = breaker_step ev (breakers_after h)"

text \<open>Specification: transport failures of a route since its last success.\<close>

fun streak :: "string \<Rightarrow> breaker_event list \<Rightarrow> nat" where
  "streak key [] = 0"
| "streak key (Checked _ _ _ # h) = streak key h"
| "streak key (Succeeded k # h) = (if k = key then 0 else streak key h)"
| "streak key (Transport_failed _ k # h) = (if k = key then Suc (streak key h) else streak key h)"
| "streak key (Reset_all # h) = 0"

text \<open>When the route was last opened or last had a failure while half-open, and its last probe.\<close>

fun entry_ok :: "nat \<Rightarrow> breaker_entry option \<Rightarrow> bool" where
  "entry_ok n None \<longleftrightarrow> n = 0"
| "entry_ok n (Some e) \<longleftrightarrow>
     be_failures e = n \<and> (be_state e = Closed_circuit \<longleftrightarrow> n < trip_threshold) \<and>
     (be_opened e = None \<longleftrightarrow> be_state e = Closed_circuit) \<and>
     (be_state e \<noteq> Half_open \<longrightarrow> be_probe e = None) \<and>
     (be_state e = Half_open \<longrightarrow> be_probe e \<noteq> None)"

lemma entry_ok_failed:
  "entry_ok n (Some e) \<Longrightarrow> entry_ok (Suc n) (Some (failed_entry now e))"
  by (cases "be_state e") (auto simp: failed_entry_def Let_def trip_threshold_def)

lemma entry_ok_fresh: "entry_ok (Suc 0) (Some (failed_entry now fresh_entry))"
  by (simp add: failed_entry_def fresh_entry_def trip_threshold_def Let_def)

lemma entry_ok_check:
  "entry_ok n (bs key) \<Longrightarrow> entry_ok n (snd (check_circuit env now k bs) key)"
  by (cases "bs key")
    (auto simp: check_circuit_def grant_probe_def split: option.splits breaker_state.splits)

lemma breakers_ok: "entry_ok (streak key h) (breakers_after h key)"
proof (induction h)
  case (Cons ev h)
  show ?case
  proof (cases ev)
    case (Transport_failed now k)
    then show ?thesis
      using Cons by (cases "breakers_after h key")
        (auto simp: record_transport_failure_def entry_ok_failed entry_ok_fresh
          simp del: entry_ok.simps(2))
  next
    case (Checked env now k)
    then show ?thesis
      using Cons by (simp add: entry_ok_check)
  next
    case (Succeeded k)
    then show ?thesis
      using Cons by (auto simp: record_success_def trip_threshold_def split: option.splits)
  qed (simp add: reset_circuit_breakers_def)
qed simp

text \<open>The clock of a history never runs backwards.\<close>

fun event_time :: "breaker_event \<Rightarrow> int option" where
  "event_time (Checked _ t _) = Some t"
| "event_time (Transport_failed t _) = Some t"
| "event_time _ = None"

definition clocked :: "breaker_event list \<Rightarrow> int \<Rightarrow> bool" where
  "clocked h now \<longleftrightarrow> (\<forall>ev \<in> set h. \<forall>t. event_time ev = Some t \<longrightarrow> t \<le> now)"

lemma clocked_Cons [simp]:
  "clocked (ev # h) now \<longleftrightarrow> (\<forall>t. event_time ev = Some t \<longrightarrow> t \<le> now) \<and> clocked h now"
  by (auto simp: clocked_def)

lemma stamps_before_now:
  assumes "clocked h now" and "breakers_after h key = Some e"
  shows "(\<forall>t. be_opened e = Some t \<longrightarrow> t \<le> now) \<and> (\<forall>t. be_probe e = Some t \<longrightarrow> t \<le> now)"
  using assms
proof (induction h arbitrary: e)
  case (Cons ev h)
  then show ?case
    by (cases ev; cases "breakers_after h key")
      (auto simp: check_circuit_def grant_probe_def record_success_def record_transport_failure_def
        failed_entry_def fresh_entry_def reset_circuit_breakers_def Let_def
        split: option.splits breaker_state.splits if_splits)
qed simp

section \<open>Properties\<close>

text \<open>
  A route is closed exactly while it has fewer than three consecutive transport failures:
  whatever the interleaving of checks, failures, successes and resets over all routes, the entry
  of a route counts its own failures since its own last success, a check of a closed route is
  always allowed, and once the count reaches three no check is answered as closed any more.
\<close>

theorem breaker_counts_own_streak:
  "(case breakers_after h key of
      None \<Rightarrow> streak key h = 0
    | Some e \<Rightarrow> be_failures e = streak key h \<and> (be_state e = Closed_circuit \<longleftrightarrow> streak key h < 3)) \<and>
   (cd_state (fst (check_circuit env now key (breakers_after h))) = Closed_circuit \<longleftrightarrow> streak key h < 3)"
  using breakers_ok [of key h]
  by (cases "breakers_after h key"; cases "be_state (the (breakers_after h key))")
    (auto simp: check_circuit_def grant_probe_def trip_threshold_def split: option.splits)

text \<open>Events that record no outcome of the route.\<close>

definition quiet :: "string \<Rightarrow> breaker_event \<Rightarrow> bool" where
  "quiet key ev \<longleftrightarrow> (case ev of Checked _ _ _ \<Rightarrow> True | Succeeded k \<Rightarrow> k \<noteq> key
                    | Transport_failed _ k \<Rightarrow> k \<noteq> key | Reset_all \<Rightarrow> False)"

lemma probe_held:
  assumes "list_all (quiet key) mid" and "clocked mid t2" and "t2 < t1 + probe_lease_ms"
    and "\<exists>e. breakers_after h key = Some e \<and> be_state e = Half_open \<and> be_probe e = Some t1"
  shows "\<exists>e. breakers_after (mid @ h) key = Some e \<and> be_state e = Half_open \<and> be_probe e = Some t1"
  using assms
proof (induction mid)
  case (Cons ev mid)
  then obtain e where "breakers_after (mid @ h) key = Some e" "be_state e = Half_open" "be_probe e = Some t1"
    by auto
  with Cons.prems show ?case
    by (cases ev)
      (auto simp: quiet_def check_circuit_def grant_probe_def record_success_def
        record_transport_failure_def split: option.splits breaker_state.splits)
qed simp

text \<open>
  C39. One probe at a time: if a check of a tripped route was allowed at some time and neither a
  success nor a failure of that route was recorded since, every further check of it within the
  lease of three minutes is refused, whatever was checked and recorded in between on any route.
\<close>

theorem single_probe_per_lease:
  assumes "fst (check_circuit env t1 key (breakers_after h)) = \<lparr>cd_allowed = True, cd_state = Half_open\<rparr>"
    and "list_all (quiet key) mid" and "clocked mid t2" and "t2 < t1 + probe_lease_ms"
  shows "cd_allowed (fst (check_circuit env' t2 key
           (breakers_after (mid @ Checked env t1 key # h)))) = False"
proof -
  have "\<exists>e. breakers_after (Checked env t1 key # h) key = Some e \<and> be_state e = Half_open \<and> be_probe e = Some t1"
    using assms(1) by (auto simp: check_circuit_def grant_probe_def
        split: option.splits breaker_state.splits if_splits)
  from probe_held [OF assms(2-4) this]
  obtain e where "breakers_after (mid @ Checked env t1 key # h) key = Some e" "be_state e = Half_open"
      "be_probe e = Some t1"
    by blast
  then show ?thesis
    using assms(4) by (simp add: check_circuit_def grant_probe_def)
qed

definition trip_history :: "breaker_event list" where
  "trip_history = [Transport_failed 2 ''r'', Transport_failed 1 ''r'', Transport_failed 0 ''r'']"

theorem single_probe_per_lease_witness:
  "cd_allowed (fst (check_circuit None 70000 ''r''
     (breakers_after ([Succeeded ''s''] @ Checked None 60002 ''r'' # trip_history)))) = False"
  by (rule single_probe_per_lease)
    (simp_all add: trip_history_def check_circuit_def grant_probe_def record_transport_failure_def
      failed_entry_def fresh_entry_def trip_threshold_def get_cooldown_ms_def default_cooldown_ms_def
      quiet_def clocked_def probe_lease_ms_def Let_def)

text \<open>
  C40. The breaker cannot wedge: whatever happened so far, a check made at least a cooldown and at
  least a lease after the present is allowed, even if the process that held the probe never
  recorded an outcome.
\<close>

theorem breaker_never_wedges:
  assumes "clocked h now" and "later \<ge> now + max (get_cooldown_ms env) probe_lease_ms"
  shows "cd_allowed (fst (check_circuit env later key (breakers_after h)))"
proof (cases "breakers_after h key")
  case (Some e)
  then show ?thesis
    using breakers_ok [of key h] stamps_before_now [OF assms(1) Some] assms(2)
    by (cases "be_state e") (auto simp: check_circuit_def grant_probe_def)
qed (simp add: check_circuit_def)

theorem breaker_never_wedges_witness:
  "cd_allowed (fst (check_circuit None 200000 ''r'' (breakers_after trip_history)))"
  by (rule breaker_never_wedges [where now = 2])
    (simp_all add: trip_history_def clocked_def get_cooldown_ms_def default_cooldown_ms_def probe_lease_ms_def)

end
