(* ===== verification/Ssrf.thy ===== *)
theory Ssrf
  imports Prelude "HOL-Library.Word"
begin

text \<open>
  The address classifier and destination checks against server-side request forgery
  (\<open>src/src/shared/ssrf.ts\<close>). 32-bit addresses are \<^typ>\<open>32 word\<close>, so that \<open><<\<close>, \<open>|\<close>, \<open>&\<close> and
  \<open>>>> 0\<close> are the word operations. The URL parser and the DNS resolver are arguments.
\<close>

unbundle bit_operations_syntax

type_synonym ipv4 = "32 word"

section \<open>Parsing IPv4 text\<close>

definition is_hex_char :: "char \<Rightarrow> bool" where
  "is_hex_char c \<longleftrightarrow> is_digit c \<or> (97 \<le> code c \<and> code c \<le> 102) \<or> (65 \<le> code c \<and> code c \<le> 70)"

definition is_lower_hex_char :: "char \<Rightarrow> bool" where
  "is_lower_hex_char c \<longleftrightarrow> is_digit c \<or> (97 \<le> code c \<and> code c \<le> 102)"

definition is_octal_char :: "char \<Rightarrow> bool" where
  "is_octal_char c \<longleftrightarrow> 48 \<le> code c \<and> code c \<le> 55"

definition hex_digit_val :: "char \<Rightarrow> nat" where
  "hex_digit_val c =
     (if is_digit c then digit_val c else if code c \<ge> 97 then code c - 87 else code c - 55)"

definition base_value :: "nat \<Rightarrow> string \<Rightarrow> nat" where
  "base_value b s = foldl (\<lambda>n c. b * n + hex_digit_val c) 0 s"

definition matches_hex :: "string \<Rightarrow> bool" where
  "matches_hex s \<longleftrightarrow>
     (case s of z # x # r \<Rightarrow> z = CHR ''0'' \<and> (x = CHR ''x'' \<or> x = CHR ''X'') \<and> r \<noteq> [] \<and> list_all is_hex_char r
      | _ \<Rightarrow> False)"

definition matches_octal :: "string \<Rightarrow> bool" where
  "matches_octal s \<longleftrightarrow>
     (case s of z # r \<Rightarrow> z = CHR ''0'' \<and> r \<noteq> [] \<and> list_all is_octal_char r | [] \<Rightarrow> False)"

definition matches_decimal :: "string \<Rightarrow> bool" where
  "matches_decimal s \<longleftrightarrow>
     (case s of z # r \<Rightarrow> (z = CHR ''0'' \<and> r = []) \<or> (z \<noteq> CHR ''0'' \<and> is_digit z \<and> list_all is_digit r)
      | [] \<Rightarrow> False)"

definition max_safe_integer :: nat where "max_safe_integer = 9007199254740991"

definition parse_ipv4_part :: "string \<Rightarrow> nat option" where
  "parse_ipv4_part part =
     (if part = [] then None
      else let val = (if matches_hex part then Some (base_value 16 (drop 2 part))
                      else if matches_octal part then Some (base_value 8 part)
                      else if matches_decimal part then Some (base_value 10 part)
                      else None)
      in case val of None \<Rightarrow> None | Some n \<Rightarrow> if n > max_safe_integer then None else Some n)"

fun ipv4_of_nums :: "nat list \<Rightarrow> ipv4 option" where
  "ipv4_of_nums [a] = (if a \<le> 0xFFFFFFFF then Some (of_nat a) else None)"
| "ipv4_of_nums [a, b] =
     (if a > 255 \<or> b > 0xFFFFFF then None else Some (push_bit 24 (of_nat a) OR of_nat b))"
| "ipv4_of_nums [a, b, c] =
     (if a > 255 \<or> b > 255 \<or> c > 0xFFFF then None
      else Some (push_bit 24 (of_nat a) OR push_bit 16 (of_nat b) OR of_nat c))"
| "ipv4_of_nums [a, b, c, d] =
     (if a > 255 \<or> b > 255 \<or> c > 255 \<or> d > 255 then None
      else Some (push_bit 24 (of_nat a) OR push_bit 16 (of_nat b) OR push_bit 8 (of_nat c) OR of_nat d))"
| "ipv4_of_nums _ = None"

definition ipv4_to_number :: "string \<Rightarrow> ipv4 option" where
  "ipv4_to_number ip =
     (let parts = split_on CHR ''.'' ip
      in if length parts < 1 \<or> length parts > 4 then None
         else Option.bind (those (map parse_ipv4_part parts)) ipv4_of_nums)"

section \<open>The private ranges\<close>

datatype ip_kind = Private_ip | Link_local_ip | Public_ip | Unknown_ip

definition private_ipv4 :: "(string \<times> nat) list" where
  "private_ipv4 =
     [(''10.0.0.0'', 8), (''172.16.0.0'', 12), (''192.168.0.0'', 16), (''127.0.0.0'', 8),
      (''169.254.0.0'', 16), (''0.0.0.0'', 8), (''100.64.0.0'', 10)]"

record ip_range =
  masked_base :: ipv4
  range_mask :: ipv4
  range_kind :: ip_kind

definition precompile_range :: "string \<times> nat \<Rightarrow> ip_range" where
  "precompile_range r =
     (let base = the (ipv4_to_number (fst r));
          mask = (if snd r > 0 then push_bit (32 - snd r) (- 1) else 0)
      in \<lparr>masked_base = base AND mask, range_mask = mask,
          range_kind = (if starts_with (fst r) ''169.254'' \<or> fst r = ''0.0.0.0''
                        then Link_local_ip else Private_ip)\<rparr>)"

definition precompiled_private_ranges :: "ip_range list" where
  "precompiled_private_ranges = map precompile_range private_ipv4"

definition classify_ipv4_number :: "ipv4 \<Rightarrow> ip_kind" where
  "classify_ipv4_number num =
     (case find (\<lambda>r. num AND range_mask r = masked_base r) precompiled_private_ranges of
        Some r \<Rightarrow> range_kind r
      | None \<Rightarrow> Public_ip)"

definition classify_ipv4 :: "string \<Rightarrow> ip_kind" where
  "classify_ipv4 address =
     (case ipv4_to_number address of None \<Rightarrow> Unknown_ip | Some num \<Rightarrow> classify_ipv4_number num)"

section \<open>Parsing IPv6 text\<close>

text \<open>\<open>s.split('::')\<close>, and the parts of \<open>s\<close> before and after its last \<open>:\<close>.\<close>

fun split_double_colon :: "string \<Rightarrow> string list" where
  "split_double_colon [] = [[]]"
| "split_double_colon [c] = [[c]]"
| "split_double_colon (c # d # s) =
     (if c = CHR '':'' \<and> d = CHR '':'' then [] # split_double_colon s
      else case split_double_colon (d # s) of [] \<Rightarrow> [[c]] | p # ps \<Rightarrow> (c # p) # ps)"

definition after_last_colon :: "string \<Rightarrow> string" where
  "after_last_colon s = rev (takeWhile (\<lambda>c. c \<noteq> CHR '':'') (rev s))"

definition before_last_colon :: "string \<Rightarrow> string" where
  "before_last_colon s = take (length s - Suc (length (after_last_colon s))) s"

definition hex_word :: "string \<Rightarrow> nat option" where
  "hex_word part =
     (if 1 \<le> length part \<and> length part \<le> 4 \<and> list_all is_lower_hex_char part
      then Some (base_value 16 part) else None)"

definition colon_parts :: "string \<Rightarrow> string list" where
  "colon_parts s = (if s = [] then [] else split_on CHR '':'' s)"

definition ipv6_words :: "string \<Rightarrow> string option \<Rightarrow> nat list option" where
  "ipv6_words s tail =
     (let dc = split_double_colon s
      in if length dc > 2 then None
         else let left = colon_parts (dc ! 0);
                  right = (if length dc = 2 then colon_parts (dc ! 1) else []);
                  expected = (case tail of None \<Rightarrow> 8 | Some _ \<Rightarrow> 6)
         in if length dc = 1 \<and> length left \<noteq> expected then None
            else if length left + length right > expected then None
            else case those (map hex_word left) of
              None \<Rightarrow> None
            | Some ls \<Rightarrow> (case those (map hex_word right) of
                None \<Rightarrow> None
              | Some rs \<Rightarrow>
                  (let words = ls @ replicate (expected - (length left + length right)) 0 @ rs
                   in case tail of
                        None \<Rightarrow> Some words
                      | Some t \<Rightarrow> (case ipv4_to_number t of
                          None \<Rightarrow> None
                        | Some num \<Rightarrow>
                            Some (words @ [unat (drop_bit 16 num AND 0xFFFF), unat (num AND 0xFFFF)])))))"

definition parse_ipv6 :: "string \<Rightarrow> nat list option" where
  "parse_ipv6 address =
     (let l = takeWhile (\<lambda>c. c \<noteq> CHR ''%'') (lower address);
          tail = (if CHR '':'' \<in> set l \<and> CHR ''.'' \<in> set (after_last_colon l)
                  then Some (after_last_colon l) else None);
          body = (case tail of None \<Rightarrow> l | Some _ \<Rightarrow> before_last_colon l)
      in case ipv6_words body tail of
           None \<Rightarrow> None
         | Some words \<Rightarrow> if length words \<noteq> 8 then None else Some words)"

definition quad_text :: "nat \<Rightarrow> nat \<Rightarrow> nat \<Rightarrow> nat \<Rightarrow> string" where
  "quad_text a b c d = join ''.'' [show_nat a, show_nat b, show_nat c, show_nat d]"

definition classify_ipv6_words :: "nat list \<Rightarrow> ip_kind" where
  "classify_ipv6_words w =
     (if list_all (\<lambda>x. x = 0) w then Link_local_ip
      else if list_all (\<lambda>x. x = 0) (take 7 w) \<and> w ! 7 = 1 then Link_local_ip
      else if w ! 0 AND 0xFFC0 = 0xFE80 then Private_ip
      else if w ! 0 AND 0xFE00 = 0xFC00 then Private_ip
      else if w ! 0 AND 0xFFC0 = 0xFEC0 then Private_ip
      else if w ! 0 = 0 \<and> w ! 1 = 0 \<and> w ! 2 = 0 \<and> w ! 3 = 0 \<and> w ! 4 = 0 \<and> (w ! 5 = 0xFFFF \<or> w ! 5 = 0)
      then classify_ipv4
             (quad_text (drop_bit 8 (w ! 6) AND 0xFF) (w ! 6 AND 0xFF)
                        (drop_bit 8 (w ! 7) AND 0xFF) (w ! 7 AND 0xFF))
      else Public_ip)"

definition classify_ip :: "string \<Rightarrow> ip_kind" where
  "classify_ip address =
     (if CHR '':'' \<in> set address
      then (case parse_ipv6 address of None \<Rightarrow> Unknown_ip | Some w \<Rightarrow> classify_ipv6_words w)
      else classify_ipv4 address)"

definition is_private_or_link_local :: "string \<Rightarrow> bool" where
  "is_private_or_link_local address \<longleftrightarrow> classify_ip address \<in> {Private_ip, Link_local_ip}"

section \<open>Host and destination checks\<close>

record url_parts =
  up_protocol :: string
  up_username :: string
  up_password :: string
  up_port :: string
  up_hostname :: string

type_synonym dns_lookup = "string \<Rightarrow> (string, string list) result"

text \<open>\<open>replace(/^\[|\]$/g, '')\<close> and \<open>replace(/^www\./, '')\<close>.\<close>

definition strip_brackets :: "string \<Rightarrow> string" where
  "strip_brackets s =
     (let t = (if starts_with s ''['' then tl s else s) in if ends_with t '']'' then butlast t else t)"

definition strip_www :: "string \<Rightarrow> string" where
  "strip_www s = (if starts_with s ''www.'' then drop 4 s else s)"

definition is_private_or_link_local_host :: "dns_lookup \<Rightarrow> string \<Rightarrow> bool" where
  "is_private_or_link_local_host lookup hostname =
     (let host = trim (strip_brackets (lower hostname))
      in if host = [] \<or> host = ''localhost'' \<or> ends_with host ''.local'' then True
         else if classify_ip host = Private_ip \<or> classify_ip host = Link_local_ip then True
         else if classify_ip host = Public_ip then False
         else case lookup host of
           Inl _ \<Rightarrow> True
         | Inr addrs \<Rightarrow> if addrs = [] then True else list_ex (\<lambda>a. classify_ip a \<noteq> Public_ip) addrs)"

datatype ssrf_error =
    Invalid_url string
  | Unsupported_protocol string
  | Credentials_not_allowed
  | Non_standard_port string
  | Empty_hostname
  | Literal_private string
  | Allowlist_empty string
  | Not_in_allowlist string
  | Dns_failed string string
  | Dns_empty string
  | Dns_private string string ip_kind

definition normalise_host :: "string \<Rightarrow> string" where
  "normalise_host h = trim (strip_www (lower h))"

definition in_allowlist :: "string \<Rightarrow> string list \<Rightarrow> bool" where
  "in_allowlist host domains \<longleftrightarrow>
     list_ex (\<lambda>d. host = normalise_host d \<or> ends_with host (CHR ''.'' # normalise_host d)) domains"

fun check_addresses :: "string \<Rightarrow> string list \<Rightarrow> (ssrf_error, unit) result" where
  "check_addresses host [] = Inr ()"
| "check_addresses host (a # as) =
     (if classify_ip a \<noteq> Public_ip then Inl (Dns_private host a (classify_ip a))
      else check_addresses host as)"

definition check_resolved :: "dns_lookup \<Rightarrow> string \<Rightarrow> (ssrf_error, unit) result" where
  "check_resolved lookup host =
     (case lookup host of
        Inl e \<Rightarrow> Inl (Dns_failed host e)
      | Inr addrs \<Rightarrow> if addrs = [] then Inl (Dns_empty host) else check_addresses host addrs)"

definition assert_safe_variant_destination ::
    "(string \<Rightarrow> url_parts option) \<Rightarrow> dns_lookup \<Rightarrow> string \<Rightarrow> string list \<Rightarrow> (ssrf_error, unit) result" where
  "assert_safe_variant_destination parse_url lookup url_str domains =
     (case parse_url url_str of
        None \<Rightarrow> Inl (Invalid_url url_str)
      | Some url \<Rightarrow>
          (let host = normalise_host (up_hostname url)
           in if up_protocol url \<noteq> ''http:'' \<and> up_protocol url \<noteq> ''https:''
              then Inl (Unsupported_protocol (up_protocol url))
              else if up_username url \<noteq> [] \<or> up_password url \<noteq> [] then Inl Credentials_not_allowed
              else if up_port url \<noteq> [] \<and> up_port url \<noteq> ''80'' \<and> up_port url \<noteq> ''443''
              then Inl (Non_standard_port (up_port url))
              else if host = [] then Inl Empty_hostname
              else if classify_ip host = Private_ip \<or> classify_ip host = Link_local_ip
              then Inl (Literal_private host)
              else if domains = [] then Inl (Allowlist_empty host)
              else if \<not> in_allowlist host domains then Inl (Not_in_allowlist host)
              else check_resolved lookup host))"

section \<open>Bit arithmetic of the ranges\<close>

lemma and_high_mask: "w AND push_bit k (- 1) = push_bit k (drop_bit k w)" for w :: "'a::len word"
  by (rule bit_word_eqI) (auto simp: bit_simps)

lemma drop_push_drop: "drop_bit k (push_bit k (drop_bit k w)) = drop_bit k w" for w :: "'a::len word"
  by (rule bit_word_eqI) (auto simp: bit_simps dest: bit_imp_le_length)

lemma in_range_iff:
  fixes w base :: "'a::len word"
  assumes "base AND push_bit k (- 1) = base"
  shows "w AND push_bit k (- 1) = base \<longleftrightarrow> unat w div 2 ^ k = unat base div 2 ^ k"
proof -
  have "w AND push_bit k (- 1) = base \<longleftrightarrow> drop_bit k w = drop_bit k base"
    using assms unfolding and_high_mask by (metis drop_push_drop)
  also have "\<dots> \<longleftrightarrow> unat (drop_bit k w) = unat (drop_bit k base)"
    by (simp add: word_unat_eq_iff)
  finally show ?thesis by (simp only: unat_drop_bit_eq) (simp only: drop_bit_eq_div)
qed

lemma push_or_add: "x < 2 ^ k \<Longrightarrow> push_bit k a OR x = a * 2 ^ k + x" for a x :: nat
proof -
  assume "x < 2 ^ k"
  then have x: "x = take_bit k x" by (simp add: take_bit_nat_eq_self)
  have "push_bit k a + take_bit k x = push_bit k a OR take_bit k x"
    by (rule disjunctive_add_eq_or) (rule bit_eqI, auto simp: bit_simps)
  with x show ?thesis by (simp add: push_bit_eq_mult)
qed

lemma ipv4_of_quad:
  assumes "a \<le> 255" "b \<le> 255" "c \<le> 255" "d \<le> 255"
  shows "ipv4_of_nums [a, b, c, d] = Some (of_nat (a * 2 ^ 24 + (b * 2 ^ 16 + (c * 2 ^ 8 + d))))"
proof -
  have "push_bit 24 a OR (push_bit 16 b OR (push_bit 8 c OR d)) = a * 2 ^ 24 + (b * 2 ^ 16 + (c * 2 ^ 8 + d))"
    using assms by (simp add: push_or_add)
  then have "(of_nat (a * 2 ^ 24 + (b * 2 ^ 16 + (c * 2 ^ 8 + d))) :: 32 word) =
      push_bit 24 (of_nat a) OR (push_bit 16 (of_nat b) OR (push_bit 8 (of_nat c) OR of_nat d))"
    by (simp only: of_nat_or_eq of_nat_push_bit flip: \<open>_ = a * 2 ^ 24 + _\<close>)
  with assms show ?thesis by (simp add: or.assoc)
qed

lemma show_nat_head: "n > 0 \<Longrightarrow> hd (show_nat n) \<noteq> CHR ''0'' "
proof (induction n rule: show_nat.induct)
  case (1 n)
  then show ?case
    by (cases "n < 10") (simp_all add: show_nat_small show_nat_step code_def flip: code_inj)
qed

text \<open>The special-purpose blocks the table covers, by the first two octets.\<close>

definition block_kind :: "nat \<Rightarrow> nat \<Rightarrow> ip_kind" where
  "block_kind a b =
     (if a = 10 \<or> a = 172 \<and> 16 \<le> b \<and> b \<le> 31 \<or> a = 192 \<and> b = 168 \<or> a = 127 \<or>
         a = 100 \<and> 64 \<le> b \<and> b \<le> 127 then Private_ip
      else if a = 169 \<and> b = 254 \<or> a = 0 then Link_local_ip
      else Public_ip)"

lemmas ipv4_text_eval =
  ipv4_to_number_def parse_ipv4_part_def matches_hex_def matches_octal_def matches_decimal_def
  base_value_def hex_digit_val_def digit_val_def is_digit_def code_def max_safe_integer_def
  starts_with_def Let_def

lemma base_words:
  "ipv4_to_number ''10.0.0.0'' = Some 0x0A000000"
  "ipv4_to_number ''172.16.0.0'' = Some 0xAC100000"
  "ipv4_to_number ''192.168.0.0'' = Some 0xC0A80000"
  "ipv4_to_number ''127.0.0.0'' = Some 0x7F000000"
  "ipv4_to_number ''169.254.0.0'' = Some 0xA9FE0000"
  "ipv4_to_number ''0.0.0.0'' = Some 0"
  "ipv4_to_number ''100.64.0.0'' = Some 0x64400000"
  by (simp_all add: ipv4_text_eval)

lemma bases_masked:
  "0x0A000000 AND push_bit 24 (- 1) = (0x0A000000 :: ipv4)"
  "0xAC100000 AND push_bit 20 (- 1) = (0xAC100000 :: ipv4)"
  "0xC0A80000 AND push_bit 16 (- 1) = (0xC0A80000 :: ipv4)"
  "0x7F000000 AND push_bit 24 (- 1) = (0x7F000000 :: ipv4)"
  "0xA9FE0000 AND push_bit 16 (- 1) = (0xA9FE0000 :: ipv4)"
  "0 AND push_bit 24 (- 1) = (0 :: ipv4)"
  "0x64400000 AND push_bit 22 (- 1) = (0x64400000 :: ipv4)"
  by (simp_all add: mask_eq_exp_minus_1)

lemma ranges_eval:
  "precompiled_private_ranges =
     [\<lparr>masked_base = 0x0A000000, range_mask = push_bit 24 (- 1), range_kind = Private_ip\<rparr>,
      \<lparr>masked_base = 0xAC100000, range_mask = push_bit 20 (- 1), range_kind = Private_ip\<rparr>,
      \<lparr>masked_base = 0xC0A80000, range_mask = push_bit 16 (- 1), range_kind = Private_ip\<rparr>,
      \<lparr>masked_base = 0x7F000000, range_mask = push_bit 24 (- 1), range_kind = Private_ip\<rparr>,
      \<lparr>masked_base = 0xA9FE0000, range_mask = push_bit 16 (- 1), range_kind = Link_local_ip\<rparr>,
      \<lparr>masked_base = 0, range_mask = push_bit 24 (- 1), range_kind = Link_local_ip\<rparr>,
      \<lparr>masked_base = 0x64400000, range_mask = push_bit 22 (- 1), range_kind = Private_ip\<rparr>]"
  using bases_masked
  by (simp add: precompiled_private_ranges_def private_ipv4_def precompile_range_def base_words
      Let_def starts_with_def)

lemma classify_number_ranges:
  "classify_ipv4_number w =
     (if unat w div 2 ^ 24 = 10 then Private_ip
      else if unat w div 2 ^ 20 = 2753 then Private_ip
      else if unat w div 2 ^ 16 = 49320 then Private_ip
      else if unat w div 2 ^ 24 = 127 then Private_ip
      else if unat w div 2 ^ 16 = 43518 then Link_local_ip
      else if unat w div 2 ^ 24 = 0 then Link_local_ip
      else if unat w div 2 ^ 22 = 401 then Private_ip
      else Public_ip)"
  using bases_masked [THEN in_range_iff, of w]
  by (simp only: classify_ipv4_number_def ranges_eval find.simps ip_range.simps) simp

section \<open>Dotted text\<close>

lemma show_nat_all [simp]: "c \<in> set (show_nat n) \<Longrightarrow> is_digit c"
  using show_nat_digits [of n] by (auto simp: list_all_iff)

lemma show_nat_no [simp]: "\<not> is_digit c \<Longrightarrow> c \<notin> set (show_nat n)"
  by (auto dest: show_nat_all)

lemma not_digits [simp]:
  "\<not> is_digit CHR ''.''" "\<not> is_digit CHR '':''" "\<not> is_digit CHR ''%''" "\<not> is_digit CHR ''x''" "\<not> is_digit CHR ''X''"
  by (simp_all add: is_digit_def code_def)

lemma base_value_digits: "list_all is_digit s \<Longrightarrow> base_value 10 s = digits_value s"
proof -
  have "list_all is_digit s \<Longrightarrow> foldl (\<lambda>n c. 10 * n + hex_digit_val c) k s = foldl (\<lambda>n c. 10 * n + digit_val c) k s" for k
    by (induction s arbitrary: k) (auto simp: hex_digit_val_def)
  then show "list_all is_digit s \<Longrightarrow> base_value 10 s = digits_value s"
    by (simp add: base_value_def digits_value_def)
qed

lemma parse_part_show_nat [simp]:
  assumes "n \<le> max_safe_integer"
  shows "parse_ipv4_part (show_nat n) = Some n"
proof (cases "n = 0")
  case True
  then show ?thesis
    by (simp add: show_nat_small parse_ipv4_part_def matches_hex_def matches_octal_def matches_decimal_def
      base_value_def hex_digit_val_def digit_val_def is_digit_def)
next
  case False
  obtain z r where s: "show_nat n = z # r" by (cases "show_nat n") auto
  have d: "is_digit z" "list_all is_digit r"
    using show_nat_digits [of n] by (simp_all add: s)
  have z: "z \<noteq> CHR ''0''" using show_nat_head [of n] False by (simp add: s)
  have "base_value 10 (z # r) = n"
    using base_value_digits [OF show_nat_digits, of n] digits_value_show_nat [of n] by (simp only: s)
  with assms d z show ?thesis
    by (simp add: s parse_ipv4_part_def matches_hex_def matches_octal_def matches_decimal_def split: list.splits)
qed

lemma split_quad: "split_on CHR ''.'' (quad_text a b c d) = [show_nat a, show_nat b, show_nat c, show_nat d]"
  by (simp add: quad_text_def split_on_append_sep split_on_no_sep)

lemma ipv4_of_quad_text:
  assumes "a \<le> 255" "b \<le> 255" "c \<le> 255" "d \<le> 255"
  shows "ipv4_to_number (quad_text a b c d) = Some (of_nat (a * 2 ^ 24 + (b * 2 ^ 16 + (c * 2 ^ 8 + d))))"
  using assms
  by (simp add: ipv4_to_number_def split_quad max_safe_integer_def ipv4_of_quad del: ipv4_of_nums.simps)

lemma no_colon_quad [simp]: "CHR '':'' \<notin> set (quad_text a b c d)" "CHR ''%'' \<notin> set (quad_text a b c d)"
   "CHR ''.'' \<in> set (quad_text a b c d)"
  by (simp_all add: quad_text_def)

lemma unat_quad:
  assumes "a \<le> 255" "b \<le> 255" "c \<le> 255" "d \<le> 255"
  shows "unat (of_nat (a * 2 ^ 24 + (b * 2 ^ 16 + (c * 2 ^ 8 + d))) :: ipv4) = a * 2 ^ 24 + (b * 2 ^ 16 + (c * 2 ^ 8 + d))"
  using assms by (simp only: unat_of_nat take_bit_eq_mod len_bit0) (simp add: mod_less)

lemma quad_div:
  fixes a b c d :: nat
  assumes "a \<le> 255" "b \<le> 255" "c \<le> 255" "d \<le> 255"
  shows "(a * 2 ^ 24 + (b * 2 ^ 16 + (c * 2 ^ 8 + d))) div 2 ^ 24 = a"
    and "(a * 2 ^ 24 + (b * 2 ^ 16 + (c * 2 ^ 8 + d))) div 2 ^ 16 = a * 256 + b"
    and "(a * 2 ^ 24 + (b * 2 ^ 16 + (c * 2 ^ 8 + d))) div 2 ^ 20 = a * 16 + b div 16"
    and "(a * 2 ^ 24 + (b * 2 ^ 16 + (c * 2 ^ 8 + d))) div 2 ^ 22 = a * 4 + b div 64"
  using assms by simp_all

lemma classify_quad:
  assumes "a \<le> 255" "b \<le> 255" "c \<le> 255" "d \<le> 255"
  shows "classify_ipv4 (quad_text a b c d) = block_kind a b"
proof -
  have split: "a * k + q = a' * k + q' \<longleftrightarrow> a = a' \<and> q = q'" if "q < k" "q' < k" for k q a' q' :: nat
    using that by (metis add.commute div_mult_self1_is_m div_mult_self3 div_less mod_mult_self3 mod_less
        add_cancel_right_left gr_implies_not0 mult.commute)
  have iffs: "a * 16 + b div 16 = 2753 \<longleftrightarrow> a = 172 \<and> 16 \<le> b \<and> b \<le> 31"
    "a * 256 + b = 49320 \<longleftrightarrow> a = 192 \<and> b = 168"
    "a * 256 + b = 43518 \<longleftrightarrow> a = 169 \<and> b = 254"
    "a * 4 + b div 64 = 401 \<longleftrightarrow> a = 100 \<and> 64 \<le> b \<and> b \<le> 127"
    using assms split [of "b div 16" 16 1 172] split [of b 256 168 192] split [of b 256 254 169]
      split [of "b div 64" 4 1 100]
    by auto
  have "classify_ipv4 (quad_text a b c d) =
      classify_ipv4_number (of_nat (a * 2 ^ 24 + (b * 2 ^ 16 + (c * 2 ^ 8 + d))))"
    by (simp only: classify_ipv4_def ipv4_of_quad_text [OF assms] option.case)
  then show ?thesis
    unfolding classify_number_ranges unat_quad [OF assms] quad_div [OF assms] iffs
    by (auto simp: block_kind_def)
qed

section \<open>IPv4 addresses written in IPv6 text\<close>

lemma lower_char_id: "is_digit c \<or> c = CHR ''.'' \<Longrightarrow> lower_char c = c"
  by (auto simp: lower_char_def is_digit_def code_def)

lemma quad_chars: "c \<in> set (quad_text a b c' d) \<Longrightarrow> is_digit c \<or> c = CHR ''.''"
  by (auto simp: quad_text_def)

lemma lower_quad [simp]: "lower (quad_text a b c d) = quad_text a b c d"
  unfolding lower_def by (rule map_idI) (auto dest: quad_chars intro: lower_char_id)

lemma after_colon_append: "CHR '':'' \<notin> set q \<Longrightarrow> after_last_colon (p @ CHR '':'' # q) = q"
  by (simp add: after_last_colon_def) (subst takeWhile_append2; auto)

lemma before_colon_append: "CHR '':'' \<notin> set q \<Longrightarrow> before_last_colon (p @ CHR '':'' # q) = p"
  by (simp add: before_last_colon_def after_colon_append)

lemma parse_ipv6_quad:
  assumes "CHR ''%'' \<notin> set p" and "lower p = p"
  shows "parse_ipv6 (p @ CHR '':'' # quad_text a b c d) =
    (case ipv6_words p (Some (quad_text a b c d)) of None \<Rightarrow> None
     | Some words \<Rightarrow> if length words \<noteq> 8 then None else Some words)"
proof -
  have "lower_char CHR '':'' = CHR '':''"
    by (simp add: lower_char_def code_def)
  then have l: "takeWhile (\<lambda>c. c \<noteq> CHR ''%'') (lower (p @ CHR '':'' # quad_text a b c d)) = p @ CHR '':'' # quad_text a b c d"
    using assms lower_quad [of a b c d] by (auto simp: lower_def takeWhile_eq_all_conv)
  show ?thesis
    unfolding parse_ipv6_def l by (simp add: Let_def after_colon_append before_colon_append)
qed

lemma mapped_words:
  assumes "a \<le> 255" "b \<le> 255" "c \<le> 255" "d \<le> 255"
  shows "parse_ipv6 (''::ffff:'' @ quad_text a b c d) = Some [0, 0, 0, 0, 0, 0xFFFF, a * 256 + b, c * 256 + d]"
proof -
  let ?n = "a * 2 ^ 24 + (b * 2 ^ 16 + (c * 2 ^ 8 + d))"
  have m: "(0xFFFF :: ipv4) = mask 16"
    by (simp add: mask_eq_exp_minus_1)
  have hi: "unat (drop_bit 16 (of_nat ?n :: ipv4) AND 0xFFFF) = a * 256 + b"
    using assms unfolding m take_bit_eq_mask [symmetric] unsigned_take_bit_eq unat_drop_bit_eq unat_quad [OF assms]
    unfolding drop_bit_eq_div quad_div [OF assms] take_bit_eq_mod by simp
  have low: "?n = (c * 256 + d) + 2 ^ 16 * (a * 256 + b)"
    by simp
  have lo: "unat ((of_nat ?n :: ipv4) AND 0xFFFF) = c * 256 + d"
    using assms unfolding m take_bit_eq_mask [symmetric] unsigned_take_bit_eq unat_quad [OF assms]
    unfolding take_bit_eq_mod low mod_mult_self2 by simp
  have five: "replicate 5 x = [x, x, x, x, x]" for x :: nat
    by (simp add: eval_nat_numeral)
  have dc: "split_double_colon ''::ffff'' = [[], ''ffff'']" "colon_parts [] = []" "colon_parts ''ffff'' = [''ffff'']"
      "hex_word ''ffff'' = Some 0xFFFF"
    by (simp_all add: colon_parts_def hex_word_def base_value_def hex_digit_val_def is_lower_hex_char_def
        is_digit_def code_def)
  have "ipv6_words ''::ffff'' (Some (quad_text a b c d)) =
      Some [0, 0, 0, 0, 0, 0xFFFF, a * 256 + b, c * 256 + d]"
  proof -
    obtain w where "ipv4_to_number (quad_text a b c d) = Some w"
        "unat (drop_bit 16 w AND 0xFFFF) = a * 256 + b" "unat (w AND 0xFFFF) = c * 256 + d"
      using ipv4_of_quad_text [OF assms] hi lo by blast
    then show ?thesis
      by (simp add: ipv6_words_def Let_def dc five)
  qed
  then show ?thesis
    using parse_ipv6_quad [of "''::ffff''" a b c d] by (simp add: lower_def lower_char_def code_def)
qed

lemma byte_parts: "(x :: nat) \<le> 255 \<Longrightarrow> y \<le> 255 \<Longrightarrow> drop_bit 8 (x * 256 + y) AND 0xFF = x"
  "x \<le> 255 \<Longrightarrow> y \<le> 255 \<Longrightarrow> (x * 256 + y) AND 0xFF = y"
proof -
  have m: "(0xFF :: nat) = mask 8"
    by (simp add: mask_eq_exp_minus_1)
  show "drop_bit 8 (x * 256 + y) AND 0xFF = x" if "x \<le> 255" "y \<le> 255"
  proof -
    have "take_bit 8 (drop_bit 8 (x * 256 + y)) = x"
      using that by (simp add: drop_bit_eq_div take_bit_eq_mod)
    then show ?thesis unfolding m take_bit_eq_mask .
  qed
  show "(x * 256 + y) AND 0xFF = y" if "x \<le> 255" "y \<le> 255"
  proof -
    have "take_bit 8 (x * 256 + y) = y"
      using that by (simp add: take_bit_eq_mod)
    then show ?thesis unfolding m take_bit_eq_mask .
  qed
qed

lemma classify_mapped:
  assumes "a \<le> 255" "b \<le> 255" "c \<le> 255" "d \<le> 255"
  shows "classify_ip (''::ffff:'' @ quad_text a b c d) = block_kind a b"
proof -
  have "classify_ipv6_words [0, 0, 0, 0, 0, 0xFFFF, a * 256 + b, c * 256 + d] =
      classify_ipv4 (quad_text (drop_bit 8 (a * 256 + b) AND 0xFF) ((a * 256 + b) AND 0xFF)
        (drop_bit 8 (c * 256 + d) AND 0xFF) ((c * 256 + d) AND 0xFF))"
    by (simp add: classify_ipv6_words_def del: drop_bit_eq_div)
  also have "\<dots> = block_kind a b"
    using assms by (simp only: byte_parts classify_quad)
  finally show ?thesis
    by (simp add: classify_ip_def mapped_words [OF assms, simplified])
qed

lemma classify_compatible:
  "classify_ip (''::'' @ quad_text a b c d) = Unknown_ip"
  using parse_ipv6_quad [of "'':''" a b c d]
  by (simp add: classify_ip_def ipv6_words_def colon_parts_def lower_def lower_char_def code_def Let_def)

section \<open>Properties\<close>

text \<open>
  C27. The classifier agrees with the special-purpose address blocks: a dotted quad is private
  exactly in 10/8, 172.16/12, 192.168/16, 127/8 and 100.64/10, link-local exactly in 169.254/16
  and 0/8, and public otherwise; and an IPv4 address hidden in IPv4-mapped IPv6 text gets the
  answer of the address itself.
\<close>

theorem dotted_and_mapped_blocks:
  assumes "a \<le> 255" and "b \<le> 255" and "c \<le> 255" and "d \<le> 255"
  shows "classify_ip (quad_text a b c d) = block_kind a b \<and>
    classify_ip (''::ffff:'' @ quad_text a b c d) = block_kind a b"
proof -
  have "classify_ip (quad_text a b c d) = classify_ipv4 (quad_text a b c d)"
    by (simp add: classify_ip_def)
  then show ?thesis
    using classify_quad [OF assms] classify_mapped [OF assms] by simp
qed

theorem dotted_and_mapped_blocks_witness:
  "classify_ip (quad_text 172 31 255 7) = Private_ip \<and>
    classify_ip (''::ffff:'' @ quad_text 172 31 255 7) = Private_ip"
  using dotted_and_mapped_blocks [of 172 31 255 7] by (simp add: block_kind_def)

text \<open>
  IPv4-compatible text is not recognised: the text form \<open>::a.b.c.d\<close> of an address is always
  classified as unknown, so \<open>isPrivateOrLinkLocal\<close> answers no for it, also for loopback and
  private addresses, although the classifier means to cover this notation.
\<close>

theorem compatible_text_unknown:
  "classify_ip (''::'' @ quad_text a b c d) = Unknown_ip \<and>
    is_private_or_link_local (''::'' @ quad_text a b c d) = False"
  using classify_compatible [of a b c d] by (simp add: is_private_or_link_local_def)

lemma check_addresses_ok:
  "check_addresses host as = Inr () \<longleftrightarrow> list_all (\<lambda>a. classify_ip a = Public_ip) as"
  by (induction as) auto

lemma assert_safe_cases:
  assumes "assert_safe_variant_destination parse_url lookup url_str domains = Inr ()"
  obtains url addrs where "parse_url url_str = Some url"
    and "up_protocol url = ''http:'' \<or> up_protocol url = ''https:''"
    and "up_username url = []" and "up_password url = []"
    and "up_port url = [] \<or> up_port url = ''80'' \<or> up_port url = ''443''"
    and "normalise_host (up_hostname url) \<noteq> []" and "in_allowlist (normalise_host (up_hostname url)) domains"
    and "lookup (normalise_host (up_hostname url)) = Inr addrs" and "addrs \<noteq> []"
    and "list_all (\<lambda>a. classify_ip a = Public_ip) addrs"
proof -
  obtain url where url: "parse_url url_str = Some url"
    using assms by (cases "parse_url url_str") (simp_all add: assert_safe_variant_destination_def)
  obtain addrs where addrs: "lookup (normalise_host (up_hostname url)) = Inr addrs"
    using assms url by (cases "lookup (normalise_host (up_hostname url))")
      (simp_all add: assert_safe_variant_destination_def check_resolved_def Let_def split: if_splits)
  show thesis
    using assms url addrs
    by (intro that [OF url _ _ _ _ _ _ addrs])
      (simp_all add: assert_safe_variant_destination_def check_resolved_def check_addresses_ok Let_def
        split: if_splits)
qed


definition sample_url :: url_parts where
  "sample_url = \<lparr>up_protocol = ''https:'', up_username = [], up_password = [], up_port = [],
                 up_hostname = ''www.brand.com''\<rparr>"


end
