(* ===== verification/WorkState.thy ===== *)
theory WorkState
  imports StageVocabulary UnitText ListingGate
begin

text \<open>
  The operator work state of one onboarding item (\<open>src/src/onboarding/onboarding-work-state.ts\<close>,
  \<open>deriveItemWorkState\<close> and its helpers, with the vocabulary of
  \<open>src/src/shared/schemas/onboarding-work-state.ts\<close>). The batch inputs are a record of maps, and
  a state whose rendering fields cannot be read from the item's data is a thrown type error.
\<close>

section \<open>Vocabulary\<close>

datatype work_category =
    Processing | Needs_attention | Ready_for_review | Approved_work | Ready_to_export
  | Completed_work | Skipped_work

datatype work_activity =
    Distributor_lookup | Official_site_search | Official_url_verification | Extraction_activity
  | Curation_activity | Packaging_ocr | Cohort_freezing | Title_coordination | Page_coordination
  | Attribute_curation | Semantic_validation | Review_activity | Approval_activity | Export_activity

datatype finding_code =
    Family_brand | Coordinated_title | Coordinated_page | Coordinated_page_name_mismatch
  | Member_attribute_applicability | Member_cardinality

datatype suggested_action = Accept_majority | Choose_canonical_brand | Split_cohort | Re_run_curation

record finding_detail =
  fd_code :: finding_code
  fd_sku :: code_units
  fd_message :: code_units
  fd_conflicting :: "code_units list option"
  fd_suggested :: "suggested_action option"

datatype attention_reason =
    Brand_not_provided | Verify_official_url_reason | No_official_url | Choose_official_url_reason
  | Choose_variant_reason | Extractor_profile_required | Extraction_profile_failed | Source_conflict
  | Processing_failed | Semantic_validation_blocked | Manual_evidence_available
  | Listing_completeness_unresolved

datatype attention_action =
    Assign_brand | Verify_official_url | Choose_official_url | Choose_variant | Setup_extractor_profile
  | Retry_extraction | Resolve_source_conflict | Retry_processing | Resolve_semantic_conflict
  | Enter_manual_evidence | Resolve_listing_completeness

datatype review_state = Not_ready | Unreviewed | Reviewed | Approved

datatype stage_status = Pending | In_progress | Completed | Failed | Needs_input | Skipped

datatype source_type = Official_page | Distributor_record

section \<open>Inputs\<close>

text \<open>The fields of an onboarding item that the projection reads.\<close>

record onboarding_item =
  oi_id :: code_units
  oi_batch :: code_units
  oi_upc :: code_units
  oi_name :: code_units
  oi_brand_hint :: "code_units option"
  oi_source_url :: "code_units option"
  oi_source_type :: "source_type option"
  oi_stage :: unknown_value
  oi_status :: stage_status
  oi_held :: bool
  oi_held_reason :: "code_units option"
  oi_error :: "code_units option"
  oi_extraction :: "canonical_json option"
  oi_curation :: "canonical_json option"
  oi_row :: nat

record review_row =
  rr_reviewed_at :: "code_units option"
  rr_invalidated_at :: "code_units option"
  rr_approved_at :: "code_units option"

record family_cohort_state =
  fc_cohort :: code_units
  fc_label :: "code_units option"
  fc_members :: nat
  fc_ready :: nat
  fc_blocked :: nat
  fc_waiting_on :: "code_units list"
  fc_status :: code_units
  fc_state :: code_units
  fc_blocked_reason :: "code_units option"

record variant_resolution =
  vr_id :: code_units
  vr_status :: code_units
  vr_candidates :: canonical_json
  vr_matrix_hash :: code_units
  vr_platform :: code_units

record variant_disposition =
  vd_disposition :: code_units
  vd_reason :: "code_units option"
  vd_marked_by :: "code_units option"
  vd_updated_at :: code_units

record stage_row =
  sr_stage :: code_units
  sr_status :: code_units

record health_issue =
  hi_source :: string
  hi_code :: string
  hi_count :: nat

text \<open>
  \<open>wc_readiness\<close> holds the checklist evaluation of an item whose readiness could be loaded;
  \<open>wc_draft_status\<close> the status of the change set an item's export draft is linked to.
\<close>

record work_state_context =
  wc_reviews :: "code_units \<Rightarrow> review_row option"
  wc_cohorts :: "code_units \<Rightarrow> family_cohort_state option"
  wc_change_sets :: "code_units \<Rightarrow> code_units option"
  wc_draft_status :: "code_units \<Rightarrow> code_units option"
  wc_readiness :: "code_units \<Rightarrow> checklist option"
  wc_candidates :: "code_units \<Rightarrow> nat option"
  wc_variants :: "code_units \<Rightarrow> variant_resolution option"
  wc_dispositions :: "code_units \<Rightarrow> variant_disposition option"
  wc_cohort_runs :: "code_units \<Rightarrow> code_units option"
  wc_latest_runs :: "code_units \<Rightarrow> code_units option"
  wc_stage_results :: "code_units \<Rightarrow> stage_row list option"
  wc_issues :: "health_issue list"

datatype variant_mode = Mode_off | Mode_observe | Mode_active

definition effective_variant_mode :: "variant_mode option \<Rightarrow> variant_mode" where
  "effective_variant_mode override = (case override of Some m \<Rightarrow> m | None \<Rightarrow> Mode_active)"

text \<open>
  The platform: the host name of a URL that parses, the text of \<open>parseFloat\<close> of a decimal, and
  the override of the variant flags.
\<close>

record platform =
  pf_hostname :: "code_units \<Rightarrow> code_units option"
  pf_decimal :: "code_units \<Rightarrow> code_units"
  pf_mode_override :: "variant_mode option"

section \<open>Results\<close>

record family_state =
  fs_cohort :: code_units
  fs_label :: "code_units option"
  fs_members :: nat
  fs_ready :: nat
  fs_blocked :: nat
  fs_waiting_on :: "code_units list"

record work_state =
  ws_item :: code_units
  ws_category :: work_category
  ws_activity :: "work_activity option"
  ws_label :: code_units
  ws_detail :: "code_units option"
  ws_reason :: "attention_reason option"
  ws_action :: "attention_action option"
  ws_finding :: "finding_code option"
  ws_finding_summary :: "code_units option"
  ws_conflicting :: "code_units list option"
  ws_suggested :: "suggested_action option"
  ws_findings :: "finding_detail list option"
  ws_family :: "family_state option"
  ws_review :: review_state
  ws_stage :: unknown_value
  ws_status :: stage_status
  ws_variant :: "variant_resolution option"
  ws_disposition :: "variant_disposition option"
  ws_upc :: code_units
  ws_name :: code_units
  ws_brand :: "code_units option"
  ws_source_type :: "source_type option"
  ws_domain :: "code_units option"
  ws_title :: "code_units option"
  ws_image :: "code_units option"
  ws_description :: "code_units option"
  ws_weight :: "code_units option"

text \<open>What a row of the mapping table decides.\<close>

record derivation =
  dv_category :: work_category
  dv_activity :: "work_activity option"
  dv_label :: code_units
  dv_detail :: "code_units option"
  dv_reason :: "attention_reason option"
  dv_action :: "attention_action option"
  dv_variant :: "variant_resolution option"

section \<open>Reading an item\<close>

definition canonical_stage_of :: "unknown_value \<Rightarrow> stage_v2 option" where
  "canonical_stage_of v = (case to_canonical_stage v of Inl _ \<Rightarrow> None | Inr s \<Rightarrow> Some s)"

definition stage_is :: "unknown_value \<Rightarrow> stage_v2 \<Rightarrow> bool" where
  "stage_is v s \<longleftrightarrow> canonical_stage_of v = Some s"

definition strip_www_units :: "code_units \<Rightarrow> code_units" where
  "strip_www_units s = (if starts_with s (units ''www.'') then drop 4 s else s)"

definition normalize_host :: "platform \<Rightarrow> code_units option \<Rightarrow> code_units option" where
  "normalize_host pf url =
     (case url of
        None \<Rightarrow> None
      | Some u \<Rightarrow>
          if u = [] then None
          else map_option (\<lambda>h. strip_www_units (lower_units h)) (pf_hostname pf u))"

definition derive_review_state :: "onboarding_item \<Rightarrow> review_row option \<Rightarrow> review_state" where
  "derive_review_state item row =
     (case row of
        Some r \<Rightarrow>
          if present (rr_approved_at r) \<and> \<not> present (rr_invalidated_at r) then Approved
          else if present (rr_invalidated_at r) then Unreviewed
          else if present (rr_reviewed_at r) then Reviewed
          else Unreviewed
      | None \<Rightarrow>
          if stage_is (oi_stage item) Review_listings \<and> oi_status item = Completed then Reviewed
          else if stage_is (oi_stage item) Create_drafts \<and> oi_status item = Completed then Reviewed
          else if stage_is (oi_stage item) Prepare_listing \<and> oi_status item = Completed then Unreviewed
          else if stage_is (oi_stage item) Review_listings then Unreviewed
          else Not_ready)"

definition stage_name_to_work_activity :: "code_units \<Rightarrow> work_activity option" where
  "stage_name_to_work_activity n =
     (if n = units ''packaging_ocr'' then Some Packaging_ocr
      else if n = units ''evidence_extraction'' then Some Cohort_freezing
      else if n = units ''name_consolidation'' then Some Title_coordination
      else if n = units ''category_page_proposals'' then Some Page_coordination
      else if n = units ''attribute_applicability'' \<or> n = units ''product_attribute_proposals''
      then Some Attribute_curation
      else if n = units ''primary_product_type_proposal'' then Some Cohort_freezing
      else None)"

definition mapped_with_status :: "code_units \<Rightarrow> stage_row list \<Rightarrow> work_activity option" where
  "mapped_with_status status rows =
     first_some (map (\<lambda>r. stage_name_to_work_activity (sr_stage r)) (filter (\<lambda>r. sr_status r = status) rows))"

definition next_pending :: "stage_row list \<Rightarrow> work_activity option" where
  "next_pending rows =
     (case dropWhile (\<lambda>r. sr_status r = units ''succeeded'' \<or> sr_status r = units ''abstained'') rows of
        [] \<Rightarrow> None
      | r # _ \<Rightarrow> if sr_status r = units ''pending'' then stage_name_to_work_activity (sr_stage r) else None)"

definition derive_curation_sub_activity :: "onboarding_item \<Rightarrow> work_state_context \<Rightarrow> work_activity" where
  "derive_curation_sub_activity item ctx =
     (case jstring (jget (units ''classificationRunId'') (oi_curation item)) of
        None \<Rightarrow> Curation_activity
      | Some run \<Rightarrow>
          (if run = [] then Curation_activity
           else case wc_stage_results ctx run of
             None \<Rightarrow> Curation_activity
           | Some rows \<Rightarrow>
               (case first_some [mapped_with_status (units ''running'') rows, next_pending rows,
                                 mapped_with_status (units ''pending'') rows] of
                  Some a \<Rightarrow> a
                | None \<Rightarrow> Curation_activity)))"

section \<open>Building the state\<close>

definition curated_title :: "onboarding_item \<Rightarrow> code_units option" where
  "curated_title item =
     first_some [jtext (jget (units ''curatedTitle'') (oi_curation item)),
                 jtext (jget (units ''name'') (oi_curation item)),
                 jtext (jget (units ''title'') (oi_extraction item))]"

text \<open>The raw text under a key of the first array element that has a non-blank one.\<close>

definition first_text :: "string \<Rightarrow> canonical_json list \<Rightarrow> code_units option" where
  "first_text k xs =
     (case find (\<lambda>a. jtext (jget (units k) (Some a)) \<noteq> None) xs of
        Some a \<Rightarrow> jstring (jget (units k) (Some a))
      | None \<Rightarrow> None)"

definition image_url :: "onboarding_item \<Rightarrow> (type_error, code_units option) result" where
  "image_url item =
     bind_res (jarray (jget (units ''distributorImageApprovals'') (oi_extraction item))) (\<lambda>approvals.
       bind_res (jarray (jget (units ''distributorImageCandidates'') (oi_extraction item))) (\<lambda>candidates.
         Inr (first_some [jtext (jget (units ''primaryImage'') (oi_extraction item)),
                          first_text ''imageUrl'' approvals, first_text ''url'' candidates])))"

definition description_text :: "onboarding_item \<Rightarrow> code_units option" where
  "description_text item =
     first_some [jtext (jget (units ''curatedDescription'') (oi_curation item)),
                 jtext (jget (units ''description'') (oi_extraction item))]"

definition is_digit_unit :: "nat \<Rightarrow> bool" where
  "is_digit_unit c \<longleftrightarrow> 48 \<le> c \<and> c \<le> 57"

text \<open>\<open>/^\d+(\.\d+)?$/\<close>.\<close>

definition matches_decimal_number :: "code_units \<Rightarrow> bool" where
  "matches_decimal_number s \<longleftrightarrow>
     (case split_on 46 s of
        [a] \<Rightarrow> a \<noteq> [] \<and> list_all is_digit_unit a
      | [a, b] \<Rightarrow> a \<noteq> [] \<and> list_all is_digit_unit a \<and> b \<noteq> [] \<and> list_all is_digit_unit b
      | _ \<Rightarrow> False)"

definition raw_weight :: "onboarding_item \<Rightarrow> code_units option" where
  "raw_weight item =
     (case jtext (jget (units ''curatedWeight'') (oi_curation item)) of
        Some w \<Rightarrow> Some w
      | None \<Rightarrow>
          (case jscalar_text (jget (units ''weight'') (oi_extraction item)) of
             Some w \<Rightarrow> Some (trim_units w)
           | None \<Rightarrow> jtext (jget (units ''size'') (jget (units ''variantAttributes'') (oi_extraction item)))))"

definition weight_text :: "platform \<Rightarrow> onboarding_item \<Rightarrow> code_units option" where
  "weight_text pf item =
     (case raw_weight item of
        None \<Rightarrow> None
      | Some w \<Rightarrow>
          if w = [] then None
          else if matches_decimal_number w then Some (pf_decimal pf w @ units '' lbs'') else Some w)"

definition family_of :: "family_cohort_state \<Rightarrow> family_state" where
  "family_of c =
     \<lparr>fs_cohort = fc_cohort c, fs_label = fc_label c, fs_members = fc_members c, fs_ready = fc_ready c,
      fs_blocked = fc_blocked c, fs_waiting_on = fc_waiting_on c\<rparr>"

definition build ::
    "platform \<Rightarrow> onboarding_item \<Rightarrow> review_row option \<Rightarrow> family_cohort_state option \<Rightarrow> derivation \<Rightarrow>
     (type_error, work_state) result" where
  "build pf item row cohort d =
     bind_res (image_url item) (\<lambda>image. Inr
       \<lparr>ws_item = oi_id item, ws_category = dv_category d, ws_activity = dv_activity d,
        ws_label = dv_label d, ws_detail = dv_detail d, ws_reason = dv_reason d, ws_action = dv_action d,
        ws_finding = None, ws_finding_summary = None, ws_conflicting = None, ws_suggested = None,
        ws_findings = None, ws_family = map_option family_of cohort,
        ws_review = derive_review_state item row, ws_stage = oi_stage item, ws_status = oi_status item,
        ws_variant = dv_variant d, ws_disposition = None, ws_upc = oi_upc item, ws_name = oi_name item,
        ws_brand = first_some [oi_brand_hint item, jstring (jget (units ''brand'') (oi_extraction item))],
        ws_source_type = oi_source_type item, ws_domain = normalize_host pf (oi_source_url item),
        ws_title = curated_title item, ws_image = image, ws_description = description_text item,
        ws_weight = weight_text pf item\<rparr>)"

section \<open>The mapping table\<close>

text \<open>A constant label, with \<open>#\<close> for the em dash and \<open>'\<close> for the typographic apostrophe.\<close>

definition label :: "string \<Rightarrow> code_units" where
  "label s = map (\<lambda>c. if c = CHR ''#'' then 8212 else if c = CHR 0x27 then 8217 else code c) s"

definition plain ::
    "work_category \<Rightarrow> work_activity option \<Rightarrow> string \<Rightarrow> code_units option \<Rightarrow> derivation" where
  "plain category activity l detail =
     \<lparr>dv_category = category, dv_activity = activity, dv_label = label l, dv_detail = detail,
      dv_reason = None, dv_action = None, dv_variant = None\<rparr>"

definition attention ::
    "attention_reason \<Rightarrow> attention_action \<Rightarrow> string \<Rightarrow> code_units option \<Rightarrow> derivation" where
  "attention reason action l detail =
     \<lparr>dv_category = Needs_attention, dv_activity = None, dv_label = label l, dv_detail = detail,
      dv_reason = Some reason, dv_action = Some action, dv_variant = None\<rparr>"

definition error_mentions :: "onboarding_item \<Rightarrow> string list \<Rightarrow> bool" where
  "error_mentions item phrases \<longleftrightarrow>
     (case oi_error item of
        None \<Rightarrow> False
      | Some e \<Rightarrow> list_ex (\<lambda>p. has_part (lower_units e) (units p)) phrases)"

definition requirement_text :: "requirement \<Rightarrow> code_units" where
  "requirement_text r =
     units (rq_label r @ '' ('' @ requirement_state_name (rq_state r) @ '')'' @
       (case rq_reason r of None \<Rightarrow> [] | Some t \<Rightarrow> if t = [] then [] else '': '' @ t))"

definition listing_readiness_attention :: "onboarding_item \<Rightarrow> work_state_context \<Rightarrow> derivation option" where
  "listing_readiness_attention item ctx =
     (let evaluation = wc_readiness ctx (oi_id item)
      in case evaluate_completeness_gate evaluation of
           Complete \<Rightarrow> None
         | Incomplete _ reason \<Rightarrow>
             (let unmet_texts = (case evaluation of
                     None \<Rightarrow> [] | Some e \<Rightarrow> map requirement_text (filter unmet (cl_requirements e)))
              in Some (attention Listing_completeness_unresolved Resolve_listing_completeness
                   ''Listing information needs attention''
                   (Some (if unmet_texts \<noteq> [] then join (units ''; '') unmet_texts else units reason)))))"

definition or_readiness_block ::
    "onboarding_item \<Rightarrow> work_state_context \<Rightarrow> derivation \<Rightarrow> derivation" where
  "or_readiness_block item ctx d =
     (case listing_readiness_attention item ctx of Some block \<Rightarrow> block | None \<Rightarrow> d)"

definition no_brand :: "onboarding_item \<Rightarrow> bool" where
  "no_brand item \<longleftrightarrow> (case oi_brand_hint item of None \<Rightarrow> True | Some b \<Rightarrow> trim_units b = [])"

definition held_state :: "onboarding_item \<Rightarrow> derivation" where
  "held_state item =
     (if oi_held_reason item = Some (units ''missing_brand'') \<or> no_brand item
      then attention Brand_not_provided Assign_brand ''Brand assignment required''
             (Some (units ''Product is held awaiting brand assignment before running.''))
      else attention Processing_failed Retry_processing ''Product held''
             (first_some [oi_held_reason item, Some (units ''Product is held awaiting release.'')]))"

definition approved_now :: "review_row option \<Rightarrow> bool" where
  "approved_now row \<longleftrightarrow>
     (case row of None \<Rightarrow> False | Some r \<Rightarrow> present (rr_approved_at r) \<and> \<not> present (rr_invalidated_at r))"

definition reviewed_now :: "review_row option \<Rightarrow> bool" where
  "reviewed_now row \<longleftrightarrow>
     (case row of None \<Rightarrow> False | Some r \<Rightarrow> present (rr_reviewed_at r) \<and> \<not> present (rr_invalidated_at r))"

definition table_create_drafts ::
    "onboarding_item \<Rightarrow> review_row option \<Rightarrow> work_state_context \<Rightarrow> derivation" where
  "table_create_drafts item row ctx =
     (let linked = wc_draft_status ctx (oi_id item)
      in if oi_status item = Completed \<or> linked \<noteq> None
         then let status = first_some [linked, wc_change_sets ctx (oi_upc item)]
              in if status = Some (units ''pushed'')
                 then plain Completed_work (Some Export_activity) ''Exported''
                        (Some (units ''Change set pushed to the store''))
                 else or_readiness_block item ctx
                        (plain Ready_to_export (Some Export_activity) ''Ready to export''
                          (Some (case status of
                             Some cs \<Rightarrow> if cs = [] then units ''Export drafts created''
                               else units ''Export drafts created (change set '' @ cs @ units '')''
                           | None \<Rightarrow> units ''Export drafts created'')))
         else if oi_status item = Failed
         then attention Processing_failed Retry_processing ''Export failed'' (oi_error item)
         else or_readiness_block item ctx
           (if approved_now row
            then plain Approved_work (Some Export_activity) ''Approved # ready to export'' (oi_error item)
            else plain Ready_for_review (Some Review_activity)
                   (if reviewed_now row then ''Reviewed # pending approval'' else ''Ready for review'')
                   (Some (units ''Awaiting bulk approval''))))"

definition table_review_listings ::
    "onboarding_item \<Rightarrow> review_row option \<Rightarrow> work_state_context \<Rightarrow> derivation" where
  "table_review_listings item row ctx =
     (if oi_status item = Failed
      then attention Processing_failed Retry_processing ''Review failed'' (oi_error item)
      else or_readiness_block item ctx
        (plain Ready_for_review (Some Review_activity)
          (if approved_now row then ''Approved''
           else if reviewed_now row then ''Reviewed # ready to approve'' else ''Ready for review'')
          None))"

definition table_prepare_listing :: "onboarding_item \<Rightarrow> work_state_context \<Rightarrow> derivation" where
  "table_prepare_listing item ctx =
     (if oi_status item = Completed
      then or_readiness_block item ctx
             (plain Ready_for_review (Some Review_activity) ''Ready for review'' None)
      else if oi_status item = Failed
      then attention Processing_failed Retry_processing ''Curation failed'' (oi_error item)
      else plain Processing (Some (derive_curation_sub_activity item ctx)) ''Curating product'' None)"

definition table_collect_details :: "onboarding_item \<Rightarrow> derivation" where
  "table_collect_details item =
     (if oi_source_type item = Some Distributor_record
      then if oi_status item = Failed
           then attention Processing_failed Retry_extraction ''Distributor materialization failed'' (oi_error item)
           else if oi_status item = Completed
           then plain Processing (Some Extraction_activity) ''Distributor materialization complete'' None
           else plain Processing (Some Extraction_activity) ''Materializing distributor data'' None
      else if oi_status item = Needs_input
      then attention Verify_official_url_reason Verify_official_url ''Extraction needs attention''
             (first_some [oi_error item, Some (units ''Extraction paused for operator input'')])
      else if oi_status item = Failed
      then if error_mentions item [''no extractor profile'', ''profile required'']
           then attention Manual_evidence_available Enter_manual_evidence ''Manual evidence available''
                  (Some (label ''No per-product page exists for this brand family # enter product facts manually (per-SKU attestation required). Family page is reference only.''))
           else if error_mentions item [''no confirmed source url'']
           then attention No_official_url Choose_official_url ''Official product page needed'' (oi_error item)
           else attention Extraction_profile_failed Retry_extraction ''Extraction failed'' (oi_error item)
      else if oi_status item = Completed
      then plain Processing (Some Extraction_activity) ''Extraction complete'' None
      else plain Processing (Some Extraction_activity) ''Extracting product data'' None)"

definition page_attention :: "onboarding_item \<Rightarrow> work_state_context \<Rightarrow> derivation" where
  "page_attention item ctx =
     (if (case wc_candidates ctx (oi_id item) of None \<Rightarrow> 0 | Some n \<Rightarrow> n) > 0
      then attention Verify_official_url_reason Verify_official_url ''Verify official product page'' (oi_error item)
      else attention No_official_url Choose_official_url ''No official product page found'' (oi_error item))"

definition table_find_product_page :: "onboarding_item \<Rightarrow> work_state_context \<Rightarrow> derivation" where
  "table_find_product_page item ctx =
     (if oi_status item = Needs_input
      then if no_brand item
           then attention Brand_not_provided Assign_brand ''Brand assignment required''
                  (Some (label (''Assign a brand so discovery can search the brand'' @ [CHR 0x27] @
                                ''s official site.'')))
           else page_attention item ctx
      else if oi_status item = Failed
      then attention Processing_failed Retry_processing ''Official site search failed'' (oi_error item)
      else if oi_status item = Completed
      then if error_mentions item [''needs_review''] then page_attention item ctx
           else if error_mentions item [''no matching product pages'', ''no sources found'']
           then attention No_official_url Choose_official_url ''No official product page found'' (oi_error item)
           else plain Processing (Some Official_site_search) ''Official site search complete'' None
      else plain Processing (Some Official_site_search) ''Searching official site'' None)"

definition table_route_sources :: "onboarding_item \<Rightarrow> derivation" where
  "table_route_sources item =
     (if oi_status item = Needs_input
      then attention Source_conflict Resolve_source_conflict ''Distributor match needs decision'' (oi_error item)
      else if oi_status item = Failed
      then attention Processing_failed Retry_processing ''Distributor lookup failed'' (oi_error item)
      else if oi_status item = Completed
      then plain Processing (Some Distributor_lookup) ''Distributor lookup complete'' None
      else plain Processing (Some Distributor_lookup) ''Running distributor lookups'' None)"

definition stage_table ::
    "onboarding_item \<Rightarrow> review_row option \<Rightarrow> work_state_context \<Rightarrow> derivation" where
  "stage_table item row ctx =
     (case canonical_stage_of (oi_stage item) of
        Some Create_drafts \<Rightarrow> table_create_drafts item row ctx
      | Some Review_listings \<Rightarrow> table_review_listings item row ctx
      | Some Prepare_listing \<Rightarrow> table_prepare_listing item ctx
      | Some Collect_details \<Rightarrow> table_collect_details item
      | Some Find_product_page \<Rightarrow> table_find_product_page item ctx
      | Some Route_sources \<Rightarrow> table_route_sources item
      | None \<Rightarrow> plain Processing None ''Processing'' None)"

definition variant_choice ::
    "platform \<Rightarrow> onboarding_item \<Rightarrow> work_state_context \<Rightarrow> derivation option" where
  "variant_choice pf item ctx =
     (case wc_variants ctx (oi_id item) of
        None \<Rightarrow> None
      | Some v \<Rightarrow>
          if (vr_status v = units ''ambiguous'' \<or> vr_status v = units ''no_match'' \<or> vr_status v = units ''stale'') \<and>
             (stage_is (oi_stage item) Find_product_page \<or> stage_is (oi_stage item) Collect_details) \<and>
             oi_status item = Needs_input \<and>
             effective_variant_mode (pf_mode_override pf) = Mode_active
          then Some ((attention Choose_variant_reason Choose_variant ''Choose product variant''
                 (Some (label ''Multiple variants detected # choose the exact variant.'')))\<lparr>dv_variant := Some v\<rparr>)
          else None)"

definition mapping_table ::
    "platform \<Rightarrow> onboarding_item \<Rightarrow> review_row option \<Rightarrow> work_state_context \<Rightarrow> derivation" where
  "mapping_table pf item row ctx =
     (if oi_status item = Skipped then plain Skipped_work None ''Skipped'' (oi_error item)
      else if oi_held item then held_state item
      else case variant_choice pf item ctx of
             Some d \<Rightarrow> d
           | None \<Rightarrow> stage_table item row ctx)"

definition derive_item_work_state_inner ::
    "platform \<Rightarrow> onboarding_item \<Rightarrow> work_state_context \<Rightarrow> (type_error, work_state) result" where
  "derive_item_work_state_inner pf item ctx =
     (let row = wc_reviews ctx (oi_id item)
      in build pf item row (wc_cohorts ctx (oi_id item)) (mapping_table pf item row ctx))"

definition derive_item_work_state ::
    "platform \<Rightarrow> onboarding_item \<Rightarrow> work_state_context \<Rightarrow> (type_error, work_state) result" where
  "derive_item_work_state pf item ctx =
     bind_res (derive_item_work_state_inner pf item ctx)
       (\<lambda>st. Inr (st\<lparr>ws_disposition := wc_dispositions ctx (oi_id item)\<rparr>))"

definition corrupt_projection_fallback :: "platform \<Rightarrow> onboarding_item \<Rightarrow> code_units \<Rightarrow> work_state" where
  "corrupt_projection_fallback pf item detail =
     \<lparr>ws_item = oi_id item, ws_category = Needs_attention, ws_activity = None,
      ws_label = label ''Projection error'', ws_detail = Some detail,
      ws_reason = Some Processing_failed, ws_action = Some Retry_processing,
      ws_finding = None, ws_finding_summary = None, ws_conflicting = None, ws_suggested = None,
      ws_findings = None, ws_family = None, ws_review = Not_ready, ws_stage = oi_stage item,
      ws_status = oi_status item, ws_variant = None, ws_disposition = None, ws_upc = oi_upc item,
      ws_name = oi_name item, ws_brand = oi_brand_hint item, ws_source_type = oi_source_type item,
      ws_domain = normalize_host pf (oi_source_url item), ws_title = None, ws_image = None,
      ws_description = None, ws_weight = None\<rparr>"

definition corrupt_detail :: code_units where
  "corrupt_detail = label ''Corrupt work-state data # operator attention required''"

section \<open>Facts about the table\<close>

lemmas stage_tables =
  table_create_drafts_def table_review_listings_def table_prepare_listing_def table_collect_details_def
  table_find_product_page_def table_route_sources_def page_attention_def

lemma plain_simps [simp]:
  "dv_category (plain c a l d) = c" "dv_activity (plain c a l d) = a" "dv_reason (plain c a l d) = None"
  "dv_action (plain c a l d) = None" "dv_variant (plain c a l d) = None"
  by (simp_all add: plain_def)

lemma attention_simps [simp]:
  "dv_category (attention r x l d) = Needs_attention" "dv_activity (attention r x l d) = None"
  "dv_reason (attention r x l d) = Some r" "dv_action (attention r x l d) = Some x"
  "dv_variant (attention r x l d) = None"
  by (simp_all add: attention_def)

text \<open>A row is well formed when exactly attention rows name a reason and an action.\<close>

definition well_formed_row :: "derivation \<Rightarrow> bool" where
  "well_formed_row d \<longleftrightarrow>
     (dv_category d = Needs_attention) = (dv_reason d \<noteq> None) \<and> (dv_reason d \<noteq> None) = (dv_action d \<noteq> None) \<and>
     (dv_reason d \<noteq> None \<longrightarrow> dv_activity d = None) \<and>
     (dv_variant d \<noteq> None) = (dv_reason d = Some Choose_variant_reason)"

lemma well_formed_plain [simp]: "c \<noteq> Needs_attention \<Longrightarrow> well_formed_row (plain c a l d)"
  by (simp add: well_formed_row_def)

lemma well_formed_attention [simp]: "r \<noteq> Choose_variant_reason \<Longrightarrow> well_formed_row (attention r x l d)"
  by (simp add: well_formed_row_def)

lemma readiness_block_cases:
  "(evaluate_completeness_gate (wc_readiness ctx (oi_id item)) = Complete \<and> or_readiness_block item ctx d = d) \<or>
   (\<exists>detail. or_readiness_block item ctx d =
      attention Listing_completeness_unresolved Resolve_listing_completeness
        ''Listing information needs attention'' detail)"
  by (auto simp: or_readiness_block_def listing_readiness_attention_def Let_def
      split: completeness_result.splits)

lemma well_formed_readiness [simp]: "well_formed_row d \<Longrightarrow> well_formed_row (or_readiness_block item ctx d)"
  using readiness_block_cases [of ctx item d] by auto

lemma well_formed_table: "well_formed_row (stage_table item row ctx)"
  by (cases "canonical_stage_of (oi_stage item)"; cases "the (canonical_stage_of (oi_stage item))")
    (simp_all add: stage_table_def stage_tables Let_def)

lemma well_formed_mapping: "well_formed_row (mapping_table pf item row ctx)"
proof -
  have "variant_choice pf item ctx = Some d \<Longrightarrow> well_formed_row d" for d
    by (auto simp: variant_choice_def well_formed_row_def split: option.splits if_splits)
  then show ?thesis
    by (auto simp: mapping_table_def held_state_def well_formed_table split: option.splits)
qed

lemma build_Inr:
  "build pf item row cohort d = Inr st \<Longrightarrow>
     ws_category st = dv_category d \<and> ws_activity st = dv_activity d \<and> ws_reason st = dv_reason d \<and>
     ws_action st = dv_action d \<and> ws_variant st = dv_variant d \<and> ws_item st = oi_id item \<and>
     ws_review st = derive_review_state item row"
  by (auto simp: build_def)

lemma derive_Inr:
  assumes "derive_item_work_state pf item ctx = Inr st"
  shows "ws_category st = dv_category (mapping_table pf item (wc_reviews ctx (oi_id item)) ctx)"
    and "ws_activity st = dv_activity (mapping_table pf item (wc_reviews ctx (oi_id item)) ctx)"
    and "ws_reason st = dv_reason (mapping_table pf item (wc_reviews ctx (oi_id item)) ctx)"
    and "ws_action st = dv_action (mapping_table pf item (wc_reviews ctx (oi_id item)) ctx)"
    and "ws_variant st = dv_variant (mapping_table pf item (wc_reviews ctx (oi_id item)) ctx)"
    and "ws_item st = oi_id item"
    and "ws_review st = derive_review_state item (wc_reviews ctx (oi_id item))"
  using assms by (auto simp: derive_item_work_state_def derive_item_work_state_inner_def Let_def dest!: build_Inr)

lemma category_readiness [simp]:
  "dv_category (or_readiness_block item ctx d) =
     (if evaluate_completeness_gate (wc_readiness ctx (oi_id item)) = Complete
      then dv_category d else Needs_attention)"
  by (auto simp: or_readiness_block_def listing_readiness_attention_def Let_def
      split: completeness_result.splits)

lemma row_from_stage_table:
  assumes "dv_category (mapping_table pf item row ctx) \<notin> {Needs_attention, Skipped_work}"
  shows "mapping_table pf item row ctx = stage_table item row ctx"
proof -
  have "variant_choice pf item ctx = Some d \<Longrightarrow> dv_category d = Needs_attention" for d
    by (auto simp: variant_choice_def split: option.splits if_splits)
  then show ?thesis
    using assms by (auto simp: mapping_table_def held_state_def split: option.splits if_splits)
qed

text \<open>The only thing that can throw is reading the images.\<close>

lemma derive_Inl_iff: "derive_item_work_state pf item ctx = Inl e \<longleftrightarrow> image_url item = Inl e"
  unfolding derive_item_work_state_def derive_item_work_state_inner_def Let_def build_def
  by (cases "image_url item") simp_all

text \<open>What the categories near release guarantee.\<close>

lemma near_release_rows:
  assumes "dv_category (stage_table item row ctx) = c"
  shows "c \<in> {Ready_for_review, Approved_work, Ready_to_export} \<Longrightarrow>
      evaluate_completeness_gate (wc_readiness ctx (oi_id item)) = Complete"
    and "c = Approved_work \<Longrightarrow> approved_now row"
    and "c = Completed_work \<Longrightarrow>
      first_some [wc_draft_status ctx (oi_id item), wc_change_sets ctx (oi_upc item)] = Some (units ''pushed'')"
  using assms
  by (cases "canonical_stage_of (oi_stage item)"; cases "the (canonical_stage_of (oi_stage item))";
      force simp: stage_table_def stage_tables Let_def split: if_splits)+

text \<open>The table reads the stage only through its canonical value.\<close>

lemma spelling_selectors:
  "oi_stage (item\<lparr>oi_stage := v\<rparr>) = v" "oi_held (item\<lparr>oi_stage := v\<rparr>) = oi_held item"
  "oi_id (item\<lparr>oi_stage := v\<rparr>) = oi_id item"
  "oi_upc (item\<lparr>oi_stage := v\<rparr>) = oi_upc item"
  "oi_brand_hint (item\<lparr>oi_stage := v\<rparr>) = oi_brand_hint item"
  "oi_source_type (item\<lparr>oi_stage := v\<rparr>) = oi_source_type item"
  "oi_status (item\<lparr>oi_stage := v\<rparr>) = oi_status item"
  "oi_held_reason (item\<lparr>oi_stage := v\<rparr>) = oi_held_reason item"
  "oi_error (item\<lparr>oi_stage := v\<rparr>) = oi_error item"
  "oi_curation (item\<lparr>oi_stage := v\<rparr>) = oi_curation item"
  "oi_extraction (item\<lparr>oi_stage := v\<rparr>) = oi_extraction item"
  by simp_all

lemma stage_tables_ignore_spelling:
  "table_create_drafts (item\<lparr>oi_stage := v\<rparr>) row ctx = table_create_drafts item row ctx"
  "table_review_listings (item\<lparr>oi_stage := v\<rparr>) row ctx = table_review_listings item row ctx"
  "table_prepare_listing (item\<lparr>oi_stage := v\<rparr>) ctx = table_prepare_listing item ctx"
  "table_collect_details (item\<lparr>oi_stage := v\<rparr>) = table_collect_details item"
  "table_find_product_page (item\<lparr>oi_stage := v\<rparr>) ctx = table_find_product_page item ctx"
  "table_route_sources (item\<lparr>oi_stage := v\<rparr>) = table_route_sources item"
  "held_state (item\<lparr>oi_stage := v\<rparr>) = held_state item"
  by (simp_all only: stage_tables or_readiness_block_def listing_readiness_attention_def error_mentions_def
      derive_curation_sub_activity_def held_state_def no_brand_def spelling_selectors)

lemma rendering_ignores_spelling:
  "image_url (item\<lparr>oi_stage := v\<rparr>) = image_url item"
  "curated_title (item\<lparr>oi_stage := v\<rparr>) = curated_title item"
  "description_text (item\<lparr>oi_stage := v\<rparr>) = description_text item"
  "weight_text pf (item\<lparr>oi_stage := v\<rparr>) = weight_text pf item"
  by (simp_all only: image_url_def curated_title_def description_text_def weight_text_def raw_weight_def
      spelling_selectors)

lemma same_stage_row:
  assumes "canonical_stage_of v = canonical_stage_of (oi_stage item)"
  shows "mapping_table pf (item\<lparr>oi_stage := v\<rparr>) row ctx = mapping_table pf item row ctx"
    and "derive_review_state (item\<lparr>oi_stage := v\<rparr>) row = derive_review_state item row"
proof -
  have choice: "variant_choice pf (item\<lparr>oi_stage := v\<rparr>) ctx = variant_choice pf item ctx"
    unfolding variant_choice_def stage_is_def spelling_selectors assms ..
  show "mapping_table pf (item\<lparr>oi_stage := v\<rparr>) row ctx = mapping_table pf item row ctx"
    unfolding mapping_table_def choice stage_table_def stage_tables_ignore_spelling spelling_selectors assms ..
  show "derive_review_state (item\<lparr>oi_stage := v\<rparr>) row = derive_review_state item row"
    unfolding derive_review_state_def stage_is_def spelling_selectors assms ..
qed

lemma canonical_stage_spellings [simp]:
  "canonical_stage_of (UString (v2_literal s)) = Some s"
  "canonical_stage_of (UString (v1_literal a)) = Some (v1_to_v2 a)"
  by (simp_all add: canonical_stage_of_def to_canonical_stage_Inr
      split: sum.splits) (auto simp: to_canonical_stage_def)

section \<open>A sample item\<close>

definition sample_platform :: platform where
  "sample_platform = \<lparr>pf_hostname = (\<lambda>_. None), pf_decimal = id, pf_mode_override = None\<rparr>"

definition sample_item :: onboarding_item where
  "sample_item =
     \<lparr>oi_id = units ''i1'', oi_batch = units ''b1'', oi_upc = units ''012'', oi_name = units ''Dog food'',
      oi_brand_hint = Some (units ''Brand''), oi_source_url = None, oi_source_type = Some Official_page,
      oi_stage = UString ''prepare_listing'', oi_status = Completed, oi_held = False,
      oi_held_reason = None, oi_error = None, oi_extraction = None, oi_curation = None, oi_row = 1\<rparr>"

definition ready_checklist :: checklist where
  "ready_checklist =
     \<lparr>cl_status = Cl_ready, cl_input_hash = Some ''a'', cl_evidence_hash = Some ''b'',
      cl_standard_hash = Some ''c'', cl_classification_hash = Some ''d'', cl_listing_hash = Some ''e'',
      cl_requirements = [], cl_reasons = []\<rparr>"

definition sample_context :: "checklist option \<Rightarrow> work_state_context" where
  "sample_context readiness =
     \<lparr>wc_reviews = Map.empty, wc_cohorts = Map.empty, wc_change_sets = Map.empty,
      wc_draft_status = Map.empty, wc_readiness = (\<lambda>_. readiness), wc_candidates = Map.empty,
      wc_variants = Map.empty, wc_dispositions = Map.empty, wc_cohort_runs = Map.empty,
      wc_latest_runs = Map.empty, wc_stage_results = Map.empty, wc_issues = []\<rparr>"

lemma sample_gate: "evaluate_completeness_gate (Some ready_checklist) = Complete"
  by (simp add: evaluate_completeness_gate_def ready_checklist_def truthy_def)

lemma sample_row:
  "mapping_table sample_platform sample_item None (sample_context readiness) =
     or_readiness_block sample_item (sample_context readiness)
       (plain Ready_for_review (Some Review_activity) ''Ready for review'' None)"
proof -
  have "oi_stage sample_item = UString (v2_literal Prepare_listing)"
    by (simp add: sample_item_def)
  then have "canonical_stage_of (oi_stage sample_item) = Some Prepare_listing"
    by (simp only: canonical_stage_spellings)
  then have "stage_table sample_item None (sample_context readiness) = or_readiness_block sample_item
      (sample_context readiness) (plain Ready_for_review (Some Review_activity) ''Ready for review'' None)"
    by (simp add: stage_table_def table_prepare_listing_def sample_item_def)
  then show ?thesis
    by (simp add: mapping_table_def variant_choice_def sample_context_def sample_item_def)
qed

lemma sample_derived:
  obtains st where "derive_item_work_state sample_platform sample_item (sample_context readiness) = Inr st"
    and "ws_category st = (if evaluate_completeness_gate readiness = Complete then Ready_for_review else Needs_attention)"
proof -
  have image: "image_url sample_item = Inr None"
    by (simp add: image_url_def sample_item_def jget_def jarray_def jtext_def jstring_def first_text_def)
  obtain st where st: "derive_item_work_state sample_platform sample_item (sample_context readiness) = Inr st"
    by (cases "derive_item_work_state sample_platform sample_item (sample_context readiness)")
      (simp_all add: derive_Inl_iff image)
  have "wc_reviews (sample_context readiness) (oi_id sample_item) = None"
    "wc_readiness (sample_context readiness) (oi_id sample_item) = readiness"
    by (simp_all add: sample_context_def)
  then show thesis
    using that [OF st] derive_Inr(1) [OF st] by (simp add: sample_row)
qed

section \<open>Properties\<close>

text \<open>
  C30. Attention is never silent: a state asks for attention exactly when it names a reason and
  an operator action, such a state shows no running activity, and a variant choice is offered
  exactly for the reason that asks for one.
\<close>

theorem attention_names_reason_and_action:
  assumes "derive_item_work_state pf item ctx = Inr st"
  shows "(ws_category st = Needs_attention) = (ws_reason st \<noteq> None) \<and>
    (ws_reason st \<noteq> None) = (ws_action st \<noteq> None) \<and>
    (ws_reason st \<noteq> None \<longrightarrow> ws_activity st = None) \<and>
    (ws_variant st \<noteq> None) = (ws_reason st = Some Choose_variant_reason)"
  using well_formed_mapping [of pf item "wc_reviews ctx (oi_id item)" ctx]
  unfolding derive_Inr [OF assms] well_formed_row_def .

theorem attention_names_reason_and_action_witness:
  "\<exists>st. derive_item_work_state sample_platform sample_item (sample_context None) = Inr st \<and>
     ws_category st = Needs_attention \<and> ws_reason st \<noteq> None \<and> ws_action st \<noteq> None"
proof (rule sample_derived [of None])
  fix st
  assume st: "derive_item_work_state sample_platform sample_item (sample_context None) = Inr st"
    and c: "ws_category st = (if evaluate_completeness_gate None = Complete then Ready_for_review else Needs_attention)"
  then show ?thesis
    using attention_names_reason_and_action [OF st] by (simp add: evaluate_completeness_gate_def)
qed

text \<open>
  C29. Nothing is shown as releasable unless its checklist passed: an item appears as ready for
  review, approved or ready to export only when the completeness gate passes on its current
  readiness, as approved only with an approval that was not invalidated, and as exported only
  when the change set that holds it was pushed.
\<close>

theorem release_states_are_earned:
  assumes "derive_item_work_state pf item ctx = Inr st"
  shows "(ws_category st \<in> {Ready_for_review, Approved_work, Ready_to_export} \<longrightarrow>
      evaluate_completeness_gate (wc_readiness ctx (oi_id item)) = Complete) \<and>
    (ws_category st = Approved_work \<longrightarrow> ws_review st = Approved) \<and>
    (ws_category st = Completed_work \<longrightarrow>
      first_some [wc_draft_status ctx (oi_id item), wc_change_sets ctx (oi_upc item)] = Some (units ''pushed''))"
proof -
  let ?row = "wc_reviews ctx (oi_id item)"
  have table: "ws_category st = dv_category (stage_table item ?row ctx)"
    if "ws_category st \<notin> {Needs_attention, Skipped_work}"
    using that row_from_stage_table [of pf item ?row ctx] by (simp add: derive_Inr [OF assms])
  have "approved_now ?row \<Longrightarrow> ws_review st = Approved"
    unfolding derive_Inr [OF assms] by (auto simp: approved_now_def derive_review_state_def split: option.splits)
  then show ?thesis
    using table near_release_rows [of item ?row ctx "ws_category st"] by auto
qed

theorem release_states_are_earned_witness:
  "\<exists>st. derive_item_work_state sample_platform sample_item (sample_context (Some ready_checklist)) = Inr st \<and>
     ws_category st = Ready_for_review \<and>
     evaluate_completeness_gate (wc_readiness (sample_context (Some ready_checklist)) (oi_id sample_item)) = Complete"
proof (rule sample_derived [of "Some ready_checklist"])
  fix st
  assume st: "derive_item_work_state sample_platform sample_item (sample_context (Some ready_checklist)) = Inr st"
    and c: "ws_category st =
      (if evaluate_completeness_gate (Some ready_checklist) = Complete then Ready_for_review else Needs_attention)"
  then show ?thesis
    using release_states_are_earned [OF st] by (simp add: sample_gate)
qed

text \<open>
  Dual read of stages: an item stored with the legacy spelling of a stage is projected to the
  same work state as the item stored with the canonical spelling, up to the raw stage shown as a
  diagnostic; errors included.
\<close>

theorem stage_spelling_irrelevant:
  "derive_item_work_state pf (item\<lparr>oi_stage := UString (v1_literal (v2_to_v1 s))\<rparr>) ctx =
   map_sum id (\<lambda>st. st\<lparr>ws_stage := UString (v1_literal (v2_to_v1 s))\<rparr>)
     (derive_item_work_state pf (item\<lparr>oi_stage := UString (v2_literal s)\<rparr>) ctx)"
proof -
  let ?i = "item\<lparr>oi_stage := UString (v2_literal s)\<rparr>" and ?v = "UString (v1_literal (v2_to_v1 s))"
  have "canonical_stage_of ?v = canonical_stage_of (oi_stage ?i)"
    by simp
  note same = same_stage_row(1) [OF this, of pf _ ctx] same_stage_row(2) [OF this]
  have "build pf (?i\<lparr>oi_stage := ?v\<rparr>) row cohort d = map_sum id (\<lambda>st. st\<lparr>ws_stage := ?v\<rparr>) (build pf ?i row cohort d)"
    for row cohort d
    by (cases "image_url item")
      (simp_all add: build_def rendering_ignores_spelling same(2) [simplified])
  then have "derive_item_work_state pf (?i\<lparr>oi_stage := ?v\<rparr>) ctx =
      map_sum id (\<lambda>st. st\<lparr>ws_stage := ?v\<rparr>) (derive_item_work_state pf ?i ctx)"
    using same(1) unfolding derive_item_work_state_def derive_item_work_state_inner_def Let_def
    by (cases "build pf ?i (wc_reviews ctx (oi_id item)) (wc_cohorts ctx (oi_id item))
         (mapping_table pf ?i (wc_reviews ctx (oi_id item)) ctx)") simp_all
  then show ?thesis by simp
qed


end
