(* ===== verification/WorkStateContext.thy ===== *)
theory WorkStateContext
  imports WorkState "HOL-Library.Product_Lexorder"
begin

text \<open>
  The inputs of the work-state projection of a batch: the bulk repository
  (\<open>src/src/db/repositories/onboarding-work-state-repo.ts\<close>) over explicit tables, and
  \<open>buildBatchWorkStateContext\<close> of \<open>src/src/onboarding/onboarding-work-state.ts\<close> with the health
  issues it collects. A query that throws is a missing table.
\<close>

section \<open>Tables\<close>

record variant_row =
  vt_item :: code_units
  vt_id :: code_units
  vt_status :: code_units
  vt_candidates :: "canonical_json option"
  vt_matrix_hash :: code_units
  vt_platform :: code_units
  vt_superseded :: bool

record cohort_run_row =
  ct_item :: code_units
  ct_status :: code_units

record run_row =
  rt_id :: code_units
  rt_item :: code_units
  rt_started :: code_units

record stage_result_row =
  st_run :: code_units
  st_stage :: code_units
  st_status :: code_units
  st_started :: code_units

record work_db =
  db_variants :: "variant_row list option"
  db_dispositions :: "(code_units \<times> variant_disposition) list option"
  db_source_items :: "code_units list option"
  db_cohort_runs :: "cohort_run_row list option"
  db_runs :: "run_row list option"
  db_stage_results :: "stage_result_row list option"

datatype projection_error = Projection_error (pe_source: string) (pe_code: string)

section \<open>Bulk reads\<close>

definition query_table ::
    "string \<Rightarrow> string \<Rightarrow> 'row list option \<Rightarrow> ('row list \<Rightarrow> 'a) \<Rightarrow> (projection_error, 'a) result" where
  "query_table source error_code table f =
     (case table of None \<Rightarrow> Inl (Projection_error source error_code) | Some rows \<Rightarrow> Inr (f rows))"

definition to_resolution :: "variant_row \<Rightarrow> variant_resolution" where
  "to_resolution r =
     \<lparr>vr_id = vt_id r, vr_status = vt_status r,
      vr_candidates = (case vt_candidates r of Some v \<Rightarrow> v | None \<Rightarrow> C_array []),
      vr_matrix_hash = vt_matrix_hash r, vr_platform = vt_platform r\<rparr>"

definition bulk_load_variant_resolutions ::
    "work_db \<Rightarrow> code_units list \<Rightarrow> (projection_error, code_units \<Rightarrow> variant_resolution option) result" where
  "bulk_load_variant_resolutions db ids =
     (if ids = [] then Inr Map.empty
      else query_table ''onboarding_variant_resolutions'' ''variant_resolution_failed'' (db_variants db)
        (\<lambda>rows. foldl (\<lambda>m r. m(vt_item r \<mapsto> to_resolution r)) Map.empty
           (filter (\<lambda>r. vt_item r \<in> set ids \<and> \<not> vt_superseded r) rows)))"

text \<open>\<open>queryInChunks\<close>: one query per chunk of ids, the rows in chunk order.\<close>

function query_in_chunks :: "nat \<Rightarrow> ('id list \<Rightarrow> 'row list) \<Rightarrow> 'id list \<Rightarrow> 'row list" where
  "query_in_chunks n query ids =
     (if ids = [] then []
      else query (take (Suc n) ids) @ query_in_chunks n query (drop (Suc n) ids))"
  by pat_completeness auto
termination
  by (relation "measure (\<lambda>(_, _, ids). length ids)") auto

declare query_in_chunks.simps [simp del]

text \<open>The default chunk size of 900, as the predecessor the recursion counts from.\<close>

definition chunk_pred :: nat where "chunk_pred = 899"

definition bulk_load_variant_dispositions ::
    "work_db \<Rightarrow> code_units list \<Rightarrow> (projection_error, code_units \<Rightarrow> variant_disposition option) result" where
  "bulk_load_variant_dispositions db ids =
     (if ids = [] then Inr Map.empty
      else query_table ''onboarding_variant_identity_dispositions'' ''variant_disposition_failed''
        (db_dispositions db)
        (\<lambda>rows. foldl (\<lambda>m r. m(fst r \<mapsto> snd r)) Map.empty
           (query_in_chunks chunk_pred (\<lambda>chunk. filter (\<lambda>r. fst r \<in> set chunk) rows) ids)))"

definition bulk_count_discovery_candidates ::
    "work_db \<Rightarrow> code_units list \<Rightarrow> (projection_error, code_units \<Rightarrow> nat option) result" where
  "bulk_count_discovery_candidates db ids =
     (if ids = [] then Inr Map.empty
      else query_table ''onboarding_sources'' ''candidate_count_failed'' (db_source_items db)
        (\<lambda>rows id. if id \<in> set ids then Some (length (filter (\<lambda>r. r = id) rows)) else None))"

definition bulk_get_cohort_run_status_by_item ::
    "work_db \<Rightarrow> code_units list \<Rightarrow> (projection_error, code_units \<Rightarrow> code_units option) result" where
  "bulk_get_cohort_run_status_by_item db ids =
     (if ids = [] then Inr Map.empty
      else query_table ''classification_cohort_runs'' ''cohort_run_failed'' (db_cohort_runs db)
        (\<lambda>rows. foldl (\<lambda>m r. if m (ct_item r) = None \<or> ct_status r = units ''freezing''
                              then m(ct_item r \<mapsto> ct_status r) else m) Map.empty
           (filter (\<lambda>r. ct_item r \<in> set ids \<and>
                        (ct_status r = units ''freezing'' \<or> ct_status r = units ''running'')) rows)))"

text \<open>\<open>ORDER BY started_at DESC\<close>, rows of equal time in table order; the first per item is kept.\<close>

definition latest_started_first :: "run_row list \<Rightarrow> run_row list" where
  "latest_started_first rows = rev (sort_key rt_started (rev rows))"

definition bulk_get_latest_run_id_by_item ::
    "work_db \<Rightarrow> code_units list \<Rightarrow> (projection_error, code_units \<Rightarrow> code_units option) result" where
  "bulk_get_latest_run_id_by_item db ids =
     (if ids = [] then Inr Map.empty
      else query_table ''classification_runs'' ''latest_run_failed'' (db_runs db)
        (\<lambda>rows. foldl (\<lambda>m r. if m (rt_item r) = None then m(rt_item r \<mapsto> rt_id r) else m) Map.empty
           (latest_started_first (filter (\<lambda>r. rt_item r \<in> set ids) rows))))"

definition push_stage :: "(code_units \<Rightarrow> stage_row list option) \<Rightarrow> stage_result_row \<Rightarrow> (code_units \<Rightarrow> stage_row list option)" where
  "push_stage m r =
     m(st_run r \<mapsto> (case m (st_run r) of None \<Rightarrow> [] | Some rows \<Rightarrow> rows) @
                    [\<lparr>sr_stage = st_stage r, sr_status = st_status r\<rparr>])"

definition bulk_get_stage_results ::
    "work_db \<Rightarrow> code_units list \<Rightarrow> (projection_error, code_units \<Rightarrow> stage_row list option) result" where
  "bulk_get_stage_results db run_ids =
     (if run_ids = [] then Inr Map.empty
      else query_table ''classification_stage_results'' ''stage_results_failed'' (db_stage_results db)
        (\<lambda>rows. foldl push_stage Map.empty
           (query_in_chunks chunk_pred
             (\<lambda>chunk. sort_key (\<lambda>r. (st_run r, st_started r)) (filter (\<lambda>r. st_run r \<in> set chunk) rows))
             run_ids)))"

text \<open>The \<open>WithHealth\<close> wrappers: a failure becomes an issue and a fallback value.\<close>

definition with_health ::
    "'k list \<Rightarrow> 'a \<Rightarrow> (projection_error, 'a) result \<Rightarrow> 'a \<times> health_issue option" where
  "with_health ids fallback r =
     (case r of
        Inr v \<Rightarrow> (v, None)
      | Inl e \<Rightarrow> (fallback, Some \<lparr>hi_source = pe_source e, hi_code = pe_code e, hi_count = length ids\<rparr>))"

definition candidates_with_health ::
    "work_db \<Rightarrow> code_units list \<Rightarrow> (code_units \<Rightarrow> nat option) \<times> health_issue option" where
  "candidates_with_health db ids =
     with_health ids (\<lambda>id. if id \<in> set ids then Some 0 else None) (bulk_count_discovery_candidates db ids)"

section \<open>The context of a batch\<close>

record cohort_view =
  cv_cohort :: code_units
  cv_label :: "code_units option"
  cv_status :: code_units
  cv_members :: "code_units list"
  cv_member_count :: nat
  cv_ready_count :: nat
  cv_waiting :: "code_units list"
  cv_state :: code_units
  cv_blocked_reason :: "code_units option"

text \<open>
  The services the builder calls, with \<^term>\<open>None\<close> for a call that throws: review states, cohort
  views of the given items, the batch row's workspace (empty when the row is missing), draft links
  and change-set states of a workspace, and the live readiness of an item.
\<close>

record batch_sources =
  bs_reviews :: "(code_units \<Rightarrow> review_row option) option"
  bs_cohort_views :: "onboarding_item list \<Rightarrow> cohort_view list option"
  bs_workspace :: "code_units option"
  bs_draft_links :: "code_units \<Rightarrow> code_units list \<Rightarrow> (code_units \<Rightarrow> code_units option) option"
  bs_change_sets :: "code_units \<Rightarrow> code_units list \<Rightarrow> (code_units \<Rightarrow> code_units option) option"
  bs_db :: work_db
  bs_readiness :: "code_units \<Rightarrow> code_units \<Rightarrow> checklist option"

text \<open>\<open>Math.max(0, a - b - c)\<close> is truncated subtraction on natural numbers.\<close>

definition family_context :: "cohort_view \<Rightarrow> code_units \<Rightarrow> family_cohort_state" where
  "family_context view member =
     \<lparr>fc_cohort = cv_cohort view, fc_label = cv_label view, fc_members = cv_member_count view,
      fc_ready = cv_ready_count view,
      fc_blocked = cv_member_count view - cv_ready_count view - length (cv_waiting view),
      fc_waiting_on = filter (\<lambda>w. w \<noteq> member) (cv_waiting view),
      fc_status = cv_status view, fc_state = cv_state view, fc_blocked_reason = cv_blocked_reason view\<rparr>"

definition build_cohort_context ::
    "cohort_view list \<Rightarrow> code_units \<Rightarrow> family_cohort_state option" where
  "build_cohort_context views =
     foldl (\<lambda>m view. foldl (\<lambda>m' member. m'(member \<mapsto> family_context view member)) m (cv_members view))
       Map.empty views"

text \<open>The run an item's progress is read from: its own pointer, else its latest run.\<close>

definition effective_run :: "(code_units \<Rightarrow> code_units option) \<Rightarrow> onboarding_item \<Rightarrow> code_units option" where
  "effective_run latest item =
     (case first_some [jtext (jget (units ''classificationRunId'') (oi_curation item)), latest (oi_id item)] of
        None \<Rightarrow> None
      | Some r \<Rightarrow> if r = [] then None else Some r)"

definition corrupt_curation :: "onboarding_item \<Rightarrow> bool" where
  "corrupt_curation item \<longleftrightarrow>
     (case oi_curation item of
        Some (C_bool _) \<Rightarrow> True | Some (C_int _) \<Rightarrow> True | Some (C_frac _) \<Rightarrow> True | Some (C_string _) \<Rightarrow> True
      | _ \<Rightarrow> False)"

definition needs_readiness :: "onboarding_item \<Rightarrow> bool" where
  "needs_readiness item \<longleftrightarrow>
     oi_status item \<noteq> Failed \<and> oi_status item \<noteq> Skipped \<and>
     (stage_is (oi_stage item) Prepare_listing \<or> stage_is (oi_stage item) Review_listings \<or>
      stage_is (oi_stage item) Create_drafts)"

definition issue :: "string \<Rightarrow> string \<Rightarrow> nat \<Rightarrow> health_issue" where
  "issue source error_code n = \<lparr>hi_source = source, hi_code = error_code, hi_count = n\<rparr>"

text \<open>The readiness loop: the map, and one issue per item that could not be loaded.\<close>

fun load_readiness ::
    "batch_sources \<Rightarrow> code_units \<Rightarrow> onboarding_item list \<Rightarrow>
     (code_units \<Rightarrow> checklist option) \<times> health_issue list" where
  "load_readiness src ws [] = (Map.empty, [])"
| "load_readiness src ws (item # items) =
     (let (m, issues) = load_readiness src ws items
      in if \<not> needs_readiness item then (m, issues)
         else if ws = [] then (m, issue ''item_listing_readiness'' ''workspace_unavailable'' 1 # issues)
         else case bs_readiness src ws (oi_id item) of
           Some e \<Rightarrow> (case m (oi_id item) of None \<Rightarrow> m(oi_id item \<mapsto> e) | Some _ \<Rightarrow> m, issues)
         | None \<Rightarrow> (m, issue ''item_listing_readiness'' ''readiness_load_failed'' 1 # issues))"

definition opt_issue :: "bool \<Rightarrow> health_issue \<Rightarrow> health_issue list" where
  "opt_issue failed i = (if failed then [i] else [])"

text \<open>The draft links and change-set states; either read failing empties both.\<close>

definition load_releases ::
    "batch_sources \<Rightarrow> code_units \<Rightarrow> onboarding_item list \<Rightarrow>
     (code_units \<Rightarrow> code_units option) \<times> (code_units \<Rightarrow> code_units option) \<times> bool" where
  "load_releases src ws items =
     (let promoted = filter (\<lambda>i. stage_is (oi_stage i) Create_drafts) items
      in case bs_draft_links src ws (map oi_id promoted) of
           None \<Rightarrow> (Map.empty, Map.empty, True)
         | Some links \<Rightarrow>
             (case bs_change_sets src ws (map oi_upc promoted) of
                None \<Rightarrow> (Map.empty, Map.empty, True)
              | Some states \<Rightarrow> (links, states, False)))"

text \<open>
  The builder: \<^term>\<open>None\<close> when reading the batch row throws; otherwise the context and whether a
  bulk read failed, which the code marks on the issue list as \<open>_hasCritical\<close>.
\<close>

definition build_batch_work_state_context ::
    "batch_sources \<Rightarrow> onboarding_item list \<Rightarrow> (work_state_context \<times> bool) option" where
  "build_batch_work_state_context src items =
     (case bs_workspace src of
        None \<Rightarrow> None
      | Some ws \<Rightarrow>
          (let n = length items;
               ids = map oi_id items;
               db = bs_db src;
               reviews = (case bs_reviews src of Some m \<Rightarrow> m | None \<Rightarrow> Map.empty);
               cohorts = (case bs_cohort_views src items of Some vs \<Rightarrow> build_cohort_context vs | None \<Rightarrow> Map.empty);
               (links, states, releases_failed) = load_releases src ws items;
               promoted = length (filter (\<lambda>i. stage_is (oi_stage i) Create_drafts) items);
               (candidates, i1) = candidates_with_health db ids;
               (variants, i2) = with_health ids Map.empty (bulk_load_variant_resolutions db ids);
               (dispositions, i3) = with_health ids Map.empty (bulk_load_variant_dispositions db ids);
               (runs, i4) = with_health ids Map.empty (bulk_get_cohort_run_status_by_item db ids);
               (latest, i5) = with_health ids Map.empty (bulk_get_latest_run_id_by_item db ids);
               effective = map (\<lambda>i. (oi_id i, effective_run latest i)) items;
               run_ids = List.map_filter snd effective;
               run_by_item = foldl (\<lambda>m p. case snd p of None \<Rightarrow> m | Some r \<Rightarrow> m(fst p \<mapsto> r)) Map.empty effective;
               (stages, i6) = with_health run_ids Map.empty (bulk_get_stage_results db run_ids);
               (readiness, readiness_issues) = load_readiness src ws items;
               bulk_issues = List.map_filter id [i1, i2, i3, i4, i5];
               review_failed = (bs_reviews src = None);
               cohort_failed = (bs_cohort_views src items = None);
               issues = opt_issue review_failed (issue ''onboarding_review_state'' ''review_state_failed'' n) @
                        opt_issue cohort_failed (issue ''curation_cohorts'' ''cohort_context_failed'' n) @
                        opt_issue (releases_failed \<and> promoted > 0)
                          (issue ''change_sets'' ''change_set_lookup_failed'' promoted) @
                        bulk_issues @
                        map (\<lambda>_. issue ''onboarding_items'' ''corrupt_curation_data'' 1) (filter corrupt_curation items) @
                        List.map_filter id [i6] @ readiness_issues;
               critical = (review_failed \<or> cohort_failed \<or> (releases_failed \<and> promoted > 0) \<or>
                           bulk_issues \<noteq> [] \<or> i6 \<noteq> None)
           in Some
             (\<lparr>wc_reviews = reviews, wc_cohorts = cohorts, wc_change_sets = states, wc_draft_status = links,
               wc_readiness = readiness, wc_candidates = candidates, wc_variants = variants,
               wc_dispositions = dispositions, wc_cohort_runs = runs, wc_latest_runs = run_by_item,
               wc_stage_results = stages, wc_issues = issues\<rparr>, critical)))"

end
