(* ===== verification/WorkStatePages.thy ===== *)
theory WorkStatePages
  imports WorkStateContext ContentHash
begin

text \<open>
  The batch endpoints of the work-state read model: filters, cursors bound to a filter hash
  (\<open>src/src/shared/schemas/onboarding-work-state.ts\<close>), counts, the paginated items endpoint over
  the chunked table read (\<open>listItemsByBatchChunked\<close> of
  \<open>src/src/db/repositories/onboarding-item-repo.ts\<close>) and the older sorted listing.
\<close>

section \<open>Filters\<close>

record work_filters =
  wf_category :: "work_category option"
  wf_q :: "code_units option"
  wf_domain :: "code_units option"
  wf_source_type :: "source_type option"
  wf_cohort :: "code_units option"
  wf_review :: "review_state option"
  wf_limit :: "int option"
  wf_offset :: "int option"
  wf_cursor :: "canonical_json option option"

text \<open>
  A cursor is base64url text of JSON; the model takes what decoding it gives, \<^term>\<open>Some None\<close> for
  text that does not decode. An absent or empty cursor is \<^term>\<open>None\<close>.
\<close>

fun category_name :: "work_category \<Rightarrow> string" where
  "category_name Processing = ''processing''"
| "category_name Needs_attention = ''needs_attention''"
| "category_name Ready_for_review = ''ready_for_review''"
| "category_name Approved_work = ''approved''"
| "category_name Ready_to_export = ''ready_to_export''"
| "category_name Completed_work = ''completed''"
| "category_name Skipped_work = ''skipped''"

fun review_name :: "review_state \<Rightarrow> string" where
  "review_name Not_ready = ''not_ready''"
| "review_name Unreviewed = ''unreviewed''"
| "review_name Reviewed = ''reviewed''"
| "review_name Approved = ''approved''"

fun source_type_name :: "source_type \<Rightarrow> string" where
  "source_type_name Official_page = ''official_page''"
| "source_type_name Distributor_record = ''distributor_record''"

fun source_type_label :: "source_type option \<Rightarrow> string" where
  "source_type_label (Some Distributor_record) = ''distributor record''"
| "source_type_label (Some Official_page) = ''official page''"
| "source_type_label None = ''''"

definition or_empty :: "code_units option \<Rightarrow> code_units" where
  "or_empty v = (case v of None \<Rightarrow> [] | Some t \<Rightarrow> t)"

definition domain_matches :: "code_units \<Rightarrow> work_state \<Rightarrow> bool" where
  "domain_matches domain st \<longleftrightarrow>
     (let needle = strip_www_units (lower_units domain)
      in case ws_domain st of
           None \<Rightarrow> False
         | Some d \<Rightarrow> lower_units d = needle \<or> ends_with (lower_units d) (46 # needle))"

definition haystack :: "work_state \<Rightarrow> code_units" where
  "haystack st =
     lower_units (join [32]
       [ws_upc st, ws_name st, or_empty (ws_brand st), ws_label st, or_empty (ws_domain st),
        units (source_type_label (ws_source_type st)),
        or_empty (case ws_family st of None \<Rightarrow> None | Some f \<Rightarrow> fs_label f),
        units (category_name (ws_category st))])"

definition matches_query :: "code_units \<Rightarrow> work_state \<Rightarrow> bool" where
  "matches_query q st \<longleftrightarrow>
     (let needle = lower_units (trim_units q) in needle = [] \<or> has_part (haystack st) needle)"

definition matches_filters :: "work_state \<Rightarrow> work_filters \<Rightarrow> bool" where
  "matches_filters st f \<longleftrightarrow>
     (case wf_category f of None \<Rightarrow> True | Some c \<Rightarrow> ws_category st = c) \<and>
     (case wf_review f of None \<Rightarrow> True | Some r \<Rightarrow> ws_review st = r) \<and>
     (case wf_source_type f of None \<Rightarrow> True | Some s \<Rightarrow> ws_source_type st = Some s) \<and>
     (present (wf_domain f) \<longrightarrow> domain_matches (or_empty (wf_domain f)) st) \<and>
     (present (wf_cohort f) \<longrightarrow>
        (case ws_family st of None \<Rightarrow> False | Some fam \<Rightarrow> Some (fs_cohort fam) = wf_cohort f)) \<and>
     (present (wf_q f) \<longrightarrow> matches_query (or_empty (wf_q f)) st)"

section \<open>Cursors\<close>

datatype cursor_code = Malformed_cursor | Filter_mismatch | Invalid_cursor_version

record db_cursor =
  dc_row :: nat
  dc_id :: code_units

record db_cursor_payload =
  dp_row :: nat
  dp_id :: code_units
  dp_hash :: code_units

record sort_cursor_payload =
  sp_key :: code_units
  sp_item :: code_units
  sp_hash :: code_units

text \<open>The canonical filter text: the keys present, in sorted order.\<close>

definition text_entry :: "string \<Rightarrow> code_units option \<Rightarrow> (code_units \<times> code_units) list" where
  "text_entry k v = (case v of None \<Rightarrow> [] | Some t \<Rightarrow> if t = [] then [] else [(units k, t)])"

definition filter_entries :: "work_filters \<Rightarrow> (code_units \<times> code_units) list" where
  "filter_entries f =
     text_entry ''category'' (map_option (\<lambda>c. units (category_name c)) (wf_category f)) @
     text_entry ''cohortId'' (map_option trim_units (wf_cohort f)) @
     text_entry ''domain'' (map_option (\<lambda>d. lower_units (trim_units d)) (wf_domain f)) @
     text_entry ''q'' (map_option (\<lambda>q. lower_units (trim_units q)) (wf_q f)) @
     text_entry ''reviewState'' (map_option (\<lambda>r. units (review_name r)) (wf_review f)) @
     text_entry ''sourceType'' (map_option (\<lambda>s. units (source_type_name s)) (wf_source_type f))"

definition filter_text :: "work_filters \<Rightarrow> code_units" where
  "filter_text f =
     [123] @ join [44] (map (\<lambda>(k, v). json_quote k @ [58] @ json_quote v) (filter_entries f)) @ [125]"

definition compute_work_state_filter_hash :: "work_filters \<Rightarrow> code_units" where
  "compute_work_state_filter_hash f = take 16 (units (sha256_hex (utf8_encode (filter_text f))))"

definition is_hash_text :: "code_units \<Rightarrow> bool" where
  "is_hash_text s \<longleftrightarrow>
     16 \<le> length s \<and> length s \<le> 64 \<and> list_all (\<lambda>c. (48 \<le> c \<and> c \<le> 57) \<or> (97 \<le> c \<and> c \<le> 102)) s"

definition encode_db_cursor :: "db_cursor_payload \<Rightarrow> canonical_json" where
  "encode_db_cursor p =
     C_object [(units ''v'', C_int 2), (units ''rowNumber'', C_int (int (dp_row p))),
               (units ''id'', C_string (dp_id p)), (units ''filterHash'', C_string (dp_hash p))]"

definition encode_sort_cursor :: "sort_cursor_payload \<Rightarrow> canonical_json" where
  "encode_sort_cursor p =
     C_object [(units ''v'', C_int 1), (units ''sortKey'', C_string (sp_key p)),
               (units ''itemId'', C_string (sp_item p)), (units ''filterHash'', C_string (sp_hash p))]"

text \<open>Strict object schemas: exactly the named keys.\<close>

definition only_keys :: "string list \<Rightarrow> canonical_json \<Rightarrow> bool" where
  "only_keys ks v = (case v of C_object ps \<Rightarrow> list_all (\<lambda>p. fst p \<in> set (map units ks)) ps | _ \<Rightarrow> False)"

definition parse_db_payload :: "canonical_json \<Rightarrow> db_cursor_payload option" where
  "parse_db_payload v =
     (let get = (\<lambda>k. jget (units k) (Some v))
      in if \<not> only_keys [''v'', ''rowNumber'', ''id'', ''filterHash''] v \<or> get ''v'' \<noteq> Some (C_int 2) then None
         else case (get ''rowNumber'', jstring (get ''id''), jstring (get ''filterHash'')) of
           (Some (C_int n), Some i, Some h) \<Rightarrow>
             if 0 \<le> n \<and> is_hash_text h then Some \<lparr>dp_row = nat n, dp_id = i, dp_hash = h\<rparr> else None
         | _ \<Rightarrow> None)"

definition parse_sort_payload :: "canonical_json \<Rightarrow> sort_cursor_payload option" where
  "parse_sort_payload v =
     (let get = (\<lambda>k. jget (units k) (Some v))
      in if \<not> only_keys [''v'', ''sortKey'', ''itemId'', ''filterHash''] v \<or> get ''v'' \<noteq> Some (C_int 1) then None
         else case (jstring (get ''sortKey''), jstring (get ''itemId''), jstring (get ''filterHash'')) of
           (Some k, Some i, Some h) \<Rightarrow>
             if is_hash_text h then Some \<lparr>sp_key = k, sp_item = i, sp_hash = h\<rparr> else None
         | _ \<Rightarrow> None)"

definition decode_cursor :: "(canonical_json \<Rightarrow> 'p option) \<Rightarrow> canonical_json option \<Rightarrow> (cursor_code, 'p) result" where
  "decode_cursor parse c =
     (case c of
        None \<Rightarrow> Inl Malformed_cursor
      | Some v \<Rightarrow> (case parse v of None \<Rightarrow> Inl Malformed_cursor | Some p \<Rightarrow> Inr p))"

definition validate_db_cursor ::
    "canonical_json option \<Rightarrow> work_filters \<Rightarrow> (cursor_code, db_cursor_payload) result" where
  "validate_db_cursor c f =
     bind_res (decode_cursor parse_db_payload c) (\<lambda>p.
       if dp_hash p \<noteq> compute_work_state_filter_hash f then Inl Filter_mismatch else Inr p)"

definition validate_sort_cursor ::
    "canonical_json option \<Rightarrow> work_filters \<Rightarrow> (cursor_code, sort_cursor_payload) result" where
  "validate_sort_cursor c f =
     bind_res (decode_cursor parse_sort_payload c) (\<lambda>p.
       if sp_hash p \<noteq> compute_work_state_filter_hash f then Inl Filter_mismatch else Inr p)"

definition decode_any_cursor ::
    "canonical_json option \<Rightarrow> (cursor_code, sort_cursor_payload + db_cursor_payload) result" where
  "decode_any_cursor c =
     (case decode_cursor parse_db_payload c of
        Inr p \<Rightarrow> Inr (Inr p)
      | Inl _ \<Rightarrow> map_sum id Inl (decode_cursor parse_sort_payload c))"

definition validate_any_cursor ::
    "canonical_json option \<Rightarrow> work_filters \<Rightarrow> (cursor_code, sort_cursor_payload + db_cursor_payload) result" where
  "validate_any_cursor c f =
     (case validate_db_cursor c f of
        Inr p \<Rightarrow> Inr (Inr p)
      | Inl Filter_mismatch \<Rightarrow> Inl Filter_mismatch
      | Inl _ \<Rightarrow> map_sum id Inl (validate_sort_cursor c f))"

text \<open>The cursor of the items endpoint: a database cursor, or an error that names why.\<close>

definition resume_position ::
    "work_filters \<Rightarrow> (cursor_code, db_cursor option) result" where
  "resume_position f =
     (case wf_cursor f of
        None \<Rightarrow> Inr None
      | Some c \<Rightarrow>
          (case validate_db_cursor c f of
             Inr p \<Rightarrow> Inr (Some \<lparr>dc_row = dp_row p, dc_id = dp_id p\<rparr>)
           | Inl Filter_mismatch \<Rightarrow> Inl Filter_mismatch
           | Inl _ \<Rightarrow>
               (case validate_sort_cursor c f of
                  Inr _ \<Rightarrow> Inl Malformed_cursor
                | Inl e \<Rightarrow> Inl e)))"

section \<open>Reading the table in chunks\<close>

definition row_key :: "onboarding_item \<Rightarrow> nat \<times> code_units" where
  "row_key item = (oi_row item, oi_id item)"

definition cursor_key :: "db_cursor \<Rightarrow> nat \<times> code_units" where
  "cursor_key c = (dc_row c, dc_id c)"

definition cursor_of :: "onboarding_item \<Rightarrow> db_cursor" where
  "cursor_of item = \<lparr>dc_row = oi_row item, dc_id = oi_id item\<rparr>"

text \<open>\<open>Math.max(1, Math.min(500, limit))\<close> and \<open>LIMIT n + 1\<close>.\<close>

definition rows_after :: "onboarding_item list \<Rightarrow> db_cursor option \<Rightarrow> onboarding_item list" where
  "rows_after table c =
     (let sorted = sort_key row_key table
      in case c of None \<Rightarrow> sorted | Some k \<Rightarrow> filter (\<lambda>i. cursor_key k < row_key i) sorted)"

record item_chunk =
  ic_items :: "onboarding_item list"
  ic_last :: "db_cursor option"
  ic_more :: bool

definition list_items_by_batch_chunked ::
    "onboarding_item list \<Rightarrow> nat \<Rightarrow> db_cursor option \<Rightarrow> item_chunk" where
  "list_items_by_batch_chunked table limit c =
     (let safe = max 1 (min 500 limit);
          rows = take (safe + 1) (rows_after table c);
          more = length rows > safe;
          page = (if more then take safe rows else rows)
      in \<lparr>ic_items = page,
          ic_last = (if page = [] then None else Some (cursor_of (last page))),
          ic_more = more\<rparr>)"

section \<open>Whole-batch projection\<close>

text \<open>\<open>WORK_STATE_PROJECTION_VERSION\<close> and the health record without its time stamp.\<close>

datatype health_status = Healthy | Degraded

record projection_health =
  ph_status :: health_status
  ph_version :: string
  ph_issues :: "health_issue list"

definition build_projection_health :: "health_issue list \<Rightarrow> projection_health" where
  "build_projection_health issues =
     \<lparr>ph_status = (if length issues > 0 then Degraded else Healthy), ph_version = ''1.0.0'',
      ph_issues = issues\<rparr>"

datatype endpoint_error = Critical_projection projection_health | Cursor_refused cursor_code

type_synonym work_counts = "work_category \<Rightarrow> nat"

definition init_counts :: work_counts where
  "init_counts = (\<lambda>_. 0)"

definition count_state :: "work_counts \<Rightarrow> work_state \<Rightarrow> work_counts" where
  "count_state n st = n(ws_category st := Suc (n (ws_category st)))"

definition project_item ::
    "platform \<Rightarrow> work_state_context \<Rightarrow> onboarding_item \<Rightarrow> work_state" where
  "project_item pf ctx item =
     (case derive_item_work_state pf item ctx of
        Inr st \<Rightarrow> st
      | Inl _ \<Rightarrow> corrupt_projection_fallback pf item corrupt_detail)"

definition is_corrupt :: "platform \<Rightarrow> work_state_context \<Rightarrow> onboarding_item \<Rightarrow> bool" where
  "is_corrupt pf ctx item = (\<not> is_ok (derive_item_work_state pf item ctx))"

record batch_states =
  ba_counts :: work_counts
  ba_filtered :: "work_state list"
  ba_health :: projection_health
  ba_total :: nat

definition derive_all_states_with_health ::
    "platform \<Rightarrow> batch_sources \<Rightarrow> onboarding_item list \<Rightarrow> work_filters \<Rightarrow>
     (endpoint_error, batch_states) result" where
  "derive_all_states_with_health pf src items f =
     (case build_batch_work_state_context src items of
        None \<Rightarrow> Inl (Critical_projection
          (build_projection_health [issue ''work_state'' ''context_build_failed'' (length items)]))
      | Some (ctx, critical) \<Rightarrow>
          if critical then Inl (Critical_projection (build_projection_health (wc_issues ctx)))
          else
            let states = map (project_item pf ctx) items;
                corrupt = length (filter (is_corrupt pf ctx) items)
            in Inr \<lparr>ba_counts = foldl count_state init_counts states,
                    ba_filtered = filter (\<lambda>st. matches_filters st f) states,
                    ba_health = build_projection_health (wc_issues ctx @
                       opt_issue (corrupt > 0) (issue ''onboarding_items'' ''corrupt_projection'' corrupt) @
                       opt_issue (length items > 0 \<and> length states = 0)
                         (issue ''work_state'' ''projection_empty_with_items'' (length items))),
                    ba_total = length states\<rparr>)"

section \<open>The items endpoint\<close>

definition page_limit :: "work_filters \<Rightarrow> nat" where
  "page_limit f = (case wf_limit f of Some l \<Rightarrow> if l > 0 then nat (min l 500) else 100 | None \<Rightarrow> 100)"

record work_page =
  pg_items :: "work_state list"
  pg_next :: "canonical_json option"
  pg_health :: projection_health
  pg_scanned :: nat
  pg_queries :: nat

text \<open>
  The loop over a chunk: at most \<open>n\<close> matching states, the issues of the corrupt items on the way,
  and the position of the last collected one.
\<close>

fun collect_chunk ::
    "platform \<Rightarrow> work_state_context \<Rightarrow> work_filters \<Rightarrow> nat \<Rightarrow> onboarding_item list \<Rightarrow>
     work_state list \<times> health_issue list \<times> db_cursor option" where
  "collect_chunk pf ctx f n [] = ([], [], None)"
| "collect_chunk pf ctx f n (item # items) =
     (let st = project_item pf ctx item;
          bad = opt_issue (is_corrupt pf ctx item) (issue ''onboarding_items'' ''corrupt_projection'' 1)
      in if matches_filters st f
         then if n \<le> 1 then ([st], bad, Some (cursor_of item))
              else let (sts, issues, c) = collect_chunk pf ctx f (n - 1) items
                   in (st # sts, bad @ issues, Some (case c of Some k \<Rightarrow> k | None \<Rightarrow> cursor_of item))
         else let (sts, issues, c) = collect_chunk pf ctx f n items in (sts, bad @ issues, c))"

definition next_cursor :: "work_filters \<Rightarrow> db_cursor \<Rightarrow> canonical_json" where
  "next_cursor f c =
     encode_db_cursor \<lparr>dp_row = dc_row c, dp_id = dc_id c, dp_hash = compute_work_state_filter_hash f\<rparr>"

definition chunk_size :: nat where "chunk_size = 50"

definition get_batch_work_state_items ::
    "platform \<Rightarrow> batch_sources \<Rightarrow> onboarding_item list \<Rightarrow> work_filters \<Rightarrow> (endpoint_error, work_page) result" where
  "get_batch_work_state_items pf src table f =
     (case resume_position f of
        Inl e \<Rightarrow> Inl (Cursor_refused e)
      | Inr pos \<Rightarrow>
          (let chunk = list_items_by_batch_chunked table chunk_size pos;
               items = ic_items chunk
           in if items = []
              then Inr \<lparr>pg_items = [], pg_next = None, pg_health = build_projection_health [],
                        pg_scanned = 0, pg_queries = 1\<rparr>
              else case build_batch_work_state_context src items of
                None \<Rightarrow> Inl (Critical_projection
                  (build_projection_health [issue ''work_state'' ''chunk_context_failed'' (length items)]))
              | Some (ctx, critical) \<Rightarrow>
                  if critical then Inl (Critical_projection (build_projection_health (wc_issues ctx)))
                  else
                    let (collected, issues, last_collected) = collect_chunk pf ctx f (page_limit f) items;
                        resume = (if length collected = page_limit f
                                  then (case last_collected of Some c \<Rightarrow> Some c | None \<Rightarrow> ic_last chunk)
                                  else if ic_more chunk then ic_last chunk else None)
                    in Inr \<lparr>pg_items = collected, pg_next = map_option (next_cursor f) resume,
                            pg_health = build_projection_health (wc_issues ctx @ issues),
                            pg_scanned = length items, pg_queries = 1\<rparr>))"

section \<open>The other endpoints\<close>

definition category_order :: "work_category \<Rightarrow> nat" where
  "category_order c =
     (case c of Needs_attention \<Rightarrow> 0 | Processing \<Rightarrow> 1 | Ready_for_review \<Rightarrow> 2 | Approved_work \<Rightarrow> 3
      | Ready_to_export \<Rightarrow> 4 | Completed_work \<Rightarrow> 5 | Skipped_work \<Rightarrow> 6)"

definition build_work_state_sort_key :: "work_category \<Rightarrow> code_units \<Rightarrow> code_units \<Rightarrow> code_units" where
  "build_work_state_sort_key category display item_id =
     (let title = take 64 (lower_units display)
      in units (show_nat (category_order category)) @ [58] @ title @ replicate (64 - length title) 32 @
         [58] @ item_id)"

definition state_sort_key :: "work_state \<Rightarrow> code_units" where
  "state_sort_key st =
     build_work_state_sort_key (ws_category st) (if ws_name st \<noteq> [] then ws_name st else ws_upc st) (ws_item st)"

text \<open>\<open>localeCompare\<close> is the platform's collation; \<open>Array.sort\<close> is a stable insertion by it.\<close>

definition compare_states :: "(code_units \<Rightarrow> code_units \<Rightarrow> int) \<Rightarrow> work_state \<Rightarrow> work_state \<Rightarrow> int" where
  "compare_states collate a b =
     (if state_sort_key a \<noteq> state_sort_key b then collate (state_sort_key a) (state_sort_key b)
      else collate (ws_item a) (ws_item b))"

fun insert_state :: "(work_state \<Rightarrow> work_state \<Rightarrow> int) \<Rightarrow> work_state \<Rightarrow> work_state list \<Rightarrow> work_state list" where
  "insert_state cmp x [] = [x]"
| "insert_state cmp x (y # ys) = (if cmp x y \<le> 0 then x # y # ys else y # insert_state cmp x ys)"

definition sort_states :: "(work_state \<Rightarrow> work_state \<Rightarrow> int) \<Rightarrow> work_state list \<Rightarrow> work_state list" where
  "sort_states cmp xs = foldr (insert_state cmp) xs []"

record batch_work_state =
  bw_counts :: work_counts
  bw_items :: "work_state list"
  bw_total :: nat
  bw_health :: projection_health

definition after_sort_cursor :: "sort_cursor_payload \<Rightarrow> work_state \<Rightarrow> bool" where
  "after_sort_cursor p st \<longleftrightarrow>
     sp_key p < state_sort_key st \<or> (state_sort_key st = sp_key p \<and> sp_item p < ws_item st)"

definition get_batch_work_state ::
    "platform \<Rightarrow> (code_units \<Rightarrow> code_units \<Rightarrow> int) \<Rightarrow> batch_sources \<Rightarrow> onboarding_item list \<Rightarrow> work_filters \<Rightarrow>
     (endpoint_error, batch_work_state) result" where
  "get_batch_work_state pf collate src items f =
     bind_res (derive_all_states_with_health pf src items f) (\<lambda>b.
       let filtered = ba_filtered b;
           answer = (\<lambda>page. \<lparr>bw_counts = ba_counts b, bw_items = page, bw_total = length filtered,
                              bw_health = ba_health b\<rparr>);
           offset = (case wf_offset f of Some k \<Rightarrow> if k > 0 then nat k else 0 | None \<Rightarrow> 0)
       in case wf_cursor f of
            Some c \<Rightarrow>
              (case validate_sort_cursor c f of
                 Inl e \<Rightarrow> Inl (Cursor_refused e)
               | Inr p \<Rightarrow> Inr (answer (take (page_limit f)
                   (dropWhile (\<lambda>st. \<not> after_sort_cursor p st)
                     (sort_states (compare_states collate) filtered)))))
          | None \<Rightarrow> Inr (answer (take (page_limit f) (drop offset filtered))))"

definition no_filters :: work_filters where
  "no_filters =
     \<lparr>wf_category = None, wf_q = None, wf_domain = None, wf_source_type = None, wf_cohort = None,
      wf_review = None, wf_limit = None, wf_offset = None, wf_cursor = None\<rparr>"

definition get_batch_work_state_counts ::
    "platform \<Rightarrow> batch_sources \<Rightarrow> onboarding_item list \<Rightarrow> (endpoint_error, work_counts) result" where
  "get_batch_work_state_counts pf src items =
     map_sum id ba_counts (derive_all_states_with_health pf src items no_filters)"

definition get_batch_work_state_counts_with_health ::
    "platform \<Rightarrow> batch_sources \<Rightarrow> onboarding_item list \<Rightarrow> work_filters \<Rightarrow>
     (endpoint_error, work_counts \<times> nat \<times> projection_health) result" where
  "get_batch_work_state_counts_with_health pf src items f =
     map_sum id (\<lambda>b. (ba_counts b, length (ba_filtered b), ba_health b))
       (derive_all_states_with_health pf src items f)"

text \<open>
  \<open>getBatchWorkStateForItems\<close> does not look at the critical flag; it throws only when the context
  cannot be built.
\<close>

definition get_batch_work_state_for_items ::
    "platform \<Rightarrow> batch_sources \<Rightarrow> onboarding_item list \<Rightarrow> ((code_units \<Rightarrow> work_state option) \<times> work_counts) option" where
  "get_batch_work_state_for_items pf src items =
     (case build_batch_work_state_context src items of
        None \<Rightarrow> None
      | Some (ctx, _) \<Rightarrow>
          (let state = (\<lambda>i. case derive_item_work_state pf i ctx of
                 Inr st \<Rightarrow> st
               | Inl _ \<Rightarrow> corrupt_projection_fallback pf i (units ''Corrupt work-state data''))
           in Some (foldl (\<lambda>m i. m(oi_id i \<mapsto> state i)) Map.empty items,
                    foldl count_state init_counts (map state items))))"

section \<open>Following cursors\<close>

text \<open>A client that follows cursors until there is none, with fuel.\<close>

fun fetch_pages ::
    "('c \<Rightarrow> ('e, 'p) result) \<Rightarrow> ('p \<Rightarrow> 'c option) \<Rightarrow> nat \<Rightarrow> 'c \<Rightarrow> ('e, 'p list) result option" where
  "fetch_pages fetch nxt 0 c = None"
| "fetch_pages fetch nxt (Suc n) c =
     (case fetch c of
        Inl e \<Rightarrow> Some (Inl e)
      | Inr p \<Rightarrow>
          (case nxt p of
             None \<Rightarrow> Some (Inr [p])
           | Some c' \<Rightarrow> map_option (map_sum id (Cons p)) (fetch_pages fetch nxt n c')))"

text \<open>
  Pages that show a list of rows part by part, in order and without gaps: every page but the last
  shows a nonempty prefix of what remained, the last one shows all that remained.
\<close>

fun pages_cover :: "('r list \<Rightarrow> 'p \<Rightarrow> 'r list \<Rightarrow> bool) \<Rightarrow> 'r list \<Rightarrow> 'p list \<Rightarrow> bool" where
  "pages_cover shows_part R [] \<longleftrightarrow> False"
| "pages_cover shows_part R [p] \<longleftrightarrow> shows_part R p R"
| "pages_cover shows_part R (p # ps) \<longleftrightarrow>
     (\<exists>part rest. R = part @ rest \<and> part \<noteq> [] \<and> shows_part R p part \<and> pages_cover shows_part rest ps)"

locale cursor_pages =
  fixes fetch :: "'c \<Rightarrow> ('e, 'p) result" and nxt :: "'p \<Rightarrow> 'c option"
    and valid :: "'c \<Rightarrow> bool" and remaining :: "'c \<Rightarrow> 'r list"
    and shows_part :: "'r list \<Rightarrow> 'p \<Rightarrow> 'r list \<Rightarrow> bool"
  assumes last_page: "valid c \<Longrightarrow> fetch c = Inr p \<Longrightarrow> nxt p = None \<Longrightarrow>
      shows_part (remaining c) p (remaining c)"
    and next_page: "valid c \<Longrightarrow> fetch c = Inr p \<Longrightarrow> nxt p = Some c' \<Longrightarrow>
      valid c' \<and> (\<exists>part. part \<noteq> [] \<and> remaining c = part @ remaining c' \<and> shows_part (remaining c) p part)"
begin

lemma fetch_terminates: "valid c \<Longrightarrow> length (remaining c) < n \<Longrightarrow> fetch_pages fetch nxt n c \<noteq> None"
proof (induction n arbitrary: c)
  case (Suc n)
  show ?case
  proof (cases "fetch c")
    case (Inr p)
    show ?thesis
    proof (cases "nxt p")
      case (Some c')
      with next_page [OF Suc.prems(1) Inr] obtain part
        where "valid c'" and "part \<noteq> []" and "remaining c = part @ remaining c'" by blast
      then have "length (remaining c') < n"
        using Suc.prems(2) by (cases part) auto
      with Suc.IH \<open>valid c'\<close> show ?thesis
        by (auto simp: Inr Some)
    qed (simp add: Inr)
  qed simp
qed simp

lemma fetch_covers:
  "valid c \<Longrightarrow> fetch_pages fetch nxt n c = Some (Inr ps) \<Longrightarrow> pages_cover shows_part (remaining c) ps"
proof (induction n arbitrary: c ps)
  case (Suc n)
  obtain p where p: "fetch c = Inr p"
    using Suc.prems(2) by (cases "fetch c") auto
  show ?case
  proof (cases "nxt p")
    case None
    then show ?thesis
      using Suc.prems p last_page [OF Suc.prems(1) p] by auto
  next
    case (Some c')
    then obtain qs where qs: "fetch_pages fetch nxt n c' = Some (Inr qs)" "ps = p # qs"
      using Suc.prems(2) p Some by (cases "fetch_pages fetch nxt n c'"; cases "the (fetch_pages fetch nxt n c')") auto
    obtain part where part: "valid c'" "part \<noteq> []" "remaining c = part @ remaining c'" "shows_part (remaining c) p part"
      using next_page [OF Suc.prems(1) p Some] by blast
    have "pages_cover shows_part (remaining c') qs"
      using Suc.IH part(1) qs(1) by blast
    moreover from this obtain q qs' where "qs = q # qs'"
      by (cases qs) auto
    ultimately show ?thesis
      using part qs(2) by auto
  qed
qed simp

end

section \<open>Facts about cursors and chunks\<close>

lemma filter_fields_ignore_cursor:
  "wf_category (f\<lparr>wf_cursor := c\<rparr>) = wf_category f" "wf_review (f\<lparr>wf_cursor := c\<rparr>) = wf_review f"
  "wf_source_type (f\<lparr>wf_cursor := c\<rparr>) = wf_source_type f" "wf_domain (f\<lparr>wf_cursor := c\<rparr>) = wf_domain f"
  "wf_cohort (f\<lparr>wf_cursor := c\<rparr>) = wf_cohort f" "wf_q (f\<lparr>wf_cursor := c\<rparr>) = wf_q f"
  "wf_limit (f\<lparr>wf_cursor := c\<rparr>) = wf_limit f"
  by simp_all

lemma filter_ignores_cursor [simp]:
  "matches_filters st (f\<lparr>wf_cursor := c\<rparr>) = matches_filters st f"
  "compute_work_state_filter_hash (f\<lparr>wf_cursor := c\<rparr>) = compute_work_state_filter_hash f"
  "page_limit (f\<lparr>wf_cursor := c\<rparr>) = page_limit f"
  "next_cursor (f\<lparr>wf_cursor := c\<rparr>) = next_cursor f"
  unfolding matches_filters_def compute_work_state_filter_hash_def filter_text_def filter_entries_def
      page_limit_def next_cursor_def filter_fields_ignore_cursor by (rule refl)+

lemma collect_ignores_cursor [simp]:
  "collect_chunk pf ctx (f\<lparr>wf_cursor := c\<rparr>) n items = collect_chunk pf ctx f n items"
  by (induction items arbitrary: n) (simp_all add: Let_def)

lemma filter_hash_shape: "is_hash_text (compute_work_state_filter_hash f)"
proof -
  let ?h = "sha256_hex (utf8_encode (filter_text f))"
  have "is_sha256_hex ?h"
    by (simp add: sha256_hex_def sha256_def pure_sha256_hex)
  then show ?thesis
    by (auto simp: compute_work_state_filter_hash_def is_hash_text_def is_sha256_hex_def units_def list_all_iff
        dest!: in_set_takeD) fastforce+
qed

lemma parse_encoded_db_cursor:
  "is_hash_text (dp_hash p) \<Longrightarrow> parse_db_payload (encode_db_cursor p) = Some p"
  by (simp add: parse_db_payload_def encode_db_cursor_def only_keys_def jget_def jstring_def)

lemma resume_next:
  "resume_position (f\<lparr>wf_cursor := Some (Some (next_cursor f k))\<rparr>) = Inr (Some k)"
  by (simp add: resume_position_def validate_db_cursor_def decode_cursor_def next_cursor_def
      parse_encoded_db_cursor filter_hash_shape)

lemma page_limit_pos: "page_limit f \<ge> 1"
  by (auto simp: page_limit_def split: option.splits)

lemma inj_row_key: "distinct (map oi_id items) \<Longrightarrow> distinct (map row_key items)"
  by (auto simp: distinct_conv_nth row_key_def)

lemma rows_after_split:
  assumes "distinct (map oi_id table)" and "sort_key row_key table = pre @ r # post"
  shows "rows_after table (Some (cursor_of r)) = post"
proof -
  have key: "cursor_key (cursor_of r) = row_key r"
    by (simp add: cursor_key_def cursor_of_def row_key_def)
  have "distinct (map row_key (sort_key row_key table))"
    using inj_row_key [OF assms(1)] by (simp add: distinct_map)
  moreover have "sorted (map row_key (sort_key row_key table))"
    by simp
  ultimately have "sorted_wrt (<) (map row_key pre @ row_key r # map row_key post)"
    unfolding assms(2) by (simp add: strict_sorted_iff)
  then have "filter (\<lambda>i. row_key r < row_key i) pre = []" "filter (\<lambda>i. row_key r < row_key i) post = post"
    by (auto simp: sorted_wrt_append filter_empty_conv filter_id_conv dest: less_asym)
  then show ?thesis
    by (simp add: rows_after_def assms(2) key)
qed


lemma rows_after_start: "rows_after table None = sort_key row_key table"
  by (simp add: rows_after_def)

text \<open>What remains after a chunk's rows were consumed.\<close>

lemma chunk_read:
  "ic_items (list_items_by_batch_chunked table chunk_size c) = take 50 (rows_after table c)"
  "ic_more (list_items_by_batch_chunked table chunk_size c) = (length (rows_after table c) > 50)"
  "rows_after table c \<noteq> [] \<Longrightarrow>
     ic_last (list_items_by_batch_chunked table chunk_size c) = Some (cursor_of (last (take 50 (rows_after table c))))"
  by (auto simp: list_items_by_batch_chunked_def chunk_size_def Let_def min_def)

lemma collect_chunk_spec:
  assumes "n \<ge> 1" and "collect_chunk pf ctx f n items = (sts, issues, c)"
  shows "\<exists>part rest. items = part @ rest \<and>
      sts = filter (\<lambda>st. matches_filters st f) (map (project_item pf ctx) part) \<and>
      (if length sts = n then part \<noteq> [] \<and> c = Some (cursor_of (last part)) else rest = [])"
  using assms
proof (induction items arbitrary: n sts issues c)
  case (Cons item items)
  let ?st = "project_item pf ctx item"
  show ?case
  proof (cases "matches_filters ?st f \<and> n \<le> 1")
    case True
    then show ?thesis
      using Cons.prems by (intro exI [of _ "[item]"] exI [of _ items]) (auto simp: Let_def)
  next
    case False
    let ?n = "if matches_filters ?st f then n - 1 else n"
    obtain sts' issues' c' where r: "collect_chunk pf ctx f ?n items = (sts', issues', c')"
      by (metis prod_cases3)
    have "?n \<ge> 1" using False Cons.prems(1) by auto
    from Cons.IH [OF this r] obtain part rest where ih: "items = part @ rest"
      "sts' = filter (\<lambda>st. matches_filters st f) (map (project_item pf ctx) part)"
      "if length sts' = ?n then part \<noteq> [] \<and> c' = Some (cursor_of (last part)) else rest = []"
      by blast
    have "sts = (if matches_filters ?st f then ?st # sts' else sts')"
      and "length sts' = ?n \<Longrightarrow> c = c'"
      using Cons.prems(2) False r ih(3) by (auto simp: Let_def split: if_splits)
    then show ?thesis
      using ih False Cons.prems(1) by (intro exI [of _ "item # part"] exI [of _ rest]) (auto split: if_splits)
  qed
qed auto

text \<open>What a page shows of the rows that remained when it was asked for.\<close>

definition page_shows ::
    "platform \<Rightarrow> batch_sources \<Rightarrow> work_filters \<Rightarrow> onboarding_item list \<Rightarrow> work_page \<Rightarrow> onboarding_item list \<Rightarrow> bool" where
  "page_shows pf src f R page part \<longleftrightarrow>
     (if R = [] then pg_items page = [] \<and> part = []
      else \<exists>ctx. build_batch_work_state_context src (take 50 R) = Some (ctx, False) \<and>
        pg_items page = filter (\<lambda>st. matches_filters st f) (map (project_item pf ctx) part))"

definition fetch_items ::
    "platform \<Rightarrow> batch_sources \<Rightarrow> onboarding_item list \<Rightarrow> work_filters \<Rightarrow> canonical_json option option \<Rightarrow>
     (endpoint_error, work_page) result" where
  "fetch_items pf src table f c = get_batch_work_state_items pf src table (f\<lparr>wf_cursor := c\<rparr>)"

definition next_request :: "work_page \<Rightarrow> canonical_json option option option" where
  "next_request p = map_option (\<lambda>j. Some (Some j)) (pg_next p)"

text \<open>Requests a client can make: the first one, or a cursor some page handed out for these filters.\<close>

definition good_request :: "onboarding_item list \<Rightarrow> work_filters \<Rightarrow> canonical_json option option \<Rightarrow> bool" where
  "good_request table f c \<longleftrightarrow> distinct (map oi_id table) \<and>
     (c = None \<or> (\<exists>r \<in> set table. c = Some (Some (next_cursor f (cursor_of r)))))"

definition rows_remaining :: "onboarding_item list \<Rightarrow> work_filters \<Rightarrow> canonical_json option option \<Rightarrow> onboarding_item list" where
  "rows_remaining table f c =
     (case resume_position (f\<lparr>wf_cursor := c\<rparr>) of Inl _ \<Rightarrow> [] | Inr pos \<Rightarrow> rows_after table pos)"

lemma resume_first [simp]: "resume_position (f\<lparr>wf_cursor := None\<rparr>) = Inr None"
  by (simp add: resume_position_def)

lemma remaining_suffix:
  assumes "good_request table f c"
  shows "\<exists>pre. sort_key row_key table = pre @ rows_remaining table f c"
proof (cases "c = None")
  case True
  then show ?thesis by (simp add: rows_remaining_def rows_after_start)
next
  case False
  then obtain r where r: "r \<in> set table" "c = Some (Some (next_cursor f (cursor_of r)))" and d: "distinct (map oi_id table)"
    using assms by (auto simp: good_request_def)
  then obtain pre post where S: "sort_key row_key table = pre @ r # post"
    by (metis set_sort split_list)
  have "rows_remaining table f c = post"
    using rows_after_split [OF d S] by (simp add: rows_remaining_def r(2) resume_next)
  with S show ?thesis by (intro exI [of _ "pre @ [r]"]) simp
qed

lemma page_step:
  assumes good: "good_request table f c" and page: "fetch_items pf src table f c = Inr p"
  shows "\<exists>part rest. rows_remaining table f c = part @ rest \<and>
    page_shows pf src f (rows_remaining table f c) p part \<and>
    (case pg_next p of
       None \<Rightarrow> rest = []
     | Some j \<Rightarrow> part \<noteq> [] \<and> j = next_cursor f (cursor_of (last part)))"
proof -
  obtain pos where pos: "resume_position (f\<lparr>wf_cursor := c\<rparr>) = Inr pos"
    using good by (auto simp: good_request_def resume_next)
  define R where "R = rows_after table pos"
  have R: "rows_remaining table f c = R"
    by (simp add: rows_remaining_def pos R_def)
  show ?thesis
  proof (cases "R = []")
    case True
    then have "pg_items p = []" "pg_next p = None"
      using page by (auto simp: fetch_items_def get_batch_work_state_items_def pos Let_def chunk_read R_def)
    then show ?thesis
      by (simp add: R True page_shows_def)
  next
    case False
    obtain ctx where ctx: "build_batch_work_state_context src (take 50 R) = Some (ctx, False)"
      using page False by (auto simp: fetch_items_def get_batch_work_state_items_def pos Let_def chunk_read R_def
          split: option.splits if_splits prod.splits)
    obtain sts issues k where col: "collect_chunk pf ctx f (page_limit f) (take 50 R) = (sts, issues, k)"
      by (metis prod_cases3)
    obtain part rest where part: "take 50 R = part @ rest"
      "sts = filter (\<lambda>st. matches_filters st f) (map (project_item pf ctx) part)"
      "if length sts = page_limit f then part \<noteq> [] \<and> k = Some (cursor_of (last part)) else rest = []"
      using collect_chunk_spec [OF page_limit_pos col] by blast
    have p: "pg_items p = sts"
      "pg_next p = map_option (next_cursor f)
         (if length sts = page_limit f then (case k of Some c \<Rightarrow> Some c | None \<Rightarrow> Some (cursor_of (last (take 50 R))))
          else if length R > 50 then Some (cursor_of (last (take 50 R))) else None)"
      using page False ctx col chunk_read(3) [of table pos]
      by (auto simp: fetch_items_def get_batch_work_state_items_def pos Let_def chunk_read(1,2) R_def split: option.splits)
    have "R = part @ (rest @ drop 50 R)"
      by (metis append_assoc append_take_drop_id part(1))
    moreover have "page_shows pf src f R p part"
      using False ctx part(2) p(1) by (auto simp: page_shows_def)
    moreover have "case pg_next p of None \<Rightarrow> rest @ drop 50 R = []
        | Some j \<Rightarrow> part \<noteq> [] \<and> j = next_cursor f (cursor_of (last part))"
      using part False unfolding p(2) by (auto split: if_splits)
    ultimately show ?thesis unfolding R by blast
  qed
qed

interpretation work_pages: cursor_pages "fetch_items pf src table f" next_request "good_request table f"
    "rows_remaining table f" "page_shows pf src f" for pf src table f
proof
  fix c p
  assume good: "good_request table f c" and page: "fetch_items pf src table f c = Inr p"
  obtain part rest where part: "rows_remaining table f c = part @ rest"
      "page_shows pf src f (rows_remaining table f c) p part"
      "case pg_next p of None \<Rightarrow> rest = [] | Some j \<Rightarrow> part \<noteq> [] \<and> j = next_cursor f (cursor_of (last part))"
    using page_step [OF good page] by blast
  show "page_shows pf src f (rows_remaining table f c) p (rows_remaining table f c)" if "next_request p = None"
    using that part by (simp add: next_request_def)
  show "good_request table f c' \<and> (\<exists>part. part \<noteq> [] \<and>
      rows_remaining table f c = part @ rows_remaining table f c' \<and>
      page_shows pf src f (rows_remaining table f c) p part)" if "next_request p = Some c'" for c'
  proof -
    have c': "c' = Some (Some (next_cursor f (cursor_of (last part))))" and "part \<noteq> []"
      using that part(3) by (auto simp: next_request_def)
    obtain pre where S: "sort_key row_key table = pre @ rows_remaining table f c"
      using remaining_suffix [OF good] by blast
    have "last part \<in> set (rows_remaining table f c)"
      using part(1) \<open>part \<noteq> []\<close> by simp
    then have "last part \<in> set table"
      using S by (metis UnCI set_append set_sort)
    moreover have "sort_key row_key table = (pre @ butlast part) @ last part # rest"
      using S part(1) \<open>part \<noteq> []\<close> by simp
    then have "rows_remaining table f c' = rest"
      using rows_after_split [of table] good by (simp add: rows_remaining_def c' resume_next good_request_def)
    ultimately show ?thesis
      using good part \<open>part \<noteq> []\<close> by (auto simp: good_request_def c')
  qed
qed


section \<open>Facts about projections\<close>

lemma project_item_id [simp]: "ws_item (project_item pf ctx item) = oi_id item"
  using derive_Inr(6) [of pf item ctx]
  by (cases "derive_item_work_state pf item ctx")
    (simp_all add: project_item_def corrupt_projection_fallback_def)

lemma page_shows_ids:
  assumes "page_shows pf src f R p part" and "distinct (map oi_id part)"
  shows "distinct (map ws_item (pg_items p)) \<and> set (map ws_item (pg_items p)) \<subseteq> set (map oi_id part)"
proof (cases "R = []")
  case False
  then obtain ctx where "pg_items p = filter (\<lambda>st. matches_filters st f) (map (project_item pf ctx) part)"
    using assms(1) by (auto simp: page_shows_def)
  then have "map ws_item (pg_items p) = map oi_id (filter (\<lambda>i. matches_filters (project_item pf ctx i) f) part)"
    by (simp add: filter_map comp_def)
  then show ?thesis
    using assms(2) by (auto simp only: distinct_map_filter set_map set_filter)
qed (use assms in \<open>simp add: page_shows_def\<close>)

lemma disjoint_parts:
  "distinct A \<and> set A \<subseteq> set X \<Longrightarrow> distinct B \<and> set B \<subseteq> set Y \<Longrightarrow> distinct (X @ Y) \<Longrightarrow>
     distinct (A @ B) \<and> set (A @ B) \<subseteq> set (X @ Y)"
  by auto

lemma pages_show_once:
  assumes "pages_cover (page_shows pf src f) R pages" and "distinct (map oi_id R)"
  shows "distinct (map ws_item (concat (map pg_items pages))) \<and>
    set (map ws_item (concat (map pg_items pages))) \<subseteq> set (map oi_id R)"
  using assms
proof (induction "page_shows pf src f" R pages rule: pages_cover.induct)
  case (2 R p)
  then show ?case
    using page_shows_ids [of pf src f R p R] by simp
next
  case (3 R p q ps)
  then obtain part rest where part: "R = part @ rest" "page_shows pf src f R p part"
      "pages_cover (page_shows pf src f) rest (q # ps)"
    by auto
  have "distinct (map ws_item (concat (map pg_items (q # ps)))) \<and>
      set (map ws_item (concat (map pg_items (q # ps)))) \<subseteq> set (map oi_id rest)"
    using 3 part by auto
  moreover have "distinct (map ws_item (pg_items p)) \<and> set (map ws_item (pg_items p)) \<subseteq> set (map oi_id part)"
    using part(1,2) "3.prems"(2) page_shows_ids [of pf src f R p part] by simp
  ultimately show ?case
    using disjoint_parts [of "map ws_item (pg_items p)" "map oi_id part"
        "map ws_item (concat (map pg_items (q # ps)))" "map oi_id rest"] part(1) "3.prems"(2) by simp
qed simp

lemma foldl_count: "foldl count_state n sts c = n c + length (filter (\<lambda>st. ws_category st = c) sts)"
  by (induction sts arbitrary: n) (auto simp: count_state_def)

definition all_categories :: "work_category list" where
  "all_categories = [Processing, Needs_attention, Ready_for_review, Approved_work, Ready_to_export,
     Completed_work, Skipped_work]"

lemma counts_add_up:
  "sum_list (map (\<lambda>c. length (filter (\<lambda>st. ws_category st = c) sts)) all_categories) = length sts"
proof (induction sts)
  case (Cons st sts)
  then show ?case
    by (cases "ws_category st") (simp_all add: all_categories_def)
qed (simp add: all_categories_def)

text \<open>A failed bulk read always leaves an issue that is marked critical.\<close>

lemma health_None [simp]: "snd (with_health ids fb r) = None \<longleftrightarrow> is_ok r"
  by (cases r) (simp_all add: with_health_def)

lemma query_table_ok [simp]: "is_ok (query_table s e t f) \<longleftrightarrow> t \<noteq> None"
  by (cases t) (simp_all add: query_table_def)

lemma issues_none:
  "List.map_filter id (x # xs) = [] \<longleftrightarrow> x = None \<and> List.map_filter id xs = []" for x :: "health_issue option"
  by (cases x) (simp_all add: List.map_filter_simps)

lemma not_critical_reads:
  assumes "build_batch_work_state_context src items = Some (ctx, False)"
  shows "bs_workspace src \<noteq> None \<and> bs_reviews src \<noteq> None \<and> bs_cohort_views src items \<noteq> None"
    and "items \<noteq> [] \<Longrightarrow> db_source_items (bs_db src) \<noteq> None \<and> db_variants (bs_db src) \<noteq> None \<and>
       db_dispositions (bs_db src) \<noteq> None \<and> db_cohort_runs (bs_db src) \<noteq> None \<and> db_runs (bs_db src) \<noteq> None"
proof -
  obtain ws where ws: "bs_workspace src = Some ws"
    using assms by (cases "bs_workspace src") (simp_all add: build_batch_work_state_context_def)
  note crit = assms [unfolded build_batch_work_state_context_def ws option.case Let_def case_prod_beta,
      simplified option.inject prod.inject]
  show "bs_workspace src \<noteq> None \<and> bs_reviews src \<noteq> None \<and> bs_cohort_views src items \<noteq> None"
    using crit by (simp add: ws)
  let ?ids = "map oi_id items" and ?db = "bs_db src"
  have ok: "is_ok (bulk_count_discovery_candidates ?db ?ids) \<and> is_ok (bulk_load_variant_resolutions ?db ?ids) \<and>
      is_ok (bulk_load_variant_dispositions ?db ?ids) \<and> is_ok (bulk_get_cohort_run_status_by_item ?db ?ids) \<and>
      is_ok (bulk_get_latest_run_id_by_item ?db ?ids)"
    using crit by (simp only: issues_none candidates_with_health_def health_None de_Morgan_disj not_not simp_thms)
  show "db_source_items (bs_db src) \<noteq> None \<and> db_variants (bs_db src) \<noteq> None \<and>
       db_dispositions (bs_db src) \<noteq> None \<and> db_cohort_runs (bs_db src) \<noteq> None \<and> db_runs (bs_db src) \<noteq> None"
    if "items \<noteq> []"
    using ok that
    by (simp add: bulk_count_discovery_candidates_def
        bulk_load_variant_resolutions_def bulk_load_variant_dispositions_def
        bulk_get_cohort_run_status_by_item_def bulk_get_latest_run_id_by_item_def)
qed


section \<open>Samples\<close>

definition healthy_db :: work_db where
  "healthy_db = \<lparr>db_variants = Some [], db_dispositions = Some [], db_source_items = Some [],
                  db_cohort_runs = Some [], db_runs = Some [], db_stage_results = Some []\<rparr>"

definition healthy_sources :: batch_sources where
  "healthy_sources =
     \<lparr>bs_reviews = Some Map.empty, bs_cohort_views = (\<lambda>_. Some []), bs_workspace = Some (units ''w''),
      bs_draft_links = (\<lambda>_ _. Some Map.empty), bs_change_sets = (\<lambda>_ _. Some Map.empty),
      bs_db = healthy_db, bs_readiness = (\<lambda>_ _. Some ready_checklist)\<rparr>"

lemma healthy_context:
  "\<exists>ctx. build_batch_work_state_context healthy_sources items = Some (ctx, False)"
proof -
  have ok: "snd (with_health ids fb r) = None" if "is_ok r" for ids :: "code_units list" and fb :: 'z and r
    using that by simp
  have loaders: "is_ok (bulk_count_discovery_candidates healthy_db ids)"
      "is_ok (bulk_load_variant_resolutions healthy_db ids)" "is_ok (bulk_load_variant_dispositions healthy_db ids)"
      "is_ok (bulk_get_cohort_run_status_by_item healthy_db ids)" "is_ok (bulk_get_latest_run_id_by_item healthy_db ids)"
      "is_ok (bulk_get_stage_results healthy_db ids)" for ids
    by (simp_all add: healthy_db_def bulk_count_discovery_candidates_def bulk_load_variant_resolutions_def
        bulk_load_variant_dispositions_def bulk_get_cohort_run_status_by_item_def
        bulk_get_latest_run_id_by_item_def bulk_get_stage_results_def)
  show ?thesis
    by (simp add: build_batch_work_state_context_def healthy_sources_def Let_def case_prod_beta
        candidates_with_health_def ok loaders load_releases_def)
qed

section \<open>Properties\<close>



text \<open>
  C34. A cursor resumes exactly where its page ended, and only under the filters it was issued for:
  decoding the cursor handed out for filters \<open>g\<close> in a request with filters \<open>f\<close> gives back the
  position when both have the same filter hash, and a filter mismatch otherwise, never a position.
\<close>

theorem cursor_bound_to_filters:
  "resume_position (f\<lparr>wf_cursor := Some (Some (next_cursor g k))\<rparr>) =
     (if compute_work_state_filter_hash g = compute_work_state_filter_hash f
      then Inr (Some k) else Inl Filter_mismatch)"
  by (simp add: resume_position_def validate_db_cursor_def decode_cursor_def next_cursor_def
      parse_encoded_db_cursor filter_hash_shape)

text \<open>
  C28. Paging shows the batch completely and once: when item ids are unique and every page could be
  read, the pages a client gets by following the cursors split the table, in row order, into
  consecutive parts; each page shows exactly the matching projections of its part, the last page
  all that remained, and no item appears twice.
\<close>

theorem paging_covers_the_batch:
  assumes "distinct (map oi_id table)"
    and "fetch_pages (fetch_items pf src table f) next_request n None = Some (Inr pages)"
  shows "pages_cover (page_shows pf src f) (sort_key row_key table) pages \<and>
    distinct (map ws_item (concat (map pg_items pages)))"
proof -
  have good: "good_request table f None"
    using assms(1) by (simp add: good_request_def)
  have cover: "pages_cover (page_shows pf src f) (sort_key row_key table) pages"
    using work_pages.fetch_covers [OF good assms(2)]
    by (simp add: rows_remaining_def rows_after_start)
  have "distinct (map oi_id (sort_key row_key table))"
    using assms(1) by (simp add: distinct_map)
  with pages_show_once [OF cover] cover show ?thesis by simp
qed

text \<open>
  C33. Paging ends: following cursors through a batch with unique ids needs at most one request per
  row and one more, whatever the filters and page size, also when a page fails.
\<close>

theorem paging_terminates:
  assumes "distinct (map oi_id table)" and "length table < n"
  shows "fetch_pages (fetch_items pf src table f) next_request n None \<noteq> None"
  using work_pages.fetch_terminates [of table f None n pf src] assms
  by (simp add: good_request_def rows_remaining_def rows_after_start)

definition sample_table :: "onboarding_item list" where
  "sample_table = [sample_item, sample_item\<lparr>oi_id := units ''i2'', oi_row := 2\<rparr>]"

lemma sample_distinct: "distinct (map oi_id sample_table)"
  by (simp add: sample_table_def sample_item_def)

theorem paging_terminates_witness:
  "fetch_pages (fetch_items sample_platform healthy_sources sample_table no_filters) next_request 3 None \<noteq> None"
  by (rule paging_terminates [OF sample_distinct]) (simp add: sample_table_def)

lemma healthy_page:
  assumes "good_request table f c"
  shows "\<exists>p. fetch_items pf healthy_sources table f c = Inr p"
proof -
  obtain pos where "resume_position (f\<lparr>wf_cursor := c\<rparr>) = Inr pos"
    using assms by (auto simp: good_request_def resume_next)
  moreover obtain ctx where "build_batch_work_state_context healthy_sources
      (ic_items (list_items_by_batch_chunked table chunk_size pos)) = Some (ctx, False)"
    using healthy_context by blast
  ultimately show ?thesis
    by (auto simp: fetch_items_def get_batch_work_state_items_def Let_def split: prod.splits)
qed

lemma healthy_fetch:
  "good_request table f c \<Longrightarrow> fetch_pages (fetch_items pf healthy_sources table f) next_request n c = Some r \<Longrightarrow>
     \<exists>ps. r = Inr ps"
proof (induction n arbitrary: c r)
  case (Suc n)
  obtain p where p: "fetch_items pf healthy_sources table f c = Inr p"
    using healthy_page [OF Suc.prems(1)] by blast
  show ?case
  proof (cases "next_request p")
    case (Some c')
    then obtain z where z: "fetch_pages (fetch_items pf healthy_sources table f) next_request n c' = Some z"
        "r = map_sum id (Cons p) z"
      using Suc.prems(2) p by auto
    then show ?thesis
      using Suc.IH work_pages.next_page [OF Suc.prems(1) p Some] by fastforce
  qed (use Suc.prems p in auto)
qed simp

theorem paging_covers_the_batch_witness:
  "\<exists>pages. fetch_pages (fetch_items sample_platform healthy_sources sample_table no_filters) next_request 3 None
       = Some (Inr pages) \<and>
     pages_cover (page_shows sample_platform healthy_sources no_filters) (sort_key row_key sample_table) pages"
proof -
  have good: "good_request sample_table no_filters None"
    using sample_distinct by (simp add: good_request_def)
  have "fetch_pages (fetch_items sample_platform healthy_sources sample_table no_filters) next_request 3 None \<noteq> None"
    using work_pages.fetch_terminates [OF good, of 3 sample_platform healthy_sources]
    by (simp add: rows_remaining_def rows_after_start sample_table_def)
  then obtain pages where pages: "fetch_pages (fetch_items sample_platform healthy_sources sample_table no_filters)
      next_request 3 None = Some (Inr pages)"
    using healthy_fetch [OF good] by blast
  show ?thesis
    using paging_covers_the_batch [OF sample_distinct pages] pages by blast
qed


end
