(* ===== verification/ActionDiff.thy ===== *)
theory ActionDiff
  imports JsonObjects
begin

text \<open>
  The action diff of the Store Manager (\<open>src/src/shared/schemas/store-manager-diff.ts\<close> and
  \<open>src/src/store-manager/runtime/action-preview.ts\<close>): the deterministic preview an operator
  approves before a persistent tool runs, and the content hash the approval is bound to. Strings
  are opaque; the time of generation is an argument.
\<close>

section \<open>Vocabulary of the tools\<close>

datatype risk_class = Read_risk | Proposal_write | Catalog_mutation | Network_repair

fun risk_name :: "risk_class \<Rightarrow> string" where
  "risk_name Read_risk = ''read''" | "risk_name Proposal_write = ''proposal_write''"
| "risk_name Catalog_mutation = ''catalog_mutation''" | "risk_name Network_repair = ''network_filesystem_repair''"

lemma risk_name_inj [simp]: "risk_name a = risk_name b \<longleftrightarrow> a = b"
  by (cases a; cases b) simp_all

section \<open>The diff\<close>

datatype network_activity =
    No_network
  | Bounded_network "string list" int "string option"
  | Unknown_network string

record before_after =
  ba_field :: string
  ba_sku :: "string option"
  ba_before :: string
  ba_after :: string
  ba_count :: "int option"

record file_touch =
  ft_path :: string
  ft_note :: "string option"

record change_set_state =
  cs_id :: "string option"
  cs_current :: "string option"
  cs_expected :: "string option"
  cs_count :: "int option"

text \<open>Everything the hash covers, and the diff with its time and its hash.\<close>

record diff_content =
  df_tool :: string
  df_version :: int
  df_risk :: risk_class
  df_workspace :: string
  df_scope :: "string option"
  df_sku_count :: int
  df_skus :: "string list"
  df_truncated :: bool
  df_rows :: "before_after list"
  df_files :: "file_touch list"
  df_change_set :: "change_set_state option"
  df_network :: network_activity
  df_evidence :: "string list"
  df_states :: "(string \<times> string) list"

record action_diff = diff_content +
  df_generated :: string
  df_hash :: string

section \<open>Its schema\<close>

definition bounded :: "nat \<Rightarrow> string \<Rightarrow> bool" where
  "bounded n s \<longleftrightarrow> 1 \<le> length s \<and> length s \<le> n"

definition count_ok :: "int \<Rightarrow> int \<Rightarrow> bool" where
  "count_ok most n \<longleftrightarrow> 0 \<le> n \<and> n \<le> most"

fun network_ok :: "network_activity \<Rightarrow> bool" where
  "network_ok No_network = True"
| "network_ok (Bounded_network hosts requests note) =
     ((\<forall>h \<in> set hosts. bounded 200 h) \<and> length hosts \<le> 20 \<and> count_ok 10000 requests \<and>
      pred_option (\<lambda>s. length s \<le> 300) note)"
| "network_ok (Unknown_network note) = (length note \<le> 300)"

definition row_ok :: "before_after \<Rightarrow> bool" where
  "row_ok r \<longleftrightarrow> bounded 200 (ba_field r) \<and> pred_option (bounded 128) (ba_sku r) \<and>
     length (ba_before r) \<le> 1000 \<and> length (ba_after r) \<le> 1000 \<and> pred_option (count_ok 5000) (ba_count r)"

definition touch_ok :: "file_touch \<Rightarrow> bool" where
  "touch_ok t \<longleftrightarrow> bounded 300 (ft_path t) \<and> pred_option (\<lambda>s. length s \<le> 200) (ft_note t)"

definition change_set_ok :: "change_set_state \<Rightarrow> bool" where
  "change_set_ok c \<longleftrightarrow> pred_option (bounded 200) (cs_id c) \<and> pred_option (bounded 100) (cs_current c) \<and>
     pred_option (bounded 100) (cs_expected c) \<and> pred_option (count_ok 5000) (cs_count c)"

text \<open>
  \<open>StoreManagerActionDiffSchema.safeParse\<close>; the schema transforms nothing. The bound on state
  hashes limits the length of each key, not how many there are.
\<close>

definition parse_action_diff :: "action_diff \<Rightarrow> action_diff option" where
  "parse_action_diff d =
     (if bounded 200 (df_tool d) \<and> 0 < df_version d \<and> df_version d \<le> max_safe_integer \<and>
         bounded 200 (df_workspace d) \<and> pred_option is_sha256_hex (df_scope d) \<and>
         count_ok 5000 (df_sku_count d) \<and>
         (\<forall>s \<in> set (df_skus d). bounded 128 s) \<and> length (df_skus d) \<le> 200 \<and>
         (\<forall>r \<in> set (df_rows d). row_ok r) \<and> length (df_rows d) \<le> 50 \<and>
         (\<forall>t \<in> set (df_files d). touch_ok t) \<and> length (df_files d) \<le> 100 \<and>
         pred_option change_set_ok (df_change_set d) \<and> network_ok (df_network d) \<and>
         (\<forall>r \<in> set (df_evidence d). bounded 200 r) \<and> length (df_evidence d) \<le> 50 \<and>
         (\<forall>(k, h) \<in> set (df_states d). bounded 30 k \<and> length h \<le> 64) \<and>
         bounded 64 (df_generated d) \<and> is_sha256_hex (df_hash d)
      then Some d else None)"

section \<open>Its hash\<close>

fun network_fields :: "network_activity \<Rightarrow> (string \<times> js_value) list" where
  "network_fields No_network = [(''kind'', jstr ''none'')]"
| "network_fields (Bounded_network hosts requests note) =
     [(''kind'', jstr ''bounded''), (''hosts'', plain_array (map jstr hosts)),
       (''requestCount'', jint requests)] @ optional ''note'' jstr note"
| "network_fields (Unknown_network note) = [(''kind'', jstr ''unknown''), (''note'', jstr note)]"

definition network_value :: "network_activity \<Rightarrow> js_value" where
  "network_value n = object_of (network_fields n)"

definition row_value :: "before_after \<Rightarrow> js_value" where
  "row_value r = object_of ([(''field'', jstr (ba_field r))] @ optional ''sku'' jstr (ba_sku r) @
     [(''before'', jstr (ba_before r)), (''after'', jstr (ba_after r))] @
     optional ''affectedCount'' jint (ba_count r))"

definition touch_value :: "file_touch \<Rightarrow> js_value" where
  "touch_value t = object_of ([(''path'', jstr (ft_path t))] @ optional ''note'' jstr (ft_note t))"

definition change_set_value :: "change_set_state \<Rightarrow> js_value" where
  "change_set_value c = object_of (optional ''id'' jstr (cs_id c) @
     [(''currentState'', nullable jstr (cs_current c))] @
     optional ''expectedState'' jstr (cs_expected c) @ optional ''itemCount'' jint (cs_count c))"

definition content_fields :: "'a diff_content_scheme \<Rightarrow> (string \<times> js_value) list" where
  "content_fields d =
     [(''schemaVersion'', jint 1), (''toolName'', jstr (df_tool d)), (''toolVersion'', jint (df_version d)),
      (''riskClass'', jstr (risk_name (df_risk d))), (''workspaceId'', jstr (df_workspace d)),
      (''scopeHash'', nullable jstr (df_scope d)), (''affectedSkuCount'', jint (df_sku_count d)),
      (''affectedSkus'', plain_array (map jstr (df_skus d))),
      (''affectedSkusTruncated'', V_bool (df_truncated d)),
      (''beforeAfter'', plain_array (map row_value (df_rows d))),
      (''filesTouched'', plain_array (map touch_value (df_files d))),
      (''changeSet'', nullable change_set_value (df_change_set d)),
      (''networkActivity'', network_value (df_network d)),
      (''evidenceRefs'', plain_array (map jstr (df_evidence d))),
      (''stateHashes'', object_of (map (map_prod id jstr) (df_states d)))]"

definition content_value :: "'a diff_content_scheme \<Rightarrow> js_value" where
  "content_value d = object_of (content_fields d)"

definition compute_action_diff_hash :: "'a diff_content_scheme \<Rightarrow> (json_error, string) result" where
  "compute_action_diff_hash d = hash_canonical_json (content_value d)"

section \<open>Building a diff\<close>

text \<open>What an adapter passes; \<^term>\<open>None\<close> is a property left out.\<close>

record diff_input =
  in_tool :: string
  in_version :: int
  in_risk :: risk_class
  in_workspace :: string
  in_scope :: "string option"
  in_sku_count :: int
  in_skus :: "string list"
  in_rows :: "before_after list option"
  in_files :: "file_touch list option"
  in_change_set :: "change_set_state option"
  in_network :: "network_activity option"
  in_evidence :: "string list option"
  in_states :: "(string \<times> string) list option"

definition default_list :: "'a list option \<Rightarrow> 'a list" where
  "default_list v = (case v of None \<Rightarrow> [] | Some xs \<Rightarrow> xs)"

definition candidate_content :: "diff_input \<Rightarrow> diff_content" where
  "candidate_content i =
     \<lparr>df_tool = in_tool i, df_version = in_version i, df_risk = in_risk i, df_workspace = in_workspace i,
      df_scope = in_scope i, df_sku_count = in_sku_count i, df_skus = take 200 (in_skus i),
      df_truncated = (length (in_skus i) > 200), df_rows = take 50 (default_list (in_rows i)),
      df_files = take 100 (default_list (in_files i)), df_change_set = in_change_set i,
      df_network = (case in_network i of Some n \<Rightarrow> n
        | None \<Rightarrow> Unknown_network ''Adapter did not estimate network activity.''),
      df_evidence = take 50 (default_list (in_evidence i)), df_states = default_list (in_states i)\<rparr>"

definition with_hash :: "diff_content \<Rightarrow> string \<Rightarrow> string \<Rightarrow> action_diff" where
  "with_hash c generated h = diff_content.extend c (action_diff.fields generated h)"

definition build_action_diff :: "string \<Rightarrow> diff_input \<Rightarrow> (json_error, action_diff option) result" where
  "build_action_diff now i =
     bind_res (compute_action_diff_hash (candidate_content i)) (\<lambda>h.
       Inr (parse_action_diff (with_hash (candidate_content i) now h)))"

section \<open>Freshness at dispatch\<close>

text \<open>
  An adapter's preview is a function of the tool input and the catalog state that may throw. The
  outcome of \<open>computeAdapterPreviewDiff\<close> is null when there is no provider, when the provider throws
  or returns null, and when the diff it returns does not parse.
\<close>

type_synonym ('i, 'w) preview_provider = "'i \<Rightarrow> 'w \<Rightarrow> (string, action_diff option) result"

definition compute_adapter_preview :: "('i, 'w) preview_provider option \<Rightarrow> 'i \<Rightarrow> 'w \<Rightarrow> action_diff option" where
  "compute_adapter_preview provider input w =
     (case provider of None \<Rightarrow> None
      | Some p \<Rightarrow> (case p input w of
            Inl _ \<Rightarrow> None
          | Inr None \<Rightarrow> None
          | Inr (Some d) \<Rightarrow> parse_action_diff d))"

datatype freshness = Fresh | Stale | Unbound

definition check_diff_staleness :: "action_diff option \<Rightarrow> string option \<Rightarrow> freshness" where
  "check_diff_staleness recomputed bound =
     (case recomputed of None \<Rightarrow> Stale
      | Some d \<Rightarrow> (case bound of None \<Rightarrow> Unbound
          | Some h \<Rightarrow> if df_hash d = h then Fresh else Stale))"

section \<open>The hash identifies the content\<close>

lemma faithful_row [simp]: "faithful row_value"
proof (rule faithfulI)
  fix x y c assume "json_of (row_value x) = Some c" "json_of (row_value y) = Some c"
  note j = this [unfolded row_value_def]
  have d: "distinct (map fst ([(''field'', jstr (ba_field r))] @ optional ''sku'' jstr (ba_sku r) @
     [(''before'', jstr (ba_before r)), (''after'', jstr (ba_after r))] @
     optional ''affectedCount'' jint (ba_count r)))" for r
    by simp
  note property = same_property [OF j d d, where f = jstr] and option = same_optional [OF j d d]
  have "ba_field x = ba_field y" by (rule property [where k = "''field''"]) (simp_all add: map_add_def)
  moreover have "ba_before x = ba_before y"
    by (rule property [where k = "''before''"]) (simp_all add: map_add_def split: option.split)
  moreover have "ba_after x = ba_after y"
    by (rule property [where k = "''after''"]) (simp_all add: map_add_def split: option.split)
  moreover have "ba_sku x = ba_sku y"
    by (rule option [where k = "''sku''" and f = jstr]) (simp_all add: map_add_def split: option.split)
  moreover have "ba_count x = ba_count y"
    by (rule option [where k = "''affectedCount''" and f = jint]) (simp_all add: map_add_def split: option.split)
  ultimately show "x = y" by (cases x; cases y) simp
qed

lemma faithful_touch [simp]: "faithful touch_value"
proof (rule faithfulI)
  fix x y c assume "json_of (touch_value x) = Some c" "json_of (touch_value y) = Some c"
  note j = this [unfolded touch_value_def]
  have d: "distinct (map fst ([(''path'', jstr (ft_path t))] @ optional ''note'' jstr (ft_note t)))" for t
    by simp
  have "ft_path x = ft_path y"
    by (rule same_property [OF j d d, where k = "''path''" and f = jstr]) (simp_all add: map_add_def)
  moreover have "ft_note x = ft_note y"
    by (rule same_optional [OF j d d, where k = "''note''" and f = jstr]) (simp_all add: map_add_def split: option.split)
  ultimately show "x = y" by (cases x; cases y) simp
qed

lemma json_of_jstr_not_null [simp]: "json_of (jstr s) \<noteq> Some C_null"
  by (auto simp: jstr_def dest: json_of_string)

lemma json_of_object_not_null [simp]: "json_of (object_of ps) \<noteq> Some C_null"
  by (auto simp: json_of_def object_of_def plain_object_def bind_res_Inr_iff split: sum.splits)

lemma faithful_nullable_jstr [simp]: "faithful (nullable jstr)"
  by (rule faithful_nullable) simp_all

lemma faithful_change_set [simp]: "faithful change_set_value"
proof (rule faithfulI)
  fix x y c assume "json_of (change_set_value x) = Some c" "json_of (change_set_value y) = Some c"
  note j = this [unfolded change_set_value_def]
  have d: "distinct (map fst (optional ''id'' jstr (cs_id s) @ [(''currentState'', nullable jstr (cs_current s))] @
     optional ''expectedState'' jstr (cs_expected s) @ optional ''itemCount'' jint (cs_count s)))" for s
    by simp
  note option = same_optional [OF j d d]
  have "cs_current x = cs_current y"
    by (rule same_property [OF j d d, where k = "''currentState''" and f = "nullable jstr"])
      (simp_all add: map_add_def split: option.split)
  moreover have "cs_id x = cs_id y"
    by (rule option [where k = "''id''" and f = jstr]) (simp_all add: map_add_def split: option.split)
  moreover have "cs_expected x = cs_expected y"
    by (rule option [where k = "''expectedState''" and f = jstr]) (simp_all add: map_add_def split: option.split)
  moreover have "cs_count x = cs_count y"
    by (rule option [where k = "''itemCount''" and f = jint]) (simp_all add: map_add_def split: option.split)
  ultimately show "x = y" by (cases x; cases y) simp
qed

lemma faithful_network [simp]: "faithful network_value"
proof (rule faithfulI)
  fix x y c assume j: "json_of (network_value x) = Some c" "json_of (network_value y) = Some c"
  have d: "distinct (map fst (network_fields n))" for n
    by (cases n) simp_all
  note j = j [unfolded network_value_def]
  define kind where "kind n = (case n of No_network \<Rightarrow> ''none'' | Bounded_network _ _ _ \<Rightarrow> ''bounded''
      | Unknown_network _ \<Rightarrow> ''unknown'')" for n
  have k: "kind x = kind y"
    by (rule same_property [OF j d d, where k = "''kind''" and f = jstr]) (cases x; cases y; simp add: kind_def map_add_def split: option.split)+
  define note_of where "note_of n = (case n of No_network \<Rightarrow> None | Bounded_network _ _ t \<Rightarrow> t
      | Unknown_network t \<Rightarrow> Some t)" for n
  have t: "note_of x = note_of y"
    by (rule same_optional [OF j d d, where k = "''note''" and f = jstr]) (cases x; cases y; simp add: note_of_def map_add_def split: option.split)+
  show "x = y"
  proof (cases x)
    case (Bounded_network hosts requests memo)
    with k obtain hosts' requests' memo' where y: "y = Bounded_network hosts' requests' memo'"
      by (cases y) (simp_all add: kind_def)
    have "hosts = hosts'"
      by (rule same_property [OF j d d, where k = "''hosts''" and f = "\<lambda>xs. plain_array (map jstr xs)"])
        (simp_all add: Bounded_network y map_add_def faithful_array split: option.split)
    moreover have "requests = requests'"
      by (rule same_property [OF j d d, where k = "''requestCount''" and f = jint])
        (simp_all add: Bounded_network y map_add_def split: option.split)
    ultimately show ?thesis using t by (simp add: Bounded_network y note_of_def)
  next
    case No_network
    with k show ?thesis by (cases y) (simp_all add: kind_def)
  next
    case (Unknown_network memo)
    with k t show ?thesis by (cases y) (simp_all add: kind_def note_of_def)
  qed
qed

text \<open>
  The content without the state hashes is determined by the canonical form; the state hashes are
  determined as a map.
\<close>

definition same_content :: "'a diff_content_scheme \<Rightarrow> 'b diff_content_scheme \<Rightarrow> bool" where
  "same_content a b \<longleftrightarrow>
     diff_content.truncate a = diff_content.truncate b\<lparr>df_states := df_states a\<rparr> \<and>
     map_of (df_states a) = map_of (df_states b)"

lemma canonical_content:
  assumes "json_of (content_value a) = Some c" and "json_of (content_value b) = Some c"
    and "distinct (map fst (df_states a))" and "distinct (map fst (df_states b))"
  shows "same_content a b"
proof -
  note j = assms(1,2) [unfolded content_value_def]
  have d: "distinct (map fst (content_fields x))" for x :: "'c diff_content_scheme"
    by (simp add: content_fields_def)
  note property = same_property [OF j d d]
  have "df_tool a = df_tool b"
    by (rule property [where k = "''toolName''" and f = jstr]) (simp_all add: content_fields_def)
  moreover have "df_version a = df_version b"
    by (rule property [where k = "''toolVersion''" and f = jint]) (simp_all add: content_fields_def)
  moreover have "risk_name (df_risk a) = risk_name (df_risk b)"
    by (rule property [where k = "''riskClass''" and f = jstr]) (simp_all add: content_fields_def)
  moreover have "df_workspace a = df_workspace b"
    by (rule property [where k = "''workspaceId''" and f = jstr]) (simp_all add: content_fields_def)
  moreover have "df_scope a = df_scope b"
    by (rule property [where k = "''scopeHash''" and f = "nullable jstr"]) (simp_all add: content_fields_def)
  moreover have "df_sku_count a = df_sku_count b"
    by (rule property [where k = "''affectedSkuCount''" and f = jint]) (simp_all add: content_fields_def)
  moreover have "df_skus a = df_skus b"
    by (rule property [where k = "''affectedSkus''" and f = "\<lambda>xs. plain_array (map jstr xs)"])
      (simp_all add: content_fields_def faithful_array)
  moreover have "df_truncated a = df_truncated b"
    by (rule property [where k = "''affectedSkusTruncated''" and f = V_bool]) (simp_all add: content_fields_def)
  moreover have "df_rows a = df_rows b"
    by (rule property [where k = "''beforeAfter''" and f = "\<lambda>xs. plain_array (map row_value xs)"])
      (simp_all add: content_fields_def faithful_array)
  moreover have "df_files a = df_files b"
    by (rule property [where k = "''filesTouched''" and f = "\<lambda>xs. plain_array (map touch_value xs)"])
      (simp_all add: content_fields_def faithful_array)
  moreover have "df_change_set a = df_change_set b"
    by (rule property [where k = "''changeSet''" and f = "nullable change_set_value"])
      (simp_all add: content_fields_def faithful_nullable change_set_value_def)
  moreover have "df_network a = df_network b"
    by (rule property [where k = "''networkActivity''" and f = network_value]) (simp_all add: content_fields_def)
  moreover have "df_evidence a = df_evidence b"
    by (rule property [where k = "''evidenceRefs''" and f = "\<lambda>xs. plain_array (map jstr xs)"])
      (simp_all add: content_fields_def faithful_array)
  moreover have "map_of (df_states a) = map_of (df_states b)"
  proof -
    have at: "map_of (content_fields x) ''stateHashes'' = Some (object_of (map (map_prod id jstr) (df_states x)))"
      for x :: "'c diff_content_scheme"
      by (simp add: content_fields_def)
    obtain e where "json_of (object_of (map (map_prod id jstr) (df_states a))) = Some e"
        "json_of (object_of (map (map_prod id jstr) (df_states b))) = Some e"
      using same_object [OF j d d, of "''stateHashes''"] by (auto simp: at)
    from same_entries [OF this assms(3,4)] show ?thesis by simp
  qed
  ultimately show ?thesis
    by (simp add: same_content_def diff_content.truncate_def)
qed

lemma literal_parts [simp]:
  "literal (row_value r)" "literal (touch_value t)" "literal (change_set_value c)" "literal (network_value n)"
  by (simp_all add: row_value_def touch_value_def change_set_value_def network_value_def option.pred_True)
    (cases n; simp add: list.pred_map comp_def list.pred_True option.pred_True)

lemma literal_content: "distinct (map fst (df_states d)) \<Longrightarrow> literal (content_value d)"
  by (simp add: content_value_def content_fields_def list.pred_map comp_def list.pred_True option.pred_True)

text \<open>Two diffs with one hash have the same content, or their texts are a collision of the digest.\<close>

lemma diff_hash_binds_content:
  assumes "compute_action_diff_hash a = Inr h" and "compute_action_diff_hash b = Inr h"
    and "distinct (map fst (df_states a))" and "distinct (map fst (df_states b))"
  shows "same_content a b \<or> texts_collide (content_value a) (content_value b)"
  using equal_digests [OF assms(1,2) [unfolded compute_action_diff_hash_def] literal_content [OF assms(3)]
      literal_content [OF assms(4)]]
  by (auto dest: canonical_content [OF _ _ assms(3,4)])

text \<open>What a provider that builds its diffs returns.\<close>

definition built_diff :: "action_diff \<Rightarrow> bool" where
  "built_diff f \<longleftrightarrow>
     (\<exists>t i. distinct (map fst (default_list (in_states i))) \<and> build_action_diff t i = Inr (Some f))"

lemma parse_action_diff_Some [dest!]: "parse_action_diff d = Some e \<Longrightarrow> e = d"
  by (simp add: parse_action_diff_def split: if_splits)

lemma with_hash_simps [simp]:
  "df_states (with_hash c t h) = df_states c" "df_hash (with_hash c t h) = h"
  "content_value (with_hash c t h) = content_value c"
  by (simp_all add: with_hash_def content_value_def content_fields_def diff_content.defs action_diff.defs)

lemma built_diff_hashed:
  assumes "built_diff f"
  shows "compute_action_diff_hash f = Inr (df_hash f)" and "distinct (map fst (df_states f))"
proof -
  from assms obtain t i h where "distinct (map fst (default_list (in_states i)))"
    and "compute_action_diff_hash (candidate_content i) = Inr h"
    and "f = with_hash (candidate_content i) t h"
    by (auto simp: built_diff_def build_action_diff_def)
  then show "compute_action_diff_hash f = Inr (df_hash f)" and "distinct (map fst (df_states f))"
    by (simp_all add: compute_action_diff_hash_def) (simp add: candidate_content_def)
qed

lemma built_diffs_agree:
  assumes "built_diff f" and "built_diff g" and "df_hash f = df_hash g"
  shows "same_content f g \<or> texts_collide (content_value f) (content_value g)"
  using diff_hash_binds_content [of f "df_hash f" g] built_diff_hashed assms by metis

end
