(* ===== verification/ToolGate.thy ===== *)
theory ToolGate
  imports ActionDiff
begin

text \<open>
  The gate in front of the Store Manager's tools: the run policy
  (\<open>src/src/store-manager/runtime/policy.ts\<close>), the approval gate with its registry of consumed
  approvals (\<open>src/src/server/services/store-manager-tools.ts\<close>) and the dispatch of one tool call
  (\<open>src/src/store-manager/runtime/tool-registry.ts\<close>). Inputs and outputs are JSON values; the catalog
  the adapters read and change is an opaque state, and an adapter is the record of its declared
  metadata with its schema, preview and execution as functions. Messages of errors are left out.
\<close>

section \<open>Vocabulary\<close>

type_synonym json = canonical_json

datatype phase = Investigate | Approve_phase | Verify_phase

datatype scope_kind = Onboarding_batch | Change_set_scope | Product_field_scope | Vendor_scope | Sku_set

datatype execution_mode = Interactive | Unattended_read_only | Preview_mode

datatype denial =
    Not_in_workspace | Not_found | Phase_not_allowed | Approval_required | Approval_denied
  | Budget_exceeded | Deadline_exceeded | Timed_out | Size_exceeded | Unsupported | Invalid_input
  | Persistent_not_allowed | Stale_preview

datatype tool_result =
    Ok_result json
  | No_result "json option"
  | Policy_denied denial
  | Error_result string

text \<open>
  An adapter. \<open>ad_execute\<close> gives the result, or \<^term>\<open>Inl\<close> of the message it throws, and the catalog
  it leaves. Its input schema may transform the input; its output schema only accepts or refuses.
\<close>

record 'w adapter =
  ad_name :: string
  ad_version :: int
  ad_risk :: risk_class
  ad_requires_approval :: bool
  ad_phases :: "phase list"
  ad_scopes :: "scope_kind list option"
  ad_input :: "json \<Rightarrow> json option"
  ad_output :: "(json \<Rightarrow> bool) option"
  ad_preview :: "(json, 'w) preview_provider option"
  ad_scope :: "json \<Rightarrow> string"
  ad_execute :: "json \<Rightarrow> 'w \<Rightarrow> (string, tool_result) result \<times> 'w"

section \<open>The registry\<close>

text \<open>The adapters in order of registration.\<close>

datatype register_error = Already_registered | No_preview_provider

definition register_tool ::
    "'w adapter \<Rightarrow> 'w adapter list \<Rightarrow> (register_error, 'w adapter list) result" where
  "register_tool a as =
     (if ad_name a \<in> set (map ad_name as) then Inl Already_registered
      else if ad_risk a \<noteq> Read_risk \<and> ad_preview a = None then Inl No_preview_provider
      else Inr (as @ [a]))"

fun register_all :: "'w adapter list \<Rightarrow> 'w adapter list \<Rightarrow> (register_error, 'w adapter list) result" where
  "register_all [] as = Inr as"
| "register_all (a # rest) as = bind_res (register_tool a as) (register_all rest)"

definition find_tool :: "string \<Rightarrow> 'w adapter list \<Rightarrow> 'w adapter option" where
  "find_tool name as = find (\<lambda>a. ad_name a = name) as"

text \<open>
  Which of the calls halt for the operator: \<open>buildRegistryApprovalConfig\<close>, \<^term>\<open>True\<close> standing for
  \<open>user-approval\<close>.
\<close>

definition approval_config :: "'w adapter list \<Rightarrow> bool \<Rightarrow> (string \<times> bool) list" where
  "approval_config as force_not_applicable =
     map (\<lambda>a. (ad_name a, \<not> (force_not_applicable \<or> \<not> ad_requires_approval a))) as"

section \<open>The run policy\<close>

record policy_overrides =
  ov_max_calls :: "int option"
  ov_max_bytes :: "nat option"
  ov_deadline_ms :: "int option"
  ov_call_timeout_ms :: "int option"

record policy =
  po_workspace :: string
  po_session :: string
  po_turn :: string
  po_mode :: execution_mode
  po_allowed :: "(string \<times> int) list"
  po_max_calls :: int
  po_max_bytes :: nat
  po_deadline_ms :: int
  po_call_timeout_ms :: int
  po_deny_persistent :: bool
  po_scope :: "scope_kind option"

definition or_default :: "'a option \<Rightarrow> 'a \<Rightarrow> 'a" where
  "or_default v d = (case v of None \<Rightarrow> d | Some x \<Rightarrow> x)"

lemma or_default_simps [simp]: "or_default None d = d" "or_default (Some x) d = x"
  by (simp_all add: or_default_def)

definition create_policy ::
    "string \<Rightarrow> string \<Rightarrow> string \<Rightarrow> execution_mode option \<Rightarrow> scope_kind option \<Rightarrow> policy_overrides \<Rightarrow>
     (string \<times> int) list \<Rightarrow> policy" where
  "create_policy ws session turn mode scope ov allowed =
     \<lparr>po_workspace = ws, po_session = session, po_turn = turn, po_mode = or_default mode Interactive,
      po_allowed = allowed, po_max_calls = or_default (ov_max_calls ov) 10,
      po_max_bytes = or_default (ov_max_bytes ov) (128 * 1024),
      po_deadline_ms = or_default (ov_deadline_ms ov) (10 * 60 * 1000),
      po_call_timeout_ms = or_default (ov_call_timeout_ms ov) (60 * 1000),
      po_deny_persistent = (or_default mode Interactive \<noteq> Interactive), po_scope = scope\<rparr>"

definition run_allowlist :: "'w adapter list \<Rightarrow> execution_mode \<Rightarrow> (string \<times> int) list" where
  "run_allowlist as mode =
     map (\<lambda>a. (ad_name a, ad_version a))
       (if mode = Interactive then as else filter (\<lambda>a. ad_risk a = Read_risk) as)"

section \<open>Messages and approvals\<close>

datatype message_part =
    Approval_request (rq_approval: string) (rq_call: string)
  | Approval_response (rs_approval: string) (rs_approved: bool)
  | Call_part (cp_call: string) (cp_input: json)
  | Other_part

datatype message = Text_message | Parts "message_part list"

fun parts_of :: "message \<Rightarrow> message_part list" where
  "parts_of Text_message = []"
| "parts_of (Parts ps) = ps"

definition message_parts :: "message list \<Rightarrow> message_part list" where
  "message_parts ms = concat (map parts_of ms)"

fun requests_call :: "string \<Rightarrow> message_part \<Rightarrow> bool" where
  "requests_call call (Approval_request a c) = (c = call)"
| "requests_call call _ = False"

fun responds_to :: "string \<Rightarrow> message_part \<Rightarrow> bool" where
  "responds_to a (Approval_response b ok) = (b = a)"
| "responds_to a _ = False"

fun calls :: "string \<Rightarrow> message_part \<Rightarrow> bool" where
  "calls call (Call_part c input) = (c = call)"
| "calls call _ = False"

datatype approval_state = Approved | Denied | Pending | Missing

text \<open>
  The first request for the call (\<open>findApprovalIdForToolCall\<close>). The empty approval id counts as no
  id wherever the code tests it.
\<close>

definition find_approval_id :: "message list \<Rightarrow> string \<Rightarrow> string option" where
  "find_approval_id ms call = map_option rq_approval (find (requests_call call) (message_parts ms))"

definition response_state :: "message list \<Rightarrow> string option \<Rightarrow> approval_state" where
  "response_state ms approval =
     (case approval of None \<Rightarrow> Missing
      | Some a \<Rightarrow>
          if a = [] then Missing
          else case find (responds_to a) (message_parts ms) of
              None \<Rightarrow> Pending
            | Some r \<Rightarrow> if rs_approved r then Approved else Denied)"

definition approval_state_for_call :: "message list \<Rightarrow> string \<Rightarrow> approval_state" where
  "approval_state_for_call ms call = response_state ms (find_approval_id ms call)"

text \<open>The registry's own derivation keeps the last request for the call.\<close>

definition resolve_approval_state :: "message list \<Rightarrow> string \<Rightarrow> approval_state" where
  "resolve_approval_state ms call =
     response_state ms (map_option rq_approval (find (requests_call call) (rev (message_parts ms))))"

text \<open>
  \<open>deepEqual\<close>. An array and an object are compared by their keys, those of an array being its
  indices; object keys are compared after sorting.
\<close>

definition index_keys :: "json list \<Rightarrow> code_units list" where
  "index_keys vs = map (\<lambda>i. units (show_nat i)) [0..<length vs]"

definition array_entries :: "json list \<Rightarrow> (code_units \<times> json) list" where
  "array_entries vs = zip (index_keys vs) vs"

fun deep_equal :: "json \<Rightarrow> json \<Rightarrow> bool"
  and deep_list :: "json list \<Rightarrow> json list \<Rightarrow> bool"
  and deep_indexed :: "nat \<Rightarrow> json list \<Rightarrow> (code_units \<times> json) list \<Rightarrow> bool"
  and deep_entries :: "(code_units \<times> json) list \<Rightarrow> (code_units \<times> json) list \<Rightarrow> bool" where
  "deep_equal (C_array vs) b =
     (case b of
        C_array ws \<Rightarrow> length vs = length ws \<and> deep_list vs ws
      | C_object qs \<Rightarrow> sort (index_keys vs) = sort (map fst qs) \<and> deep_indexed 0 vs qs
      | _ \<Rightarrow> False)"
| "deep_equal (C_object ps) b =
     (case b of
        C_array ws \<Rightarrow> sort (map fst ps) = sort (index_keys ws) \<and> deep_entries ps (array_entries ws)
      | C_object qs \<Rightarrow> sort (map fst ps) = sort (map fst qs) \<and> deep_entries ps qs
      | _ \<Rightarrow> False)"
| "deep_equal a b = (a = b)"
| "deep_list (v # vs) (w # ws) = (deep_equal v w \<and> deep_list vs ws)"
| "deep_list _ _ = True"
| "deep_indexed i [] qs = True"
| "deep_indexed i (v # vs) qs =
     ((case map_of qs (units (show_nat i)) of None \<Rightarrow> False | Some w \<Rightarrow> deep_equal v w) \<and>
      deep_indexed (Suc i) vs qs)"
| "deep_entries [] qs = True"
| "deep_entries ((k, v) # ps) qs =
     ((case map_of qs k of None \<Rightarrow> False | Some w \<Rightarrow> deep_equal v w) \<and> deep_entries ps qs)"

definition input_matches_received :: "message list \<Rightarrow> string \<Rightarrow> json \<Rightarrow> bool" where
  "input_matches_received ms call input =
     (case find (calls call) (message_parts ms) of
        None \<Rightarrow> False
      | Some p \<Rightarrow> deep_equal (cp_input p) input)"

section \<open>The registry of consumed approvals\<close>

text \<open>The process-wide map, newest entry first; at the cap it is emptied before the insertion.\<close>

type_synonym consumed = "(string \<times> string \<times> int) list"

definition max_consumed :: nat where "max_consumed = 10000"

datatype gate_error =
    Context_missing | Session_expired | Approval_needed | Approval_missing | Denied_by_operator | Replay_or_altered

definition consume_approval :: "int \<Rightarrow> string \<Rightarrow> string \<Rightarrow> consumed \<Rightarrow> (gate_error, consumed) result" where
  "consume_approval now approval execution used =
     (case map_of used approval of
        Some _ \<Rightarrow> Inl Replay_or_altered
      | None \<Rightarrow> Inr ((approval, execution, now) # (if length used \<ge> max_consumed then [] else used)))"

section \<open>The approval gate\<close>

record server_approval =
  sa_call :: string
  sa_approval :: string
  sa_diff :: string
  sa_expires :: int

record exec_context =
  ec_execution :: "string option"
  ec_expires :: "int option"
  ec_server :: "server_approval list"
  ec_bound :: "(string \<times> string) list"

definition context_live :: "exec_context \<Rightarrow> bool" where
  "context_live x \<longleftrightarrow>
     (\<exists>e \<in> set_option (ec_execution x). e \<noteq> []) \<and> (\<exists>t \<in> set_option (ec_expires x). t \<noteq> 0)"

definition server_approval_for :: "exec_context \<Rightarrow> string \<Rightarrow> server_approval option" where
  "server_approval_for x call = find (\<lambda>a. sa_call a = call) (ec_server x)"

text \<open>
  \<open>gateToolExecution\<close> up to the call of \<open>execute\<close>: the error thrown, or the registry after the
  approval was consumed.
\<close>

definition gate_tool ::
    "int \<Rightarrow> bool \<Rightarrow> exec_context \<Rightarrow> string \<Rightarrow> message list \<Rightarrow> json \<Rightarrow> consumed \<Rightarrow> (gate_error, consumed) result" where
  "gate_tool now requires x call ms input used =
     (if \<not> context_live x then Inl Context_missing
      else if now > the (ec_expires x) then Inl Session_expired
      else if \<not> requires then Inr used
      else case server_approval_for x call of
          Some a \<Rightarrow>
            if now > sa_expires a then Inl Session_expired
            else consume_approval now (sa_approval a) (the (ec_execution x)) used
        | None \<Rightarrow>
            (case approval_state_for_call ms call of
               Approved \<Rightarrow>
                 if \<not> input_matches_received ms call input then Inl Replay_or_altered
                 else (case find_approval_id ms call of
                     None \<Rightarrow> Inl Approval_missing
                   | Some a \<Rightarrow>
                       if a = [] then Inl Approval_missing
                       else consume_approval now a (the (ec_execution x)) used)
             | Denied \<Rightarrow> Inl Denied_by_operator
             | _ \<Rightarrow> Inl Approval_missing))"

section \<open>Output redaction and bounds\<close>

definition sensitive_keys :: "code_units list" where
  "sensitive_keys = map units [''apiKey'', ''api_key'', ''authorization'', ''secret'', ''token'', ''password'',
     ''credential'', ''signature'', ''baseUrl'', ''base_url'']"

text \<open>\<open>k.toLowerCase().includes('path')\<close>: only ASCII capitals lower to the letters of \<open>path\<close>.\<close>

definition lower_ascii :: "nat \<Rightarrow> nat" where
  "lower_ascii c = (if 65 \<le> c \<and> c \<le> 90 then c + 32 else c)"

definition path_key :: "code_units \<Rightarrow> bool" where
  "path_key k = has_part (map lower_ascii k) (units ''path'')"

definition is_text :: "json \<Rightarrow> bool" where
  "is_text v = (case v of C_string _ \<Rightarrow> True | _ \<Rightarrow> False)"

fun redact_value :: "nat \<Rightarrow> json \<Rightarrow> json" where
  "redact_value depth v =
     (if depth > 6 then C_string (units ''[redacted:depth]'')
      else case v of
          C_array vs \<Rightarrow> C_array (map (redact_value (depth + 1)) vs)
        | C_object ps \<Rightarrow> C_object (map (\<lambda>(k, w).
              (k, if k \<in> set sensitive_keys then C_string (units ''[redacted]'')
                  else if path_key k \<and> is_text w then C_string (units ''[redacted:path]'')
                  else redact_value (depth + 1) w)) ps)
        | _ \<Rightarrow> v)"

declare redact_value.simps [simp del]

text \<open>
  \<open>serializeBounded\<close>. The compact text has the same length whatever the order of the keys. Tool
  outputs are objects or arrays, and a strict prefix of such a text is not JSON, so the truncated
  text is always refused.
\<close>

definition serialize_bounded :: "json \<Rightarrow> nat \<Rightarrow> json option" where
  "serialize_bounded v most =
     (let redacted = redact_value 0 v
      in if length (serialize_canonical_json redacted 0 0) \<le> most then Some redacted else None)"

definition normalize_output :: "'w adapter \<Rightarrow> nat \<Rightarrow> tool_result \<Rightarrow> tool_result" where
  "normalize_output a most r =
     (case r of
        Ok_result v \<Rightarrow>
          if (case ad_output a of None \<Rightarrow> True | Some accepts \<Rightarrow> accepts v)
          then (case serialize_bounded v most of
                  None \<Rightarrow> Policy_denied Size_exceeded
                | Some w \<Rightarrow> Ok_result w)
          else Policy_denied Invalid_input
      | _ \<Rightarrow> r)"

section \<open>Dispatch\<close>

record session_state =
  ss_id :: string
  ss_workspace :: string
  ss_turn :: string
  ss_active :: bool
  ss_phase :: phase
  ss_calls :: int

definition create_session :: "string \<Rightarrow> string \<Rightarrow> string \<Rightarrow> session_state" where
  "create_session sid ws turn =
     \<lparr>ss_id = sid, ss_workspace = ws, ss_turn = turn, ss_active = True, ss_phase = Investigate, ss_calls = 0\<rparr>"

datatype result_head = Ok_status | No_result_status | Denied_status denial | Error_status string

fun head_of :: "tool_result \<Rightarrow> result_head" where
  "head_of (Ok_result v) = Ok_status"
| "head_of (No_result v) = No_result_status"
| "head_of (Policy_denied r) = Denied_status r"
| "head_of (Error_result c) = Error_status c"

datatype tool_event =
    is_Tool_dispatched: Tool_dispatched string int risk_class string string
  | Tool_approval string string bool
  | Tool_result_event string result_head
  | Phase_changed phase phase
  | Action_diff_event string int string int string bool

fun network_kind :: "network_activity \<Rightarrow> string" where
  "network_kind No_network = ''none''" | "network_kind (Bounded_network _ _ _) = ''bounded''"
| "network_kind (Unknown_network _) = ''unknown''"

text \<open>The arguments of one dispatch besides the adapter and the input.\<close>

record dispatch_call =
  dc_policy :: policy
  dc_context :: exec_context
  dc_deadline :: int
  dc_max_bytes :: nat
  dc_call :: string
  dc_messages :: "message list"

record 'w runtime =
  rt_session :: session_state
  rt_consumed :: consumed
  rt_world :: 'w
  rt_events :: "tool_event list"

definition emit :: "tool_event \<Rightarrow> 'w runtime \<Rightarrow> 'w runtime" where
  "emit e rt = rt\<lparr>rt_events := rt_events rt @ [e]\<rparr>"

definition deny :: "'w adapter \<Rightarrow> denial \<Rightarrow> 'w runtime \<Rightarrow> tool_result \<times> 'w runtime" where
  "deny a r rt = (Policy_denied r, emit (Tool_result_event (ad_name a) (Denied_status r)) rt)"

text \<open>Steps 1 to 7, in order: the first check that fails, or the parsed input.\<close>

definition phase_allowed :: "'w adapter \<Rightarrow> dispatch_call \<Rightarrow> phase \<Rightarrow> bool" where
  "phase_allowed a d p \<longleftrightarrow>
     p \<in> set (ad_phases a) \<or>
     (ad_requires_approval a \<and>
      (resolve_approval_state (dc_messages d) (dc_call d) = Approved \<or>
       (\<exists>s \<in> set (ec_server (dc_context d)). sa_call s = dc_call d)))"

definition check_call :: "int \<Rightarrow> 'w adapter \<Rightarrow> dispatch_call \<Rightarrow> json \<Rightarrow> session_state \<Rightarrow> (denial, json) result" where
  "check_call now a d input s =
     (let p = dc_policy d in
      if ss_id s = [] \<or> ss_workspace s \<noteq> po_workspace p then Inl Not_in_workspace
      else if \<not> ss_active s then Inl Not_in_workspace
      else if po_deny_persistent p \<and> ad_risk a \<noteq> Read_risk then Inl Persistent_not_allowed
      else if (case (po_scope p, ad_scopes a) of (Some k, Some ks) \<Rightarrow> k \<notin> set ks | _ \<Rightarrow> False) then Inl Unsupported
      else if \<not> phase_allowed a d (ss_phase s) then Inl Phase_not_allowed
      else if (ad_name a, ad_version a) \<notin> set (po_allowed p) then Inl Not_in_workspace
      else if now > dc_deadline d then Inl Deadline_exceeded
      else if ss_calls s \<ge> po_max_calls p then Inl Budget_exceeded
      else case ad_input a input of None \<Rightarrow> Inl Invalid_input | Some valid \<Rightarrow> Inr valid)"

fun gate_denial :: "gate_error \<Rightarrow> denial" where
  "gate_denial Denied_by_operator = Approval_denied"
| "gate_denial Session_expired = Deadline_exceeded"
| "gate_denial Context_missing = Deadline_exceeded"
| "gate_denial _ = Approval_required"

fun reports_approval :: "gate_error \<Rightarrow> bool" where
  "reports_approval Denied_by_operator = True"
| "reports_approval Approval_missing = True"
| "reports_approval Replay_or_altered = True"
| "reports_approval _ = False"

text \<open>
  Dispatch up to its first suspension: steps 1 to 8. \<open>gate_now\<close> is the process clock the gate reads,
  \<open>now\<close> the clock of the run.
\<close>

definition admit_call ::
    "int \<Rightarrow> int \<Rightarrow> 'w adapter \<Rightarrow> dispatch_call \<Rightarrow> json \<Rightarrow> 'w runtime \<Rightarrow> (tool_result, json) result \<times> 'w runtime" where
  "admit_call gate_now now a d input rt =
     (case check_call now a d input (rt_session rt) of
        Inl r \<Rightarrow> apfst Inl (deny a r rt)
      | Inr valid \<Rightarrow>
          (case gate_tool gate_now (ad_requires_approval a) (dc_context d) (dc_call d) (dc_messages d) valid
                  (rt_consumed rt) of
             Inl e \<Rightarrow> apfst Inl (deny a (gate_denial e)
               (if reports_approval e then emit (Tool_approval (ad_name a) (dc_call d) False) rt else rt))
           | Inr used \<Rightarrow> (Inr valid, rt\<lparr>rt_consumed := used\<rparr>)))"

text \<open>Step 9b: the preview is recomputed from the current state, then compared with the bound hash.\<close>

definition recompute_preview :: "'w adapter \<Rightarrow> json \<Rightarrow> 'w \<Rightarrow> action_diff option" where
  "recompute_preview a valid w =
     (if ad_risk a = Read_risk then None else compute_adapter_preview (ad_preview a) valid w)"

definition diff_event :: "'w adapter \<Rightarrow> action_diff option \<Rightarrow> bool \<Rightarrow> tool_event" where
  "diff_event a diff stale =
     (case diff of
        None \<Rightarrow> Action_diff_event (ad_name a) (ad_version a) ''unknown'' 0 ''unknown'' stale
      | Some f \<Rightarrow> Action_diff_event (ad_name a) (ad_version a) (df_hash f) (df_sku_count f)
                    (network_kind (df_network f)) stale)"

definition bound_hash :: "dispatch_call \<Rightarrow> string option" where
  "bound_hash d = map_of (ec_bound (dc_context d)) (dc_call d)"

text \<open>The digest of the input in the dispatch event.\<close>

fun js_of_json :: "json \<Rightarrow> js_value" where
  "js_of_json C_null = V_null"
| "js_of_json (C_bool b) = V_bool b"
| "js_of_json (C_int i) = V_number (Int_num i)"
| "js_of_json (C_frac t) = V_number (Frac_num t)"
| "js_of_json (C_string s) = V_string s"
| "js_of_json (C_array vs) = plain_array (map js_of_json vs)"
| "js_of_json (C_object ps) = plain_object (map (\<lambda>(k, v). (k, js_of_json v)) ps)"

definition input_digest :: "json \<Rightarrow> (json_error, string) result" where
  "input_digest v = hash_canonical_json (js_of_json v)"

text \<open>
  From the recomputed preview to the call of the adapter. The budget is charged before the event,
  whose digest throws when the input has no canonical form.
\<close>

datatype dispatch_outcome = Returned tool_result | Rejected json_error

definition start_call ::
    "'w adapter \<Rightarrow> dispatch_call \<Rightarrow> json \<Rightarrow> action_diff option \<Rightarrow> 'w runtime \<Rightarrow>
     (dispatch_outcome, unit) result \<times> 'w runtime" where
  "start_call a d valid diff rt =
     (let persistent = (ad_risk a \<noteq> Read_risk);
          stale = (persistent \<and> check_diff_staleness diff (bound_hash d) = Stale);
          rt1 = (if persistent then emit (diff_event a diff stale) rt else rt)
      in if stale then apfst (Inl \<circ> Returned) (deny a Stale_preview rt1)
         else let rt2 = rt1\<lparr>rt_session := (rt_session rt1)\<lparr>ss_calls := ss_calls (rt_session rt1) + 1\<rparr>\<rparr>
              in case input_digest valid of
                   Inl e \<Rightarrow> (Inl (Rejected e), rt2)
                 | Inr h \<Rightarrow> (Inr (), emit (Tool_dispatched (ad_name a) (ad_version a) (ad_risk a) h (ad_scope a valid)) rt2))"

text \<open>Steps 11 to 13: the adapter runs, the phase advances, the output is normalized.\<close>

definition finish_call :: "'w adapter \<Rightarrow> dispatch_call \<Rightarrow> json \<Rightarrow> 'w runtime \<Rightarrow> tool_result \<times> 'w runtime" where
  "finish_call a d valid rt =
     (case ad_execute a valid (rt_world rt) of
        (Inl msg, w) \<Rightarrow>
          (Error_result ''adapter_failed'',
           emit (Tool_result_event (ad_name a) (Error_status ''adapter_failed'')) (rt\<lparr>rt_world := w\<rparr>))
      | (Inr r, w) \<Rightarrow>
          let s = rt_session rt;
              rt1 = rt\<lparr>rt_world := w\<rparr>;
              rt2 = (if ad_requires_approval a \<and> head_of r = Ok_status \<and> ss_phase s \<noteq> Verify_phase
                     then emit (Phase_changed (ss_phase s) Verify_phase)
                            (rt1\<lparr>rt_session := s\<lparr>ss_phase := Verify_phase\<rparr>\<rparr>)
                     else rt1);
              n = normalize_output a (dc_max_bytes d) r
          in (n, emit (Tool_result_event (ad_name a) (head_of n)) rt2))"

text \<open>A whole dispatch with nothing running beside it.\<close>

definition dispatch ::
    "int \<Rightarrow> int \<Rightarrow> 'w adapter \<Rightarrow> dispatch_call \<Rightarrow> json \<Rightarrow> 'w runtime \<Rightarrow> dispatch_outcome \<times> 'w runtime" where
  "dispatch gate_now now a d input rt =
     (case admit_call gate_now now a d input rt of
        (Inl r, rt1) \<Rightarrow> (Returned r, rt1)
      | (Inr valid, rt1) \<Rightarrow>
          (case start_call a d valid (recompute_preview a valid (rt_world rt1)) rt1 of
             (Inl out, rt2) \<Rightarrow> (out, rt2)
           | (Inr _, rt2) \<Rightarrow> apfst Returned (finish_call a d valid rt2)))"

section \<open>The approval a call consumes\<close>

definition call_approval :: "dispatch_call \<Rightarrow> string option" where
  "call_approval d =
     (case server_approval_for (dc_context d) (dc_call d) of
        Some s \<Rightarrow> Some (sa_approval s)
      | None \<Rightarrow> find_approval_id (dc_messages d) (dc_call d))"

text \<open>
  The operator approved the call: an unexpired recorded approval for it, or a request for it whose
  response approves, beside a call part with the input that is about to run.
\<close>

definition operator_approved :: "int \<Rightarrow> dispatch_call \<Rightarrow> json \<Rightarrow> bool" where
  "operator_approved gate_now d valid \<longleftrightarrow>
     (\<exists>s \<in> set (ec_server (dc_context d)). sa_call s = dc_call d \<and> gate_now \<le> sa_expires s) \<or>
     (\<exists>i \<in> set_option (find_approval_id (dc_messages d) (dc_call d)).
        Approval_request i (dc_call d) \<in> set (message_parts (dc_messages d)) \<and>
        Approval_response i True \<in> set (message_parts (dc_messages d)) \<and>
        (\<exists>seen. Call_part (dc_call d) seen \<in> set (message_parts (dc_messages d)) \<and> deep_equal seen valid))"

lemma consume_approval_Inr [simp]:
  "consume_approval now i e used = Inr used' \<longleftrightarrow>
     map_of used i = None \<and> used' = (i, e, now) # (if length used \<ge> max_consumed then [] else used)"
  by (auto simp: consume_approval_def split: option.splits)

lemma find_approval_id_Some:
  "find_approval_id ms call = Some i \<Longrightarrow> Approval_request i call \<in> set (message_parts ms)"
  by (auto simp: find_approval_id_def dest!: find_Some_set elim!: requests_call.elims)

lemma approved_parts:
  assumes "approval_state_for_call ms call = Approved"
  obtains i where "find_approval_id ms call = Some i" and "i \<noteq> []"
    and "Approval_request i call \<in> set (message_parts ms)"
    and "Approval_response i True \<in> set (message_parts ms)"
proof -
  from assms obtain i where i: "find_approval_id ms call = Some i" "i \<noteq> []"
    and r: "response_state ms (Some i) = Approved"
    by (auto simp: approval_state_for_call_def response_state_def split: option.splits if_splits)
  from r i(2) obtain r where "find (responds_to i) (message_parts ms) = Some r" "rs_approved r"
    by (auto simp: response_state_def split: option.splits if_splits)
  then have "Approval_response i True \<in> set (message_parts ms)"
    by (auto dest!: find_Some_set elim!: responds_to.elims)
  with that i find_approval_id_Some show thesis by blast
qed

lemma gate_tool_Inr:
  assumes "gate_tool now requires (dc_context d) (dc_call d) (dc_messages d) valid used = Inr used'"
  shows "context_live (dc_context d)" and "now \<le> the (ec_expires (dc_context d))"
    and "\<not> requires \<Longrightarrow> used' = used"
    and "requires \<Longrightarrow> \<exists>i. call_approval d = Some i \<and> map_of used i = None \<and>
      used' = (i, the (ec_execution (dc_context d)), now) # (if length used \<ge> max_consumed then [] else used)"
    and "requires \<Longrightarrow> operator_approved now d valid"
proof -
  let ?x = "dc_context d"
  show live: "context_live ?x" and t: "now \<le> the (ec_expires ?x)" and "\<not> requires \<Longrightarrow> used' = used"
    using assms by (auto simp: gate_tool_def split: if_splits)
  assume requires
  note gate = assms [unfolded gate_tool_def]
  have "(\<exists>i. call_approval d = Some i \<and> map_of used i = None \<and>
      used' = (i, the (ec_execution ?x), now) # (if length used \<ge> max_consumed then [] else used)) \<and>
      operator_approved now d valid"
  proof (cases "server_approval_for ?x (dc_call d)")
    case (Some s)
    then have "s \<in> set (ec_server ?x) \<and> sa_call s = dc_call d"
      by (auto simp: server_approval_for_def dest: find_Some_set)
    with Some gate live t \<open>requires\<close> show ?thesis
      by (auto simp: call_approval_def operator_approved_def split: if_splits)
  next
    case None
    with gate live t \<open>requires\<close> have ok: "approval_state_for_call (dc_messages d) (dc_call d) = Approved"
      and "input_matches_received (dc_messages d) (dc_call d) valid"
      by (auto split: if_splits approval_state.splits)
    from this(2) obtain seen where seen: "Call_part (dc_call d) seen \<in> set (message_parts (dc_messages d))"
      "deep_equal seen valid"
      by (auto simp: input_matches_received_def split: option.splits dest!: find_Some_set elim!: calls.elims)
    from ok obtain i where i: "find_approval_id (dc_messages d) (dc_call d) = Some i" "i \<noteq> []"
      "Approval_request i (dc_call d) \<in> set (message_parts (dc_messages d))"
      "Approval_response i True \<in> set (message_parts (dc_messages d))"
      by (rule approved_parts)
    with None gate live t \<open>requires\<close> ok seen show ?thesis
      by (auto simp: call_approval_def operator_approved_def split: if_splits)
  qed
  then show "\<exists>i. call_approval d = Some i \<and> map_of used i = None \<and>
      used' = (i, the (ec_execution ?x), now) # (if length used \<ge> max_consumed then [] else used)"
    and "operator_approved now d valid" by blast+
qed

section \<open>The steps of a dispatch\<close>

lemma emit_simps [simp]:
  "rt_session (emit e rt) = rt_session rt" "rt_consumed (emit e rt) = rt_consumed rt"
  "rt_world (emit e rt) = rt_world rt" "rt_events (emit e rt) = rt_events rt @ [e]"
  by (simp_all add: emit_def)

lemma deny_simps [simp]:
  "fst (deny a r rt) = Policy_denied r" "snd (deny a r rt) = emit (Tool_result_event (ad_name a) (Denied_status r)) rt"
  by (simp_all add: deny_def)

text \<open>What a call that passes steps 1 to 7 satisfies.\<close>

definition call_permitted :: "int \<Rightarrow> 'w adapter \<Rightarrow> dispatch_call \<Rightarrow> session_state \<Rightarrow> bool" where
  "call_permitted now a d s \<longleftrightarrow>
     ss_id s \<noteq> [] \<and> ss_workspace s = po_workspace (dc_policy d) \<and> ss_active s \<and>
     (po_deny_persistent (dc_policy d) \<longrightarrow> ad_risk a = Read_risk) \<and>
     (\<forall>k \<in> set_option (po_scope (dc_policy d)). \<forall>ks \<in> set_option (ad_scopes a). k \<in> set ks) \<and>
     phase_allowed a d (ss_phase s) \<and> (ad_name a, ad_version a) \<in> set (po_allowed (dc_policy d)) \<and>
     now \<le> dc_deadline d \<and> ss_calls s < po_max_calls (dc_policy d)"

lemma check_call_Inr: "check_call now a d input s = Inr valid \<longleftrightarrow> call_permitted now a d s \<and> ad_input a input = Some valid"
  by (auto simp: check_call_def call_permitted_def Let_def split: option.splits)

lemma admit_call_Inr:
  "admit_call gate_now now a d input rt = (Inr valid, rt1) \<longleftrightarrow>
     call_permitted now a d (rt_session rt) \<and> ad_input a input = Some valid \<and>
     (\<exists>used. gate_tool gate_now (ad_requires_approval a) (dc_context d) (dc_call d) (dc_messages d) valid
          (rt_consumed rt) = Inr used \<and> rt1 = rt\<lparr>rt_consumed := used\<rparr>)"
proof (cases "check_call now a d input (rt_session rt)")
  case (Inl c)
  then show ?thesis
    using check_call_Inr [of now a d input "rt_session rt" valid]
    by (auto simp: admit_call_def apfst_def map_prod_def split: prod.splits)
next
  case (Inr v)
  then show ?thesis
    using check_call_Inr [of now a d input "rt_session rt" v]
    by (auto simp: admit_call_def apfst_def map_prod_def split: sum.splits prod.splits)
qed

lemma admit_call_Inl:
  assumes "admit_call gate_now now a d input rt = (Inl r, rt1)"
  shows "rt_session rt1 = rt_session rt \<and> rt_consumed rt1 = rt_consumed rt \<and> rt_world rt1 = rt_world rt \<and>
    (\<exists>es. rt_events rt1 = rt_events rt @ es \<and> (\<forall>e \<in> set es. \<not> is_Tool_dispatched e)) \<and>
    (\<exists>c. r = Policy_denied c)"
  using assms by (auto simp: admit_call_def deny_def apfst_def map_prod_def split: sum.splits prod.splits if_splits)

lemma start_call_Inr:
  assumes "start_call a d valid diff rt = (Inr u, rt2)"
  shows "ad_risk a \<noteq> Read_risk \<Longrightarrow> \<exists>f. diff = Some f \<and> (\<forall>h \<in> set_option (bound_hash d). df_hash f = h)"
    and "rt_consumed rt2 = rt_consumed rt" and "rt_world rt2 = rt_world rt"
    and "rt_session rt2 = (rt_session rt)\<lparr>ss_calls := ss_calls (rt_session rt) + 1\<rparr>"
  using assms
  by (auto simp: start_call_def deny_def Let_def check_diff_staleness_def apfst_def map_prod_def
      split: if_splits option.splits sum.splits)

lemma start_call_Inl:
  assumes "start_call a d valid diff rt = (Inl out, rt2)"
  shows "rt_consumed rt2 = rt_consumed rt \<and> rt_world rt2 = rt_world rt \<and>
    (\<exists>es. rt_events rt2 = rt_events rt @ es \<and> (\<forall>e \<in> set es. \<not> is_Tool_dispatched e))"
  using assms
  by (auto simp: start_call_def deny_def Let_def apfst_def map_prod_def diff_event_def
      split: if_splits option.splits sum.splits)

lemma finish_call_frame:
  assumes "finish_call a d valid rt = (r, rt')"
  shows "rt_consumed rt' = rt_consumed rt" and "ss_calls (rt_session rt') = ss_calls (rt_session rt)"
    and "rt_world rt' = snd (ad_execute a valid (rt_world rt))"
  using assms by (auto simp: finish_call_def Let_def split: sum.splits prod.splits if_splits)

section \<open>Properties of a dispatch\<close>

lemma dispatch_cases:
  assumes "dispatch gate_now now a d input rt = (out, rt')"
  obtains (stopped) "rt_world rt' = rt_world rt"
      and "\<exists>es. rt_events rt' = rt_events rt @ es \<and> (\<forall>e \<in> set es. \<not> is_Tool_dispatched e)"
  | (run) valid rt1 rt2 r where "admit_call gate_now now a d input rt = (Inr valid, rt1)"
      and "start_call a d valid (recompute_preview a valid (rt_world rt)) rt1 = (Inr (), rt2)"
      and "finish_call a d valid rt2 = (r, rt')" and "out = Returned r"
proof -
  obtain res rt1 where admit: "admit_call gate_now now a d input rt = (res, rt1)" by fastforce
  show thesis
  proof (cases res)
    case (Inl r)
    then show thesis
      using stopped admit_call_Inl admit assms by (fastforce simp: dispatch_def)
  next
    case (Inr valid)
    then have w: "rt_world rt1 = rt_world rt" "rt_events rt1 = rt_events rt"
      using admit by (auto simp: admit_call_Inr)
    obtain q rt2 where start: "start_call a d valid (recompute_preview a valid (rt_world rt)) rt1 = (q, rt2)"
      by fastforce
    show thesis
    proof (cases q)
      case (Inl o')
      then show thesis
        using start_call_Inl [OF start [unfolded Inl]] stopped Inr admit start assms w
        by (auto simp: dispatch_def)
    next
      case (Inr u)
      obtain r rt3 where "finish_call a d valid rt2 = (r, rt3)" by fastforce
      with Inr \<open>res = Inr valid\<close> admit start assms w show thesis
        by (intro run [of valid rt1 rt2 r]) (auto simp: dispatch_def apfst_def)
    qed
  qed
qed

text \<open>
  C3. The adapter of a tool is called, or the catalog changes, only when every check of the dispatch
  held: the session is active in the workspace of the run, the policy lists the tool at this version,
  a run that is not interactive uses read tools only, the pinned scope is supported, deadline and
  budget are not exhausted, the input parses, and the execution context is live. A tool that requires
  approval in addition had the operator's approval of this call, with an approval id that no dispatch
  had used and that is used from now on; a persistent tool had a valid preview of the state it ran
  on, whose hash is the one the approval is bound to.
\<close>

theorem tool_runs_only_when_allowed:
  assumes "dispatch gate_now now a d input rt = (out, rt')"
    and "rt_world rt' \<noteq> rt_world rt \<or>
      (\<exists>e \<in> set (drop (length (rt_events rt)) (rt_events rt')). is_Tool_dispatched e)"
  shows "call_permitted now a d (rt_session rt) \<and> context_live (dc_context d) \<and>
    gate_now \<le> the (ec_expires (dc_context d)) \<and>
    (\<exists>valid. ad_input a input = Some valid \<and>
      (ad_requires_approval a \<longrightarrow>
        operator_approved gate_now d valid \<and>
        (\<exists>i. call_approval d = Some i \<and> map_of (rt_consumed rt) i = None \<and>
             map_of (rt_consumed rt') i \<noteq> None)) \<and>
      (ad_risk a \<noteq> Read_risk \<longrightarrow>
        (\<exists>f. compute_adapter_preview (ad_preview a) valid (rt_world rt) = Some f \<and>
             (\<forall>h. bound_hash d = Some h \<longrightarrow> df_hash f = h))))"
  using assms(1)
proof (cases rule: dispatch_cases)
  case stopped
  then show ?thesis using assms(2) by auto
next
  case (run valid rt1 rt2 r)
  from run(1) obtain used where permitted: "call_permitted now a d (rt_session rt)" "ad_input a input = Some valid"
    and gate: "gate_tool gate_now (ad_requires_approval a) (dc_context d) (dc_call d) (dc_messages d) valid
      (rt_consumed rt) = Inr used" and rt1: "rt1 = rt\<lparr>rt_consumed := used\<rparr>"
    by (auto simp: admit_call_Inr)
  have used: "rt_consumed rt' = used"
    using finish_call_frame(1) [OF run(3)] start_call_Inr(2) [OF run(2)] rt1 by simp
  from gate_tool_Inr [OF gate] start_call_Inr(1) [OF run(2)] permitted show ?thesis
    unfolding used recompute_preview_def by (intro conjI exI [of _ valid]) (auto split: if_splits)
qed

text \<open>
  C5. What the operator approved is what runs. When a persistent tool whose preview provider builds
  its diffs runs under an approval bound to the hash of a built diff the operator saw, the preview of
  the state it runs on has the content of that diff, unless the two texts are a collision of the
  digest.
\<close>

theorem approval_binds_content:
  assumes "dispatch gate_now now a d input rt = (out, rt')"
    and "\<exists>e \<in> set (drop (length (rt_events rt)) (rt_events rt')). is_Tool_dispatched e"
    and "ad_risk a \<noteq> Read_risk"
    and "ad_preview a = Some p" and "\<forall>valid w f. p valid w = Inr (Some f) \<longrightarrow> built_diff f"
    and "built_diff seen" and "bound_hash d = Some (df_hash seen)"
  shows "\<exists>valid f. ad_input a input = Some valid \<and> p valid (rt_world rt) = Inr (Some f) \<and>
    (same_content f seen \<or> texts_collide (content_value f) (content_value seen))"
  using assms(1)
proof (cases rule: dispatch_cases)
  case stopped
  then show ?thesis using assms(2) by auto
next
  case (run valid rt1 rt2 r)
  from run(1) have valid: "ad_input a input = Some valid" by (auto simp: admit_call_Inr)
  from start_call_Inr(1) [OF run(2) assms(3)] assms(3,4,7)
  obtain f where "compute_adapter_preview (Some p) valid (rt_world rt) = Some f" and hash: "df_hash f = df_hash seen"
    by (auto simp: recompute_preview_def)
  then have f: "p valid (rt_world rt) = Inr (Some f)"
    by (auto simp: compute_adapter_preview_def split: sum.splits option.splits)
  then have "built_diff f" using assms(5) by blast
  from built_diffs_agree [OF this assms(6) hash] valid f show ?thesis by blast
qed

end
