(* ===== verification/ToolRuns.thy ===== *)
theory ToolRuns
  imports ToolGate
begin

text \<open>
  Tool calls that overlap. A model may emit several tool calls in one step, and each dispatch
  suspends where the code awaits: after the gate, after the preview, and while the adapter runs.
  The system here has any number of calls in flight over any number of sessions, with the registry of
  consumed approvals and the catalog shared, and the catalog may change at any moment.
\<close>

section \<open>Registries of single-use tokens\<close>

text \<open>
  What the gate relies on: consuming a token that was used is refused, and below its capacity the
  registry remembers every token. A stamp is what is recorded beside the token.
\<close>

locale single_use_registry =
  fixes used :: "'s \<Rightarrow> 'k set"
    and entries :: "'s \<Rightarrow> nat"
    and consume :: "'k \<Rightarrow> 'x \<Rightarrow> 's \<Rightarrow> 's option"
    and capacity :: nat
  assumes refuses: "consume k x s = Some s' \<Longrightarrow> k \<notin> used s"
    and remembers: "consume k x s = Some s' \<Longrightarrow> entries s < capacity \<Longrightarrow>
      used s' = insert k (used s) \<and> entries s' = Suc (entries s)"
begin

fun consume_all :: "('k \<times> 'x) list \<Rightarrow> 's \<Rightarrow> 's option" where
  "consume_all [] s = Some s"
| "consume_all ((k, x) # ks) s = Option.bind (consume k x s) (consume_all ks)"

lemma consume_all_append:
  "consume_all (ks @ ls) s = Option.bind (consume_all ks s) (consume_all ls)"
  by (induction ks s rule: consume_all.induct) (simp_all split: Option.bind_split)

lemma consumed_once:
  assumes "consume_all ks s = Some s'" and "entries s + length ks \<le> capacity"
  shows "distinct (map fst ks) \<and> fst ` set ks \<inter> used s = {} \<and>
    used s' = used s \<union> fst ` set ks \<and> entries s' = entries s + length ks"
  using assms
proof (induction ks s rule: consume_all.induct)
  case (2 k x ks s)
  then obtain t where t: "consume k x s = Some t" "consume_all ks t = Some s'"
    by (auto split: Option.bind_splits)
  with 2 have "used t = insert k (used s)" "entries t = Suc (entries s)" "k \<notin> used s"
    using remembers refuses by auto
  with 2 t show ?case by auto
qed simp

end

definition consume_stamped :: "string \<Rightarrow> string \<times> int \<Rightarrow> consumed \<Rightarrow> consumed option" where
  "consume_stamped i x used = (case consume_approval (snd x) i (fst x) used of Inl _ \<Rightarrow> None | Inr u \<Rightarrow> Some u)"

lemma consume_stamped_Some:
  "consume_stamped i x used = Some u \<longleftrightarrow> consume_approval (snd x) i (fst x) used = Inr u"
  unfolding consume_stamped_def by (auto simp del: consume_approval_Inr split: sum.splits)

interpretation approvals: single_use_registry "\<lambda>u. dom (map_of u)" length consume_stamped max_consumed
  by unfold_locales (auto simp: consume_stamped_Some)

section \<open>Calls in flight\<close>

datatype call_stage =
    Admitted
  | Previewed "action_diff option"
  | Running "action_diff option"

record 'w pending =
  pc_adapter :: "'w adapter"
  pc_call :: dispatch_call
  pc_session :: string
  pc_valid :: json
  pc_stage :: call_stage

text \<open>\<open>sy_granted\<close> is the history of consumed approvals, oldest first.\<close>

record 'w system =
  sy_sessions :: "string \<Rightarrow> session_state"
  sy_consumed :: consumed
  sy_world :: 'w
  sy_events :: "tool_event list"
  sy_pending :: "'w pending list"
  sy_granted :: "(string \<times> string \<times> int) list"

definition runtime_of :: "'w system \<Rightarrow> string \<Rightarrow> 'w runtime" where
  "runtime_of sy k = \<lparr>rt_session = sy_sessions sy k, rt_consumed = sy_consumed sy, rt_world = sy_world sy,
     rt_events = sy_events sy\<rparr>"

definition put_back :: "string \<Rightarrow> 'w runtime \<Rightarrow> 'w system \<Rightarrow> 'w system" where
  "put_back k rt sy = sy\<lparr>sy_sessions := (sy_sessions sy)(k := rt_session rt), sy_consumed := rt_consumed rt,
     sy_world := rt_world rt, sy_events := rt_events rt\<rparr>"

definition remove_at :: "nat \<Rightarrow> 'a list \<Rightarrow> 'a list" where
  "remove_at i xs = take i xs @ drop (Suc i) xs"

definition grant_of :: "int \<Rightarrow> 'w adapter \<Rightarrow> dispatch_call \<Rightarrow> (string \<times> string \<times> int) list" where
  "grant_of now a d =
     (if ad_requires_approval a
      then [(the (call_approval d), the (ec_execution (dc_context d)), now)] else [])"

inductive tool_step :: "'w system \<Rightarrow> 'w system \<Rightarrow> bool" where
  admit: "admit_call gate_now now a d input (runtime_of sy k) = (Inr valid, rt) \<Longrightarrow>
    tool_step sy ((put_back k rt sy)\<lparr>
      sy_pending := sy_pending sy @ [\<lparr>pc_adapter = a, pc_call = d, pc_session = k, pc_valid = valid,
                                       pc_stage = Admitted\<rparr>],
      sy_granted := sy_granted sy @ grant_of gate_now a d\<rparr>)"
| refuse: "admit_call gate_now now a d input (runtime_of sy k) = (Inl r, rt) \<Longrightarrow>
    tool_step sy (put_back k rt sy)"
| preview: "i < length (sy_pending sy) \<Longrightarrow> p = sy_pending sy ! i \<Longrightarrow> pc_stage p = Admitted \<Longrightarrow>
    tool_step sy (sy\<lparr>sy_pending := (sy_pending sy)[i :=
      p\<lparr>pc_stage := Previewed (recompute_preview (pc_adapter p) (pc_valid p) (sy_world sy))\<rparr>]\<rparr>)"
| start: "i < length (sy_pending sy) \<Longrightarrow> p = sy_pending sy ! i \<Longrightarrow> pc_stage p = Previewed f \<Longrightarrow>
    start_call (pc_adapter p) (pc_call p) (pc_valid p) f (runtime_of sy (pc_session p)) = (Inr u, rt) \<Longrightarrow>
    tool_step sy ((put_back (pc_session p) rt sy)\<lparr>sy_pending := (sy_pending sy)[i := p\<lparr>pc_stage := Running f\<rparr>]\<rparr>)"
| abort: "i < length (sy_pending sy) \<Longrightarrow> p = sy_pending sy ! i \<Longrightarrow> pc_stage p = Previewed f \<Longrightarrow>
    start_call (pc_adapter p) (pc_call p) (pc_valid p) f (runtime_of sy (pc_session p)) = (Inl out, rt) \<Longrightarrow>
    tool_step sy ((put_back (pc_session p) rt sy)\<lparr>sy_pending := remove_at i (sy_pending sy)\<rparr>)"
| finish: "i < length (sy_pending sy) \<Longrightarrow> p = sy_pending sy ! i \<Longrightarrow> pc_stage p = Running f \<Longrightarrow>
    finish_call (pc_adapter p) (pc_call p) (pc_valid p) (runtime_of sy (pc_session p)) = (r, rt) \<Longrightarrow>
    tool_step sy ((put_back (pc_session p) rt sy)\<lparr>sy_pending := remove_at i (sy_pending sy)\<rparr>)"
| environment: "tool_step sy (sy\<lparr>sy_world := w\<rparr>)"

text \<open>A process starts with no consumed approvals and no call in flight.\<close>

definition initial_system :: "'w system \<Rightarrow> bool" where
  "initial_system sy \<longleftrightarrow> sy_consumed sy = [] \<and> sy_pending sy = [] \<and> sy_granted sy = []"

inductive reachable_system :: "'w system \<Rightarrow> bool" where
  initial: "initial_system sy \<Longrightarrow> reachable_system sy"
| step: "reachable_system sy \<Longrightarrow> tool_step sy sy' \<Longrightarrow> reachable_system sy'"

section \<open>The invariant\<close>

text \<open>The approvals of the calls in flight.\<close>

definition approval_of :: "'w pending \<Rightarrow> string option" where
  "approval_of p = (if ad_requires_approval (pc_adapter p) then call_approval (pc_call p) else None)"

definition in_flight :: "'w pending list \<Rightarrow> string list" where
  "in_flight ps = List.map_filter approval_of ps"

definition stage_ok :: "'w pending \<Rightarrow> bool" where
  "stage_ok p \<longleftrightarrow>
     (ad_requires_approval (pc_adapter p) \<longrightarrow> call_approval (pc_call p) \<noteq> None) \<and>
     (\<forall>f. pc_stage p = Running f \<longrightarrow> ad_risk (pc_adapter p) \<noteq> Read_risk \<longrightarrow>
        (\<exists>g. f = Some g \<and> (\<forall>h \<in> set_option (bound_hash (pc_call p)). df_hash g = h)))"

definition system_ok :: "'w system \<Rightarrow> bool" where
  "system_ok sy \<longleftrightarrow>
     approvals.consume_all (sy_granted sy) [] = Some (sy_consumed sy) \<and>
     mset (in_flight (sy_pending sy)) \<subseteq># mset (map fst (sy_granted sy)) \<and>
     (\<forall>p \<in> set (sy_pending sy). stage_ok p)"

lemma in_flight_simps [simp]:
  "in_flight [] = []"
  "in_flight (p # ps) = (case approval_of p of None \<Rightarrow> in_flight ps | Some i \<Rightarrow> i # in_flight ps)"
  "in_flight (ps @ qs) = in_flight ps @ in_flight qs"
  by (simp_all add: in_flight_def map_filter_def split: option.split)

lemma set_remove_at: "set (remove_at i xs) \<subseteq> set xs"
  by (auto simp: remove_at_def dest: in_set_takeD in_set_dropD)

lemma in_flight_remove: "mset (in_flight (remove_at i ps)) \<subseteq># mset (in_flight ps)"
proof (cases "i < length ps")
  case True
  then have "ps = take i ps @ ps ! i # drop (Suc i) ps" by (rule id_take_nth_drop)
  then have "mset (in_flight ps) = mset (in_flight (take i ps @ ps ! i # drop (Suc i) ps))" by simp
  then show ?thesis by (simp add: remove_at_def split: option.split)
qed (simp add: remove_at_def)

lemma in_flight_update:
  assumes "i < length ps" and "approval_of q = approval_of (ps ! i)"
  shows "in_flight (ps[i := q]) = in_flight ps"
proof -
  have "in_flight ps = in_flight (take i ps @ ps ! i # drop (Suc i) ps)"
    using assms(1) by (simp flip: id_take_nth_drop)
  with assms show ?thesis by (simp add: upd_conv_take_nth_drop)
qed

lemma distinct_submset:
  assumes "mset ys \<subseteq># mset xs" and "distinct xs"
  shows "distinct ys"
proof -
  from assms(1) obtain M where "mset xs = mset ys + M" by (auto simp: mset_subset_eq_exists_conv)
  moreover obtain zs where "mset zs = M" using ex_mset by blast
  ultimately have "mset xs = mset (ys @ zs)" by simp
  then have "distinct (ys @ zs)" using assms(2) mset_eq_imp_distinct_iff by blast
  then show ?thesis by simp
qed

lemma put_back_simps [simp]:
  "sy_consumed (put_back k rt sy) = rt_consumed rt" "sy_pending (put_back k rt sy) = sy_pending sy"
  "sy_granted (put_back k rt sy) = sy_granted sy" "sy_world (put_back k rt sy) = rt_world rt"
  "sy_sessions (put_back k rt sy) = (sy_sessions sy)(k := rt_session rt)"
  by (simp_all add: put_back_def)

lemma runtime_of_simps [simp]:
  "rt_session (runtime_of sy k) = sy_sessions sy k" "rt_consumed (runtime_of sy k) = sy_consumed sy"
  "rt_world (runtime_of sy k) = sy_world sy"
  by (simp_all add: runtime_of_def)

lemma stage_ok_update:
  assumes "\<forall>p \<in> set ps. stage_ok p" and "stage_ok q"
  shows "\<forall>p \<in> set (ps[i := q]). stage_ok p"
  using assms set_update_subset_insert [of ps i q] by auto

lemma admitted_ok:
  assumes "system_ok sy" and "admit_call gate_now now a d input (runtime_of sy k) = (Inr valid, rt)"
  shows "system_ok ((put_back k rt sy)\<lparr>
      sy_pending := sy_pending sy @ [\<lparr>pc_adapter = a, pc_call = d, pc_session = k, pc_valid = valid,
                                       pc_stage = Admitted\<rparr>],
      sy_granted := sy_granted sy @ grant_of gate_now a d\<rparr>)"
proof -
  from assms(2) obtain used where rt: "rt_consumed rt = used"
    and gate: "gate_tool gate_now (ad_requires_approval a) (dc_context d) (dc_call d) (dc_messages d) valid
      (sy_consumed sy) = Inr used"
    by (auto simp: admit_call_Inr)
  have "approvals.consume_all (grant_of gate_now a d) (sy_consumed sy) = Some used"
    using gate_tool_Inr(3,4) [OF gate] by (auto simp: grant_of_def consume_stamped_def consume_approval_def)
  moreover have "mset (in_flight [\<lparr>pc_adapter = a, pc_call = d, pc_session = k, pc_valid = valid, pc_stage = Admitted\<rparr>])
      \<subseteq># mset (map fst (grant_of gate_now a d))"
    using gate_tool_Inr(4) [OF gate] by (auto simp: grant_of_def approval_of_def)
  moreover have "ad_requires_approval a \<Longrightarrow> call_approval d \<noteq> None"
    using gate_tool_Inr(4) [OF gate] by auto
  ultimately show ?thesis
    using assms(1) rt
    by (auto simp: system_ok_def approvals.consume_all_append stage_ok_def intro: subset_mset.add_mono)
qed

lemma system_ok_step:
  assumes "tool_step sy sy'" and "system_ok sy"
  shows "system_ok sy'"
  using assms
proof (cases rule: tool_step.cases)
  case (admit gate_now now a d input k valid rt)
  then show ?thesis using admitted_ok assms(2) by blast
next
  case (refuse gate_now now a d input k r rt)
  then show ?thesis using assms(2) admit_call_Inl [OF refuse(2)] by (simp add: system_ok_def)
next
  case (preview i p)
  then have "stage_ok (p\<lparr>pc_stage := Previewed (recompute_preview (pc_adapter p) (pc_valid p) (sy_world sy))\<rparr>)"
    using assms(2) nth_mem [OF preview(2)] by (auto simp: system_ok_def stage_ok_def)
  with preview assms(2) show ?thesis
    using stage_ok_update [of "sy_pending sy"] by (simp add: system_ok_def in_flight_update approval_of_def)
next
  case (start i p f u rt)
  have "stage_ok (p\<lparr>pc_stage := Running f\<rparr>)"
    using assms(2) nth_mem [OF start(2)] start(3) start_call_Inr(1) [OF start(5)]
    by (auto simp: system_ok_def stage_ok_def)
  with start assms(2) show ?thesis
    using stage_ok_update [of "sy_pending sy"] start_call_Inr(2) [OF start(5)]
    by (simp add: system_ok_def in_flight_update approval_of_def)
next
  case (abort i p f out rt)
  then show ?thesis
    using assms(2) start_call_Inl [OF abort(5)] in_flight_remove [of i "sy_pending sy"]
      set_remove_at [of i "sy_pending sy"]
    by (auto simp: system_ok_def intro: subset_mset.order_trans)
next
  case (finish i p f r rt)
  then show ?thesis
    using assms(2) finish_call_frame(1) [OF finish(5)] in_flight_remove [of i "sy_pending sy"]
      set_remove_at [of i "sy_pending sy"]
    by (auto simp: system_ok_def intro: subset_mset.order_trans)
next
  case environment
  then show ?thesis using assms(2) by (simp add: system_ok_def)
qed

lemma reachable_ok: "reachable_system sy \<Longrightarrow> system_ok sy"
  by (induction rule: reachable_system.induct) (auto simp: initial_system_def system_ok_def dest: system_ok_step)

text \<open>
  C4. Approvals are single-use, however calls overlap. Until the registry of consumed approvals has
  been filled, no approval has been consumed twice in any interleaving of dispatches over any
  sessions, no two calls in flight rest on the same approval, and every running call of a persistent
  tool passed a preview whose hash is the one its approval is bound to.
\<close>

theorem approvals_single_use:
  assumes "reachable_system sy" and "length (sy_granted sy) \<le> max_consumed"
  shows "distinct (map fst (sy_granted sy)) \<and> distinct (in_flight (sy_pending sy)) \<and>
    set (in_flight (sy_pending sy)) \<subseteq> dom (map_of (sy_consumed sy)) \<and>
    (\<forall>p \<in> set (sy_pending sy). stage_ok p)"
proof -
  from reachable_ok [OF assms(1)] have ok: "system_ok sy" .
  then have "approvals.consume_all (sy_granted sy) [] = Some (sy_consumed sy)"
    by (simp add: system_ok_def)
  from approvals.consumed_once [OF this] assms(2)
  have d: "distinct (map fst (sy_granted sy))" and dom: "dom (map_of (sy_consumed sy)) = fst ` set (sy_granted sy)"
    by simp_all
  from ok have sub: "mset (in_flight (sy_pending sy)) \<subseteq># mset (map fst (sy_granted sy))"
    by (simp add: system_ok_def)
  with d have "distinct (in_flight (sy_pending sy))"
    using distinct_submset [OF sub] by simp
  moreover have "set (in_flight (sy_pending sy)) \<subseteq> dom (map_of (sy_consumed sy))"
    using set_mset_mono [OF sub] dom by simp
  ultimately show ?thesis using d ok by (simp add: system_ok_def)
qed

section \<open>The budget of a run\<close>

type_synonym 'w dispatch_request = "int \<times> int \<times> 'w adapter \<times> dispatch_call \<times> json"

fun dispatch_all :: "'w dispatch_request list \<Rightarrow> 'w runtime \<Rightarrow> 'w runtime" where
  "dispatch_all [] rt = rt"
| "dispatch_all ((gate_now, now, a, d, input) # rest) rt =
     dispatch_all rest (snd (dispatch gate_now now a d input rt))"

definition dispatched :: "'w runtime \<Rightarrow> nat" where
  "dispatched rt = length (filter is_Tool_dispatched (rt_events rt))"

lemma start_call_dispatched:
  assumes "start_call a d valid diff rt = (Inr u, rt2)"
  shows "dispatched rt2 = Suc (dispatched rt)"
  using assms by (auto simp: start_call_def deny_def Let_def dispatched_def diff_event_def apfst_def map_prod_def
      split: if_splits option.splits sum.splits)

lemma finish_call_dispatched:
  assumes "finish_call a d valid rt = (r, rt')"
  shows "dispatched rt' = dispatched rt"
  using assms by (auto simp: finish_call_def Let_def dispatched_def split: sum.splits prod.splits if_splits)

lemma start_call_budget:
  assumes "start_call a d valid diff rt = (Inl out, rt2)"
  shows "ss_calls (rt_session rt) \<le> ss_calls (rt_session rt2)"
    and "ss_calls (rt_session rt2) \<le> ss_calls (rt_session rt) + 1"
  using assms
  by (auto simp: start_call_def deny_def Let_def apfst_def map_prod_def split: if_splits option.splits sum.splits)

lemma no_new_dispatch:
  "rt_events rt' = rt_events rt @ es \<Longrightarrow> \<forall>e \<in> set es. \<not> is_Tool_dispatched e \<Longrightarrow> dispatched rt' = dispatched rt"
  by (simp add: dispatched_def filter_empty_conv)

lemma dispatch_budget:
  assumes "dispatch gate_now now a d input rt = (out, rt')" and "po_max_calls (dc_policy d) \<le> m"
    and "ss_calls (rt_session rt) \<le> m"
  shows "ss_calls (rt_session rt') \<le> m \<and>
    int (dispatched rt') - int (dispatched rt) \<le> ss_calls (rt_session rt') - ss_calls (rt_session rt)"
proof -
  obtain res rt1 where admit: "admit_call gate_now now a d input rt = (res, rt1)" by fastforce
  show ?thesis
  proof (cases res)
    case (Inl r)
    then have "rt' = rt1" using admit assms(1) by (simp add: dispatch_def)
    moreover from admit Inl obtain es where "rt_events rt1 = rt_events rt @ es" "\<forall>e \<in> set es. \<not> is_Tool_dispatched e"
      and "rt_session rt1 = rt_session rt"
      using admit_call_Inl by blast
    ultimately show ?thesis using assms(3) no_new_dispatch by fastforce
  next
    case (Inr valid)
    then have rt1: "rt_session rt1 = rt_session rt" "dispatched rt1 = dispatched rt"
      and room: "ss_calls (rt_session rt) < m"
      using admit assms(2) by (auto simp: admit_call_Inr call_permitted_def dispatched_def)
    obtain q rt2 where start: "start_call a d valid (recompute_preview a valid (rt_world rt1)) rt1 = (q, rt2)"
      by fastforce
    show ?thesis
    proof (cases q)
      case (Inl o')
      then have "rt' = rt2" using start admit \<open>res = Inr valid\<close> assms(1) by (simp add: dispatch_def)
      moreover obtain es where "rt_events rt2 = rt_events rt1 @ es" "\<forall>e \<in> set es. \<not> is_Tool_dispatched e"
        using start_call_Inl start Inl by blast
      ultimately show ?thesis
        using no_new_dispatch [of rt2 rt1 es] start_call_budget [OF start [unfolded Inl]] rt1 room by auto
    next
      case (Inr u)
      obtain r rt3 where fin: "finish_call a d valid rt2 = (r, rt3)" by fastforce
      with Inr start admit \<open>res = Inr valid\<close> assms(1) have "rt' = rt3"
        by (simp add: dispatch_def)
      then show ?thesis
        using finish_call_frame(2) [OF fin] finish_call_dispatched [OF fin] start_call_Inr(4) [of a d valid _ rt1 u rt2]
          start_call_dispatched [of a d valid _ rt1 u rt2] start Inr rt1 room by simp
    qed
  qed
qed


end
