(* ===== verification/ToolSamples.thy ===== *)
theory ToolSamples
  imports ToolRuns
begin

text \<open>
  A sample catalog and tool on which the properties of the tool gate are exercised, and a run in
  which overlapping calls exceed the call budget.
\<close>

section \<open>A persistent tool over a counter\<close>

text \<open>The catalog is a number; the preview shows it and the tool increments it.\<close>

definition counter_diff_input :: "nat \<Rightarrow> diff_input" where
  "counter_diff_input w =
     \<lparr>in_tool = ''dismiss_stored_proposal'', in_version = 1, in_risk = Proposal_write, in_workspace = ''ws'',
      in_scope = None, in_sku_count = int w, in_skus = [''SKU-1''], in_rows = None, in_files = None,
      in_change_set = None, in_network = Some No_network, in_evidence = None, in_states = None\<rparr>"

definition counter_hash :: "nat \<Rightarrow> string" where
  "counter_hash w = projr (compute_action_diff_hash (candidate_content (counter_diff_input w)))"

definition counter_diff :: "nat \<Rightarrow> action_diff" where
  "counter_diff w = with_hash (candidate_content (counter_diff_input w)) ''2026-01-01'' (counter_hash w)"

definition counter_preview :: "(json, nat) preview_provider" where
  "counter_preview valid w =
     (case build_action_diff ''2026-01-01'' (counter_diff_input w) of Inl _ \<Rightarrow> Inl ''no digest'' | Inr f \<Rightarrow> Inr f)"

definition counter_tool :: "nat adapter" where
  "counter_tool =
     \<lparr>ad_name = ''dismiss_stored_proposal'', ad_version = 1, ad_risk = Proposal_write, ad_requires_approval = True,
      ad_phases = [Approve_phase], ad_scopes = None, ad_input = Some, ad_output = None,
      ad_preview = Some counter_preview, ad_scope = (\<lambda>_. ''proposal''),
      ad_execute = (\<lambda>_ w. (Inr (Ok_result (C_object [])), Suc w))\<rparr>"

definition no_overrides :: policy_overrides where
  "no_overrides = \<lparr>ov_max_calls = None, ov_max_bytes = None, ov_deadline_ms = None, ov_call_timeout_ms = None\<rparr>"

definition counter_call :: dispatch_call where
  "counter_call =
     \<lparr>dc_policy = create_policy ''ws'' ''run'' ''turn'' None None no_overrides (run_allowlist [counter_tool] Interactive),
      dc_context = \<lparr>ec_execution = Some ''exec'', ec_expires = Some 1000,
        ec_server = [\<lparr>sa_call = ''pb-1'', sa_approval = ''cp-run:gate'', sa_diff = counter_hash 0, sa_expires = 500\<rparr>],
        ec_bound = [(''pb-1'', counter_hash 0)]\<rparr>,
      dc_deadline = 1000, dc_max_bytes = 4096, dc_call = ''pb-1'', dc_messages = []\<rparr>"

definition counter_runtime :: "nat runtime" where
  "counter_runtime = \<lparr>rt_session = create_session ''run'' ''ws'' ''turn'', rt_consumed = [], rt_world = 0, rt_events = []\<rparr>"

lemma counter_content_hash: "compute_action_diff_hash (candidate_content (counter_diff_input 0)) = Inr (counter_hash 0)"
proof -
  have "json_ok (content_value (candidate_content (counter_diff_input 0)))"
    by (auto simp: content_value_def content_fields_def candidate_content_def counter_diff_input_def default_list_def
        network_value_def nullable_def max_safe_integer_def intro!: json_ok_object_of json_ok_plain_array)
  from json_ok_hash [OF this] show ?thesis
    by (auto simp: compute_action_diff_hash_def counter_hash_def)
qed

lemma counter_diff_built: "build_action_diff ''2026-01-01'' (counter_diff_input 0) = Inr (Some (counter_diff 0))"
proof -
  have "is_sha256_hex (counter_hash 0)"
    using counter_content_hash by (simp add: compute_action_diff_hash_def hash_canonical_json_shape)
  then have "parse_action_diff (counter_diff 0) = Some (counter_diff 0)"
    by (simp add: parse_action_diff_def counter_diff_def with_hash_def candidate_content_def counter_diff_input_def
        diff_content.defs action_diff.defs bounded_def count_ok_def default_list_def max_safe_integer_def)
  then show ?thesis
    using counter_content_hash by (simp add: build_action_diff_def counter_diff_def)
qed

lemma counter_preview_built: "counter_preview valid w = Inr (Some f) \<Longrightarrow> built_diff f"
  unfolding built_diff_def counter_preview_def
  by (intro exI [of _ "''2026-01-01''"] exI [of _ "counter_diff_input w"])
    (auto simp: counter_diff_input_def default_list_def split: sum.splits)

lemma counter_preview_now: "compute_adapter_preview (Some counter_preview) valid 0 = Some (counter_diff 0)"
proof -
  have "parse_action_diff (counter_diff 0) = Some (counter_diff 0)"
    using counter_diff_built by (auto simp: build_action_diff_def counter_diff_def counter_content_hash)
  then show ?thesis by (simp add: compute_adapter_preview_def counter_preview_def counter_diff_built)
qed

lemma empty_digest: "\<exists>h. input_digest (C_object []) = Inr h"
  unfolding input_digest_def
  by (rule json_ok_hash) (simp add: plain_object_def json_ok_def)

lemma counter_dispatch:
  "\<exists>out rt'. dispatch 100 100 counter_tool counter_call (C_object []) counter_runtime = (out, rt') \<and>
     rt_world rt' = 1 \<and> (\<exists>e \<in> set (rt_events rt'). is_Tool_dispatched e)"
proof -
  obtain h where h: "input_digest (C_object []) = Inr h" using empty_digest by blast
  have a: "admit_call 100 100 counter_tool counter_call (C_object []) counter_runtime =
      (Inr (C_object []), counter_runtime\<lparr>rt_consumed := [(''cp-run:gate'', ''exec'', 100)]\<rparr>)"
    by (simp add: admit_call_Inr call_permitted_def counter_tool_def counter_call_def counter_runtime_def
        create_session_def create_policy_def no_overrides_def run_allowlist_def phase_allowed_def gate_tool_def
        context_live_def server_approval_for_def max_consumed_def)
  have p: "recompute_preview counter_tool (C_object []) 0 = Some (counter_diff 0)"
    using counter_preview_now by (simp add: recompute_preview_def counter_tool_def)
  have "df_hash (counter_diff 0) = counter_hash 0" by (simp add: counter_diff_def)
  then have s: "check_diff_staleness (Some (counter_diff 0)) (bound_hash counter_call) = Fresh"
    by (simp add: check_diff_staleness_def bound_hash_def counter_call_def)
  have w: "rt_world counter_runtime = 0" by (simp add: counter_runtime_def)
  have e: "ad_execute counter_tool v n = (Inr (Ok_result (C_object [])), Suc n)" "ad_risk counter_tool = Proposal_write" for v n
    by (simp_all add: counter_tool_def)
  show ?thesis
    by (simp add: dispatch_def a p s w e start_call_def h Let_def finish_call_def apfst_def map_prod_def)
qed

theorem tool_runs_only_when_allowed_witness:
  "call_permitted 100 counter_tool counter_call (rt_session counter_runtime) \<and>
   operator_approved 100 counter_call (C_object [])"
proof -
  obtain out rt' where d: "dispatch 100 100 counter_tool counter_call (C_object []) counter_runtime = (out, rt')"
    and ran: "rt_world rt' = 1" using counter_dispatch by blast
  have "rt_world rt' \<noteq> rt_world counter_runtime \<or>
      (\<exists>e \<in> set (drop (length (rt_events counter_runtime)) (rt_events rt')). is_Tool_dispatched e)"
    using ran by (simp add: counter_runtime_def)
  from tool_runs_only_when_allowed [OF d this] show ?thesis by (auto simp: counter_tool_def)
qed

theorem approval_binds_content_witness:
  "\<exists>f. counter_preview (C_object []) 0 = Inr (Some f) \<and>
     (same_content f (counter_diff 0) \<or> texts_collide (content_value f) (content_value (counter_diff 0)))"
proof -
  obtain out rt' where d: "dispatch 100 100 counter_tool counter_call (C_object []) counter_runtime = (out, rt')"
    and ran: "\<exists>e \<in> set (rt_events rt'). is_Tool_dispatched e" using counter_dispatch by blast
  have "\<exists>e \<in> set (drop (length (rt_events counter_runtime)) (rt_events rt')). is_Tool_dispatched e"
    using ran by (simp add: counter_runtime_def)
  then have "\<exists>valid f. ad_input counter_tool (C_object []) = Some valid \<and>
      counter_preview valid (rt_world counter_runtime) = Inr (Some f) \<and>
      (same_content f (counter_diff 0) \<or> texts_collide (content_value f) (content_value (counter_diff 0)))"
  proof (rule approval_binds_content [OF d])
    show "built_diff (counter_diff 0)"
      using counter_preview_built [of "C_object []" 0] by (simp add: counter_preview_def counter_diff_built)
  qed (auto simp: counter_tool_def counter_call_def bound_hash_def counter_diff_def intro: counter_preview_built)
  then show ?thesis by (auto simp: counter_tool_def counter_runtime_def)
qed

section \<open>Calls in flight\<close>

definition counter_system :: "nat system" where
  "counter_system = \<lparr>sy_sessions = (\<lambda>_. create_session ''run'' ''ws'' ''turn''), sy_consumed = [], sy_world = 0,
     sy_events = [], sy_pending = [], sy_granted = []\<rparr>"

lemma counter_system_reachable: "reachable_system counter_system"
  by (rule reachable_system.initial) (simp add: initial_system_def counter_system_def)

lemma counter_admitted:
  "\<exists>rt. admit_call 100 100 counter_tool counter_call (C_object []) (runtime_of counter_system ''run'') = (Inr (C_object []), rt)"
  by (simp add: admit_call_Inr call_permitted_def counter_tool_def counter_call_def runtime_of_def counter_system_def
      create_session_def create_policy_def no_overrides_def run_allowlist_def phase_allowed_def gate_tool_def
      context_live_def server_approval_for_def max_consumed_def)

theorem approvals_single_use_witness:
  "\<exists>sy :: nat system. reachable_system sy \<and> in_flight (sy_pending sy) = [''cp-run:gate''] \<and>
     ''cp-run:gate'' \<in> dom (map_of (sy_consumed sy))"
proof -
  obtain rt where "admit_call 100 100 counter_tool counter_call (C_object []) (runtime_of counter_system ''run'') =
      (Inr (C_object []), rt)" using counter_admitted by blast
  from tool_step.admit [OF this] obtain sy :: "nat system" where sy: "tool_step counter_system sy"
    and granted: "sy_granted sy = [(''cp-run:gate'', ''exec'', 100)]"
    and pending: "in_flight (sy_pending sy) = [''cp-run:gate'']"
    by (fastforce simp: counter_system_def grant_of_def counter_tool_def counter_call_def call_approval_def
        server_approval_for_def approval_of_def)
  have r: "reachable_system sy"
    using reachable_system.step counter_system_reachable sy by blast
  have "length (sy_granted sy) \<le> max_consumed" by (simp add: granted max_consumed_def)
  from approvals_single_use [OF r this] pending r show ?thesis by auto
qed

section \<open>A read tool and a budget of one call\<close>

definition reading_tool :: "nat adapter" where
  "reading_tool =
     \<lparr>ad_name = ''listStoredProposals'', ad_version = 1, ad_risk = Read_risk, ad_requires_approval = False,
      ad_phases = [Investigate, Verify_phase], ad_scopes = None, ad_input = Some, ad_output = None,
      ad_preview = None, ad_scope = (\<lambda>_. ''proposals''),
      ad_execute = (\<lambda>_ w. (Inr (Ok_result (C_array [])), w))\<rparr>"

definition reading_call :: dispatch_call where
  "reading_call =
     \<lparr>dc_policy = create_policy ''ws'' ''run'' ''turn'' None None (no_overrides\<lparr>ov_max_calls := Some 1\<rparr>)
        (run_allowlist [reading_tool] Interactive),
      dc_context = \<lparr>ec_execution = Some ''exec'', ec_expires = Some 1000, ec_server = [], ec_bound = []\<rparr>,
      dc_deadline = 1000, dc_max_bytes = 4096, dc_call = ''call-1'', dc_messages = []\<rparr>"


text \<open>
  The admission of a read tool and, once its preview stage is over, its start, in a system where no
  call of the session has started and any number are in flight.
\<close>

definition reading_pending :: "nat pending" where
  "reading_pending = \<lparr>pc_adapter = reading_tool, pc_call = reading_call, pc_session = ''run'', pc_valid = C_object [],
     pc_stage = Admitted\<rparr>"

lemma reading_admitted:
  assumes "sy_sessions sy ''run'' = create_session ''run'' ''ws'' ''turn''"
  shows "\<exists>sy'. tool_step sy sy' \<and> sy_sessions sy' = sy_sessions sy \<and> sy_pending sy' = sy_pending sy @ [reading_pending]"
proof -
  have "admit_call 0 0 reading_tool reading_call (C_object []) (runtime_of sy ''run'') =
      (Inr (C_object []), runtime_of sy ''run'')"
    using assms
    by (simp add: admit_call_Inr call_permitted_def reading_tool_def reading_call_def runtime_of_def
        create_session_def create_policy_def no_overrides_def run_allowlist_def phase_allowed_def gate_tool_def
        context_live_def)
  from tool_step.admit [OF this] show ?thesis
    by (intro exI conjI) (assumption, simp_all add: reading_pending_def)
qed

lemma reading_started:
  assumes "i < length (sy_pending sy)" and "sy_pending sy ! i = reading_pending"
  shows "\<exists>s1 sy'. tool_step sy s1 \<and> tool_step s1 sy' \<and>
    ss_calls (sy_sessions sy' ''run'') = ss_calls (sy_sessions sy ''run'') + 1 \<and>
    sy_pending sy' = (sy_pending sy)[i := reading_pending\<lparr>pc_stage := Running None\<rparr>]"
proof -
  let ?s1 = "sy\<lparr>sy_pending := (sy_pending sy)[i := reading_pending\<lparr>pc_stage := Previewed None\<rparr>]\<rparr>"
  have "tool_step sy ?s1"
    using tool_step.preview [OF assms(1) refl, unfolded assms(2)]
    by (simp add: reading_pending_def recompute_preview_def reading_tool_def)
  moreover obtain h where h: "input_digest (C_object []) = Inr h" using empty_digest by blast
  let ?p = "reading_pending\<lparr>pc_stage := Previewed None\<rparr>"
  obtain rt where start: "start_call (pc_adapter ?p) (pc_call ?p) (pc_valid ?p) None (runtime_of ?s1 (pc_session ?p)) = (Inr (), rt)"
    and calls: "ss_calls (rt_session rt) = ss_calls (sy_sessions sy ''run'') + 1"
    by (simp add: start_call_def reading_pending_def reading_tool_def h Let_def runtime_of_def)
  have "tool_step ?s1 ((put_back (pc_session ?p) rt ?s1)\<lparr>sy_pending := (sy_pending ?s1)[i := ?p\<lparr>pc_stage := Running None\<rparr>]\<rparr>)"
    by (rule tool_step.start [OF _ _ _ start]) (use assms(1) in \<open>simp_all\<close>)
  ultimately show ?thesis
    using calls by (intro exI conjI) (assumption, assumption, simp_all add: reading_pending_def)
qed

text \<open>
  C17. Overlapping calls exceed the budget: with a budget of one call, two calls admitted before
  either starts both run, because the budget is read at admission and charged after the calls have
  suspended.
\<close>

theorem overlapping_calls_exceed_budget:
  "\<exists>sy :: nat system. reachable_system sy \<and>
     map (\<lambda>p. po_max_calls (dc_policy (pc_call p))) (sy_pending sy) = [1, 1] \<and>
     map pc_stage (sy_pending sy) = [Running None, Running None] \<and> ss_calls (sy_sessions sy ''run'') = 2"
proof -
  let ?fresh = "create_session ''run'' ''ws'' ''turn''"
  have "sy_sessions counter_system ''run'' = ?fresh" by (simp add: counter_system_def)
  from reading_admitted [OF this] obtain s1 where s1: "tool_step counter_system s1"
    "sy_sessions s1 ''run'' = ?fresh" "sy_pending s1 = [reading_pending]"
    by (auto simp: counter_system_def)
  from reading_admitted [OF s1(2)] obtain s2 where s2: "tool_step s1 s2"
    "sy_sessions s2 ''run'' = ?fresh" "sy_pending s2 = [reading_pending, reading_pending]"
    using s1 by auto
  from reading_started [of 0 s2] s2 obtain t3 s3 where s3: "tool_step s2 t3" "tool_step t3 s3"
    "ss_calls (sy_sessions s3 ''run'') = 1" "sy_pending s3 = [reading_pending\<lparr>pc_stage := Running None\<rparr>, reading_pending]"
    by (auto simp: create_session_def)
  from reading_started [of 1 s3] s3 obtain t4 s4 where s4: "tool_step s3 t4" "tool_step t4 s4"
    "ss_calls (sy_sessions s4 ''run'') = 2"
    "sy_pending s4 = [reading_pending\<lparr>pc_stage := Running None\<rparr>, reading_pending\<lparr>pc_stage := Running None\<rparr>]"
    by auto
  have "reachable_system s4"
    using counter_system_reachable s1(1) s2(1) s3(1,2) s4(1,2) reachable_system.step by meson
  with s4 show ?thesis
    by (intro exI [of _ s4]) (simp add: reading_pending_def reading_call_def create_policy_def no_overrides_def)
qed

text \<open>
  At the cap the registry forgets: an approval consumed before is accepted again.
\<close>

lemma cap_forgets:
  assumes "length used = max_consumed" and "map_of used i = None"
  shows "\<exists>u v. consume_approval t i e used = Inr u \<and> map_of u j = (if j = i then Some (e, t) else None) \<and>
    (j \<noteq> i \<longrightarrow> consume_approval t j e u = Inr v)"
  using assms by (auto simp: max_consumed_def)

end
