(* ===== verification/PlaybookSchema.thy ===== *)
theory PlaybookSchema
  imports ToolGate
begin

text \<open>
  Store Manager playbooks (\<open>src/src/shared/schemas/store-manager-playbook.ts\<close>): the step language,
  the definition with its schema, and the variable references of the input templates.
\<close>

section \<open>Data\<close>

datatype summarize_mode = Deterministic | Model_bounded

datatype propose_mode = Transient_preview | Persistent_stored

text \<open>The variants of \<open>StoreManagerPlaybookStepSchema\<close>.\<close>

datatype step_body =
    Read_step string int json
  | Summarize_step summarize_mode
  | Propose_step propose_mode "bool option"
  | Checkpoint_step bool
  | Execute_step string int json "risk_class option"
  | Verify_step "(string \<times> int) list"

record playbook_step =
  st_id :: string
  st_description :: "string option"
  st_depends :: "string list option"
  st_body :: step_body

datatype variable_type = String_variable | Product_field_variable | Change_set_variable | Sku_variable | Vendor_variable

record playbook_variable =
  va_name :: string
  va_type :: variable_type
  va_required :: bool

datatype template_kind = Weekly_taxonomy_cleanup | New_vendor_import_review | Image_integrity_pass | Launch_readiness_check

datatype playbook_status = Draft_status | Active_status

record playbook =
  pb_id :: string
  pb_workspace :: string
  pb_name :: string
  pb_description :: "string option"
  pb_template :: "template_kind option"
  pb_version :: int
  pb_status :: playbook_status
  pb_kinds :: "scope_kind list"
  pb_max_skus :: int
  pb_variables :: "playbook_variable list"
  pb_steps :: "playbook_step list"
  pb_hash :: string
  pb_activated_at :: "string option"
  pb_activated_by :: "string option"
  pb_created :: string
  pb_updated :: string

definition depends_on :: "playbook_step \<Rightarrow> string list" where
  "depends_on s = (case st_depends s of None \<Rightarrow> [] | Some ds \<Rightarrow> ds)"

section \<open>The schema\<close>

text \<open>\<open>z.string().trim().min(1).max(n)\<close>.\<close>

definition parse_trimmed :: "nat \<Rightarrow> string \<Rightarrow> string option" where
  "parse_trimmed n s = (let t = trim s in if bounded n t then Some t else None)"

definition version_ok :: "int \<Rightarrow> bool" where
  "version_ok v \<longleftrightarrow> 0 < v \<and> v \<le> 10000"

text \<open>
  \<open>boundedTemplate\<close>. The bound named \<open>maxTemplateKeys\<close> limits the length of each key. The text of
  \<open>JSON.stringify\<close> has the length of the compact text.
\<close>

definition template_ok :: "json \<Rightarrow> bool" where
  "template_ok v =
     (case v of
        C_object ps \<Rightarrow> (\<forall>p \<in> set ps. 1 \<le> length (fst p) \<and> length (fst p) \<le> 20) \<and>
          length (serialize_canonical_json v 0 0) \<le> 4000
      | _ \<Rightarrow> False)"

definition parse_tool_ref :: "string \<times> int \<Rightarrow> (string \<times> int) option" where
  "parse_tool_ref r =
     (if version_ok (snd r) then map_option (\<lambda>n. (n, snd r)) (parse_trimmed 200 (fst r)) else None)"

fun parse_body :: "step_body \<Rightarrow> step_body option" where
  "parse_body (Read_step tool version template) =
     (if template_ok template
      then map_option (\<lambda>(t, v). Read_step t v template) (parse_tool_ref (tool, version)) else None)"
| "parse_body (Summarize_step mode) = Some (Summarize_step mode)"
| "parse_body (Propose_step mode declared) = Some (Propose_step mode declared)"
| "parse_body (Checkpoint_step diff) = (if diff then Some (Checkpoint_step diff) else None)"
| "parse_body (Execute_step tool version template risk) =
     (if template_ok template
      then map_option (\<lambda>(t, v). Execute_step t v template risk) (parse_tool_ref (tool, version)) else None)"
| "parse_body (Verify_step refs) =
     (if 1 \<le> length refs \<and> length refs \<le> 5
      then map_option Verify_step (those (map parse_tool_ref refs)) else None)"

definition parse_depends :: "string list option \<Rightarrow> string list option option" where
  "parse_depends ds =
     (case ds of None \<Rightarrow> Some None
      | Some xs \<Rightarrow> if length xs \<le> 3 then map_option Some (those (map (parse_trimmed 64) xs)) else None)"

definition parse_optional :: "('a \<Rightarrow> 'a option) \<Rightarrow> 'a option \<Rightarrow> 'a option option" where
  "parse_optional parse v = (case v of None \<Rightarrow> Some None | Some x \<Rightarrow> map_option Some (parse x))"

definition parse_step :: "playbook_step \<Rightarrow> playbook_step option" where
  "parse_step s =
     (case (parse_trimmed 64 (st_id s), parse_optional (parse_trimmed 300) (st_description s),
            parse_depends (st_depends s), parse_body (st_body s)) of
        (Some i, Some t, Some ds, Some b) \<Rightarrow> Some \<lparr>st_id = i, st_description = t, st_depends = ds, st_body = b\<rparr>
      | _ \<Rightarrow> None)"

definition parse_variable :: "playbook_variable \<Rightarrow> playbook_variable option" where
  "parse_variable v = map_option (\<lambda>n. v\<lparr>va_name := n\<rparr>) (parse_trimmed 64 (va_name v))"

definition parse_description :: "string \<Rightarrow> string option" where
  "parse_description s = (let t = trim s in if length t \<le> 500 then Some t else None)"

definition parse_playbook :: "playbook \<Rightarrow> playbook option" where
  "parse_playbook p =
     (if bounded 100 (pb_id p) \<and> bounded 200 (pb_workspace p) \<and> version_ok (pb_version p) \<and>
         length (pb_kinds p) \<le> 5 \<and> 0 < pb_max_skus p \<and> pb_max_skus p \<le> 200 \<and>
         length (pb_variables p) \<le> 10 \<and> 1 \<le> length (pb_steps p) \<and> length (pb_steps p) \<le> 20 \<and>
         is_sha256_hex (pb_hash p) \<and> pred_option (bounded 64) (pb_activated_at p) \<and>
         pred_option (bounded 200) (pb_activated_by p) \<and> bounded 64 (pb_created p) \<and> bounded 64 (pb_updated p)
      then case (parse_trimmed 100 (pb_name p), parse_optional parse_description (pb_description p), those (map parse_variable (pb_variables p)),
                 those (map parse_step (pb_steps p))) of
             (Some n, Some d, Some vs, Some ss) \<Rightarrow>
               Some (p\<lparr>pb_name := n, pb_description := d, pb_variables := vs, pb_steps := ss\<rparr>)
           | _ \<Rightarrow> None
      else None)"

section \<open>Variable references\<close>

text \<open>
  The expression \<open>\{\{\s*([a-zA-Z0-9_]+)\s*\}\}\<close>. White space, name characters and braces are disjoint,
  so a match at a position is unique: the name, and the text after the match.
\<close>

definition name_unit :: "nat \<Rightarrow> bool" where
  "name_unit c \<longleftrightarrow> (97 \<le> c \<and> c \<le> 122) \<or> (65 \<le> c \<and> c \<le> 90) \<or> (48 \<le> c \<and> c \<le> 57) \<or> c = 95"

definition match_reference :: "code_units \<Rightarrow> (code_units \<times> code_units) option" where
  "match_reference s =
     (if starts_with s [123, 123]
      then let inner = dropWhile is_space_unit (drop 2 s);
               name = takeWhile name_unit inner;
               rest = dropWhile is_space_unit (dropWhile name_unit inner)
           in if name \<noteq> [] \<and> starts_with rest [125, 125] then Some (name, drop 2 rest) else None
      else None)"

lemma match_reference_shorter: "match_reference s = Some (name, rest) \<Longrightarrow> length rest < length s"
proof -
  assume "match_reference s = Some (name, rest)"
  then obtain t where "s = [123, 123] @ t"
    and rest: "rest = drop 2 (dropWhile is_space_unit (dropWhile name_unit (dropWhile is_space_unit t)))"
    by (auto simp: match_reference_def starts_with_iff Let_def split: if_splits)
  moreover have "length (dropWhile is_space_unit (dropWhile name_unit (dropWhile is_space_unit t))) \<le> length t"
    by (meson le_trans length_dropWhile_le)
  ultimately show ?thesis by simp
qed

text \<open>A text as the global matches leave it: references and the units between them.\<close>

datatype text_segment = Unit_segment nat | Reference code_units

function text_segments :: "code_units \<Rightarrow> text_segment list" where
  "text_segments [] = []"
| "text_segments (c # s) =
     (case match_reference (c # s) of
        Some (name, rest) \<Rightarrow> Reference name # text_segments rest
      | None \<Rightarrow> Unit_segment c # text_segments s)"
  by pat_completeness auto
termination
  by (relation "measure length") (auto dest: match_reference_shorter)

fun segment_references :: "text_segment \<Rightarrow> code_units list" where
  "segment_references (Unit_segment c) = []"
| "segment_references (Reference n) = [n]"

definition text_references :: "code_units \<Rightarrow> code_units list" where
  "text_references s = concat (map segment_references (text_segments s))"

fun collect_references :: "json \<Rightarrow> code_units list" where
  "collect_references (C_string s) = text_references s"
| "collect_references (C_array vs) = concat (map collect_references vs)"
| "collect_references (C_object ps) = concat (map (\<lambda>p. collect_references (snd p)) ps)"
| "collect_references _ = []"

text \<open>
  \<open>interpolateTemplate\<close>: every reference is replaced by the text of its variable; an unknown name is an
  error. Variables hold strings; their names are not those of inherited object properties.
\<close>

definition variable_text :: "(string \<times> code_units) list \<Rightarrow> code_units \<Rightarrow> code_units option" where
  "variable_text vars name = map_of (map (map_prod units id) vars) name"

fun interpolate_segments :: "(string \<times> code_units) list \<Rightarrow> text_segment list \<Rightarrow> code_units option" where
  "interpolate_segments vars [] = Some []"
| "interpolate_segments vars (Unit_segment c # ss) = map_option (Cons c) (interpolate_segments vars ss)"
| "interpolate_segments vars (Reference n # ss) =
     (case variable_text vars n of None \<Rightarrow> None
      | Some t \<Rightarrow> map_option (\<lambda>r. t @ r) (interpolate_segments vars ss))"

fun interpolate :: "(string \<times> code_units) list \<Rightarrow> json \<Rightarrow> json option" where
  "interpolate vars (C_string s) = map_option C_string (interpolate_segments vars (text_segments s))"
| "interpolate vars (C_array vs) = map_option C_array (those (map (interpolate vars) vs))"
| "interpolate vars (C_object ps) =
     map_option (\<lambda>ws. C_object (zip (map fst ps) ws)) (those (map (\<lambda>p. interpolate vars (snd p)) ps))"
| "interpolate vars v = Some v"

text \<open>Interpolation succeeds exactly when every referenced name has a value.\<close>

lemma interpolate_segments_defined:
  "interpolate_segments vars ss \<noteq> None \<longleftrightarrow>
     (\<forall>n \<in> set (concat (map segment_references ss)). variable_text vars n \<noteq> None)"
  by (induction vars ss rule: interpolate_segments.induct) (auto split: option.splits)

lemma those_defined: "those xs \<noteq> None \<longleftrightarrow> None \<notin> set xs"
  by (induction xs) (auto split: option.splits)

lemma interpolate_defined:
  "interpolate vars v \<noteq> None \<longleftrightarrow> (\<forall>n \<in> set (collect_references v). variable_text vars n \<noteq> None)"
proof (induction vars v rule: interpolate.induct)
  case (1 vars s)
  then show ?case using interpolate_segments_defined [of vars "text_segments s"] by (simp add: text_references_def)
next
  case (2 vars vs)
  have "None \<notin> set (map (interpolate vars) vs) \<longleftrightarrow> (\<forall>v \<in> set vs. interpolate vars v \<noteq> None)"
    by force
  with 2 show ?case using those_defined [of "map (interpolate vars) vs"] by simp
next
  case (3 vars ps)
  have "None \<notin> set (map (\<lambda>p. interpolate vars (snd p)) ps) \<longleftrightarrow> (\<forall>p \<in> set ps. interpolate vars (snd p) \<noteq> None)"
    by force
  with 3 show ?case using those_defined [of "map (\<lambda>p. interpolate vars (snd p)) ps"] by simp
qed simp_all

end
