(* ===== verification/PlaybookValidator.thy ===== *)
theory PlaybookValidator
  imports PlaybookSchema
begin

text \<open>
  The playbook validator (\<open>src/src/store-manager/playbooks/validator.ts\<close>): a definition is checked
  against the tools registered now, failing closed with a code and the step at fault. An error is
  the code with the step's id when the code has one.
\<close>

section \<open>Tools as the validator sees them\<close>

record tool_meta =
  tm_name :: string
  tm_version :: int
  tm_risk :: risk_class
  tm_requires_approval :: bool
  tm_scopes :: "scope_kind list option"

type_synonym tool_resolver = "string \<Rightarrow> int \<Rightarrow> tool_meta option"

text \<open>The registry's resolver ignores the requested version.\<close>

definition playbook_metadata :: "'w adapter list \<Rightarrow> string \<Rightarrow> tool_meta option" where
  "playbook_metadata tools name =
     map_option (\<lambda>a. \<lparr>tm_name = ad_name a, tm_version = ad_version a, tm_risk = ad_risk a,
         tm_requires_approval = ad_requires_approval a, tm_scopes = ad_scopes a\<rparr>) (find_tool name tools)"

definition playbook_resolver :: "'w adapter list \<Rightarrow> tool_resolver" where
  "playbook_resolver tools name version = playbook_metadata tools name"

section \<open>Errors\<close>

datatype validation_code =
    Unknown_tool | Tool_version_drift | Step_cycle | Forward_dependency | Unknown_dependency
  | Unknown_variable | Duplicate_step_id | Unbounded_fan_out | Missing_approval_before_mutation
  | Approval_without_diff | Missing_verification | Missing_proposal_risk_declaration
  | Risk_downgrade_forgery | Scope_mismatch | Read_step_requires_read_tool
  | Execute_requires_persistent_tool | Verify_requires_read_tools | Mixed_tool_versions
  | Invalid_definition

type_synonym validation_error = "validation_code \<times> string option"

section \<open>Helpers\<close>

fun tool_refs_of_step :: "step_body \<Rightarrow> (string \<times> int) list" where
  "tool_refs_of_step (Read_step tool version template) = [(tool, version)]"
| "tool_refs_of_step (Execute_step tool version template risk) = [(tool, version)]"
| "tool_refs_of_step (Verify_step refs) = refs"
| "tool_refs_of_step _ = []"

fun template_of_step :: "step_body \<Rightarrow> json option" where
  "template_of_step (Read_step tool version template) = Some template"
| "template_of_step (Execute_step tool version template risk) = Some template"
| "template_of_step _ = None"

fun is_execute :: "step_body \<Rightarrow> bool" where
  "is_execute (Execute_step tool version template risk) = True"
| "is_execute _ = False"

fun is_checkpoint :: "step_body \<Rightarrow> bool" where
  "is_checkpoint (Checkpoint_step diff) = True"
| "is_checkpoint _ = False"

fun is_verify :: "step_body \<Rightarrow> bool" where
  "is_verify (Verify_step refs) = True"
| "is_verify _ = False"

definition require_tool :: "tool_resolver \<Rightarrow> string \<Rightarrow> string \<times> int \<Rightarrow> (validation_error, tool_meta) result" where
  "require_tool resolve sid r =
     (case resolve (fst r) (snd r) of
        None \<Rightarrow> Inl (Unknown_tool, Some sid)
      | Some m \<Rightarrow> if tm_version m \<noteq> snd r then Inl (Tool_version_drift, Some sid) else Inr m)"

definition scope_compatible :: "scope_kind list \<Rightarrow> scope_kind list option \<Rightarrow> bool" where
  "scope_compatible kinds supported =
     (case supported of None \<Rightarrow> True
      | Some ks \<Rightarrow> kinds = [] \<or> (ks \<noteq> [] \<and> (\<exists>k \<in> set ks. k \<in> set kinds)))"

section \<open>Dependencies\<close>

text \<open>The position of a step id; ids are distinct when it is used.\<close>

fun position :: "string \<Rightarrow> playbook_step list \<Rightarrow> nat option" where
  "position i [] = None"
| "position i (s # ss) = (if st_id s = i then Some 0 else map_option Suc (position i ss))"

definition check_dependency :: "playbook_step list \<Rightarrow> playbook_step \<Rightarrow> string \<Rightarrow> (validation_error, unit) result" where
  "check_dependency steps s dep =
     (case position dep steps of
        None \<Rightarrow> Inl (Unknown_dependency, Some (st_id s))
      | Some i \<Rightarrow>
          if dep = st_id s then Inl (Step_cycle, Some (st_id s))
          else if i \<ge> the (position (st_id s) steps) then Inl (Forward_dependency, Some (st_id s))
          else Inr ())"

definition check_dependencies :: "playbook_step list \<Rightarrow> (validation_error, unit) result" where
  "check_dependencies steps = each_res (\<lambda>s. each_res (check_dependency steps s) (depends_on s)) steps"

text \<open>\<open>inDegree\<close> after the loop above: one per listed dependency, repetitions included.\<close>

definition in_degree :: "playbook_step list \<Rightarrow> string \<Rightarrow> int" where
  "in_degree steps i = (\<Sum>s \<leftarrow> steps. if st_id s = i then int (length (depends_on s)) else 0)"

text \<open>
  The loop over the steps for one id taken from the queue: a step that depends on it loses one, and
  is queued when nothing is left.
\<close>

fun relax :: "string \<Rightarrow> playbook_step list \<Rightarrow> (string \<Rightarrow> int) \<Rightarrow> string list \<Rightarrow> (string \<Rightarrow> int) \<times> string list" where
  "relax i [] deg queue = (deg, queue)"
| "relax i (s # ss) deg queue =
     (if i \<in> set (depends_on s)
      then let deg' = deg(st_id s := deg (st_id s) - 1)
           in relax i ss deg' (if deg' (st_id s) = 0 then queue @ [st_id s] else queue)
      else relax i ss deg queue)"

text \<open>An id is queued when its count reaches zero from above, which happens at most once.\<close>

definition waiting :: "playbook_step list \<Rightarrow> (string \<Rightarrow> int) \<Rightarrow> nat" where
  "waiting steps deg = card {i \<in> st_id ` set steps. 0 < deg i}"

lemma relax_measure:
  assumes "relax i ss deg queue = (deg', queue')" and "set ss \<subseteq> set steps"
  shows "waiting steps deg' + length queue' \<le> waiting steps deg + length queue"
  using assms
proof (induction i ss deg queue rule: relax.induct)
  case (2 i s ss deg queue)
  show ?case
  proof (cases "i \<in> set (depends_on s)")
    case True
    let ?deg = "deg(st_id s := deg (st_id s) - 1)"
    let ?queue = "if ?deg (st_id s) = 0 then queue @ [st_id s] else queue"
    let ?P = "\<lambda>d. {j \<in> st_id ` set steps. 0 < d j}"
    have fin: "finite (?P deg)" by simp
    have sub: "?P ?deg \<subseteq> ?P deg" by auto
    have "waiting steps ?deg + length ?queue \<le> waiting steps deg + length queue"
    proof (cases "?deg (st_id s) = 0")
      case True
      then have "st_id s \<in> ?P deg" "st_id s \<notin> ?P ?deg" using 2(4) by auto
      then have "card (?P ?deg) < card (?P deg)"
        using sub fin by (metis (no_types, lifting) psubsetI psubset_card_mono)
      with True show ?thesis by (simp add: waiting_def)
    next
      case False
      then show ?thesis using card_mono [OF fin sub] by (simp add: waiting_def)
    qed
    moreover have "relax i ss ?deg ?queue = (deg', queue')"
      using 2(3) True by (simp add: Let_def)
    ultimately show ?thesis
      using 2(1) [OF True refl] 2(4) by (simp add: Let_def fun_upd_def)
  qed (use 2 in auto)
qed simp

function kahn :: "playbook_step list \<Rightarrow> (string \<Rightarrow> int) \<Rightarrow> string list \<Rightarrow> string list \<Rightarrow> string list" where
  "kahn steps deg [] seen = seen"
| "kahn steps deg (i # queue) seen =
     (if i \<in> set seen then kahn steps deg queue seen
      else case relax i steps deg queue of (deg', queue') \<Rightarrow> kahn steps deg' queue' (i # seen))"
  by pat_completeness auto
termination
proof (relation "measure (\<lambda>(steps, deg, queue, seen). waiting steps deg + length queue)", goal_cases)
  case (3 steps deg i queue seen deg' queue')
  then have "relax i steps deg queue = (deg', queue')" by simp
  from relax_measure [OF this subset_refl] show ?case by simp
qed simp_all

definition kahn_seen :: "playbook_step list \<Rightarrow> string list" where
  "kahn_seen steps =
     (let deg = in_degree steps
      in kahn steps deg (map st_id (filter (\<lambda>s. deg (st_id s) = 0) steps)) [])"

definition check_cycle :: "playbook_step list \<Rightarrow> (validation_error, unit) result" where
  "check_cycle steps = guard_res (length (kahn_seen steps) = length steps) (Step_cycle, None)"

section \<open>Steps\<close>

definition check_ref :: "tool_resolver \<Rightarrow> playbook \<Rightarrow> string \<Rightarrow> string \<times> int \<Rightarrow> (validation_error, unit) result" where
  "check_ref resolve p sid r =
     bind_res (require_tool resolve sid r) (\<lambda>m.
       guard_res (scope_compatible (pb_kinds p) (tm_scopes m)) (Scope_mismatch, Some sid))"

fun check_body :: "tool_resolver \<Rightarrow> string \<Rightarrow> step_body \<Rightarrow> (validation_error, unit) result" where
  "check_body resolve sid (Read_step tool version template) =
     bind_res (require_tool resolve sid (tool, version)) (\<lambda>m.
       guard_res (tm_risk m = Read_risk) (Read_step_requires_read_tool, Some sid))"
| "check_body resolve sid (Summarize_step mode) = Inr ()"
| "check_body resolve sid (Propose_step mode declared) =
     guard_res (\<not> (mode = Persistent_stored \<and> declared \<noteq> Some True)) (Missing_proposal_risk_declaration, Some sid)"
| "check_body resolve sid (Checkpoint_step diff) = guard_res diff (Approval_without_diff, Some sid)"
| "check_body resolve sid (Execute_step tool version template risk) =
     bind_res (require_tool resolve sid (tool, version)) (\<lambda>m.
       if tm_risk m = Read_risk then Inl (Execute_requires_persistent_tool, Some sid)
       else guard_res (\<forall>r \<in> set_option risk. r = tm_risk m) (Risk_downgrade_forgery, Some sid))"
| "check_body resolve sid (Verify_step refs) =
     each_res (\<lambda>r. bind_res (require_tool resolve sid r) (\<lambda>m.
       guard_res (tm_risk m = Read_risk) (Verify_requires_read_tools, Some sid))) refs"

definition check_step :: "tool_resolver \<Rightarrow> playbook \<Rightarrow> playbook_step \<Rightarrow> (validation_error, unit) result" where
  "check_step resolve p s =
     bind_res (each_res (check_ref resolve p (st_id s)) (tool_refs_of_step (st_body s))) (\<lambda>_.
       check_body resolve (st_id s) (st_body s))"

section \<open>Rules across steps\<close>

definition checkpoint_before :: "playbook_step list \<Rightarrow> nat \<Rightarrow> bool" where
  "checkpoint_before steps i \<longleftrightarrow> 0 < i \<and> is_checkpoint (st_body (steps ! (i - 1)))"

definition checkpoint_dependency :: "playbook_step list \<Rightarrow> playbook_step \<Rightarrow> bool" where
  "checkpoint_dependency steps s \<longleftrightarrow>
     (\<exists>dep \<in> set (depends_on s). \<exists>j \<in> set_option (position dep steps). is_checkpoint (st_body (steps ! j)))"

definition check_approvals :: "playbook_step list \<Rightarrow> (validation_error, unit) result" where
  "check_approvals steps =
     each_res (\<lambda>i. guard_res (is_execute (st_body (steps ! i)) \<longrightarrow>
         checkpoint_dependency steps (steps ! i) \<or> checkpoint_before steps i)
       (Missing_approval_before_mutation, Some (st_id (steps ! i)))) [0..<length steps]"

definition last_mutation :: "playbook_step list \<Rightarrow> nat option" where
  "last_mutation steps = find (\<lambda>i. is_execute (st_body (steps ! i))) (rev [0..<length steps])"

definition check_verification :: "playbook_step list \<Rightarrow> (validation_error, unit) result" where
  "check_verification steps =
     (case last_mutation steps of None \<Rightarrow> Inr ()
      | Some i \<Rightarrow> guard_res (\<exists>s \<in> set (drop (Suc i) steps). is_verify (st_body s)) (Missing_verification, None))"

definition check_variables :: "playbook \<Rightarrow> playbook_step \<Rightarrow> (validation_error, unit) result" where
  "check_variables p s =
     (case template_of_step (st_body s) of None \<Rightarrow> Inr ()
      | Some t \<Rightarrow> guard_res (\<forall>n \<in> set (collect_references t). n \<in> set (map (units \<circ> va_name) (pb_variables p)))
                    (Unknown_variable, Some (st_id s)))"

text \<open>All references of the playbook; a tool named at two versions is mixed.\<close>

definition all_refs :: "playbook_step list \<Rightarrow> (string \<times> int) list" where
  "all_refs steps = concat (map (tool_refs_of_step \<circ> st_body) steps)"

definition mixed_versions :: "playbook_step list \<Rightarrow> bool" where
  "mixed_versions steps \<longleftrightarrow> (\<exists>r \<in> set (all_refs steps). \<exists>q \<in> set (all_refs steps). fst r = fst q \<and> snd r \<noteq> snd q)"

section \<open>Validation\<close>

record static_risk =
  sr_risks :: "risk_class list"
  sr_approvals :: "(string \<times> int) list"
  sr_network :: bool
  sr_diffs :: "string list"
  sr_mutation :: bool
  sr_verify :: bool

fun body_risks :: "tool_resolver \<Rightarrow> step_body \<Rightarrow> risk_class list" where
  "body_risks resolve (Propose_step Persistent_stored declared) = [Proposal_write]"
| "body_risks resolve b = List.map_filter (\<lambda>r. map_option tm_risk (resolve (fst r) (snd r))) (tool_refs_of_step b)"

fun body_diffs :: "step_body \<Rightarrow> string list" where
  "body_diffs (Execute_step tool version template risk) = [''diff'']"
| "body_diffs (Verify_step refs) = [''verification_diff'']"
| "body_diffs _ = []"

text \<open>Insertion into a JavaScript set keeps the first occurrence.\<close>

definition in_order :: "'a list \<Rightarrow> 'a list" where
  "in_order xs = rev (remdups (rev xs))"

definition static_shape :: "tool_resolver \<Rightarrow> playbook_step list \<Rightarrow> static_risk" where
  "static_shape resolve steps =
     (let bodies = map st_body steps;
          mutations = concat (map tool_refs_of_step (filter is_execute bodies))
      in \<lparr>sr_risks = in_order (concat (map (body_risks resolve) bodies)),
          sr_approvals = mutations,
          sr_network = (\<exists>r \<in> set mutations. map_option tm_risk (resolve (fst r) (snd r)) = Some Network_repair),
          sr_diffs = in_order (concat (map body_diffs bodies)),
          sr_mutation = (mutations \<noteq> []), sr_verify = (\<exists>b \<in> set bodies. is_verify b)\<rparr>)"

definition validate_playbook :: "playbook \<Rightarrow> tool_resolver \<Rightarrow> (validation_error, static_risk) result" where
  "validate_playbook p resolve =
     (let steps = pb_steps p in
      bind_res (guard_res (distinct (map st_id steps)) (Duplicate_step_id, None)) (\<lambda>_.
      bind_res (check_dependencies steps) (\<lambda>_.
      bind_res (check_cycle steps) (\<lambda>_.
      bind_res (each_res (check_step resolve p) steps) (\<lambda>_.
      bind_res (check_approvals steps) (\<lambda>_.
      bind_res (check_verification steps) (\<lambda>_.
      bind_res (each_res (check_variables p) steps) (\<lambda>_.
      bind_res (guard_res (\<not> (Sku_set \<in> set (pb_kinds p) \<and> pb_max_skus p > 200)) (Unbounded_fan_out, None)) (\<lambda>_.
      bind_res (guard_res (\<not> mixed_versions steps) (Mixed_tool_versions, None)) (\<lambda>_.
        Inr (static_shape resolve steps)))))))))))"

section \<open>The dependency check and the cycle check\<close>

lemma position_Some:
  "position i ss = Some n \<Longrightarrow> n < length ss \<and> st_id (ss ! n) = i"
  by (induction i ss arbitrary: n rule: position.induct) (auto split: if_splits)

lemma position_nth: "distinct (map st_id ss) \<Longrightarrow> n < length ss \<Longrightarrow> position (st_id (ss ! n)) ss = Some n"
proof (induction ss arbitrary: n)
  case (Cons s ss)
  then show ?case by (cases n) (auto simp: image_iff)
qed simp

text \<open>Every dependency is declared earlier.\<close>

definition depends_backwards :: "playbook_step list \<Rightarrow> bool" where
  "depends_backwards steps \<longleftrightarrow>
     (\<forall>i < length steps. \<forall>d \<in> set (depends_on (steps ! i)). \<exists>j < i. st_id (steps ! j) = d)"

lemma check_dependencies_iff:
  assumes "distinct (map st_id steps)"
  shows "check_dependencies steps = Inr () \<longleftrightarrow> depends_backwards steps"
proof -
  have one: "check_dependency steps (steps ! i) d = Inr () \<longleftrightarrow> (\<exists>j < i. st_id (steps ! j) = d)"
    if i: "i < length steps" for i d
  proof
    assume "check_dependency steps (steps ! i) d = Inr ()"
    then obtain j where "position d steps = Some j" "j < i"
      using position_nth [OF assms i] by (auto simp: check_dependency_def split: option.splits if_splits)
    then show "\<exists>j < i. st_id (steps ! j) = d" using position_Some by blast
  next
    assume "\<exists>j < i. st_id (steps ! j) = d"
    then obtain j where j: "j < i" "st_id (steps ! j) = d" by blast
    with i have "position d steps = Some j" using position_nth [OF assms, of j] by simp
    moreover have "d \<noteq> st_id (steps ! i)"
    proof
      assume "d = st_id (steps ! i)"
      then have "Some j = Some i" using \<open>position d steps = Some j\<close> position_nth [OF assms i] by simp
      then show False using j(1) by simp
    qed
    ultimately show "check_dependency steps (steps ! i) d = Inr ()"
      using position_nth [OF assms i] j by (simp add: check_dependency_def)
  qed
  show ?thesis
    unfolding check_dependencies_def depends_backwards_def each_res_Inr by (auto simp: one all_set_conv_all_nth)
qed

lemma relax_spec:
  assumes "relax i ss deg queue = (deg', queue')" and "distinct (map st_id ss)"
  shows "(\<forall>s \<in> set ss. deg' (st_id s) = deg (st_id s) - (if i \<in> set (depends_on s) then 1 else 0)) \<and>
    (\<forall>k. k \<notin> st_id ` set ss \<longrightarrow> deg' k = deg k) \<and>
    set queue' = set queue \<union> {st_id s | s. s \<in> set ss \<and> i \<in> set (depends_on s) \<and> deg (st_id s) = 1}"
  using assms
proof (induction i ss deg queue rule: relax.induct)
  case (2 i s ss deg queue)
  show ?case
  proof (cases "i \<in> set (depends_on s)")
    case True
    let ?deg = "deg(st_id s := deg (st_id s) - 1)"
    have other: "?deg (st_id t) = deg (st_id t)" if "t \<in> set ss" for t
      using that 2(4) by (auto simp: image_iff)
    from 2(1) [OF True refl] 2(3,4) True have
      "(\<forall>t \<in> set ss. deg' (st_id t) = ?deg (st_id t) - (if i \<in> set (depends_on t) then 1 else 0)) \<and>
       (\<forall>k. k \<notin> st_id ` set ss \<longrightarrow> deg' k = ?deg k) \<and>
       set queue' = set (if ?deg (st_id s) = 0 then queue @ [st_id s] else queue) \<union>
         {st_id t | t. t \<in> set ss \<and> i \<in> set (depends_on t) \<and> ?deg (st_id t) = 1}"
      by (simp add: Let_def fun_upd_def)
    moreover have "{st_id t | t. t \<in> set ss \<and> i \<in> set (depends_on t) \<and> ?deg (st_id t) = 1} =
        {st_id t | t. t \<in> set ss \<and> i \<in> set (depends_on t) \<and> deg (st_id t) = 1}"
      using other by metis
    moreover have "st_id s \<notin> st_id ` set ss" using 2(4) by simp
    ultimately show ?thesis using True other by auto
  next
    case False
    moreover have "st_id s \<notin> st_id ` set ss" using 2(4) by simp
    ultimately show ?thesis using 2 by auto
  qed
qed simp

text \<open>The state of the queue algorithm.\<close>

definition kahn_inv :: "playbook_step list \<Rightarrow> (string \<Rightarrow> int) \<Rightarrow> string list \<Rightarrow> string list \<Rightarrow> bool" where
  "kahn_inv steps deg queue seen \<longleftrightarrow>
     (\<forall>s \<in> set steps. deg (st_id s) = int (length (depends_on s)) - int (card (set (depends_on s) \<inter> set seen))) \<and>
     (\<forall>s \<in> set steps. deg (st_id s) = 0 \<longleftrightarrow> st_id s \<in> set queue \<union> set seen) \<and>
     set queue \<union> set seen \<subseteq> st_id ` set steps \<and> distinct seen"

lemma kahn_inv_relax:
  assumes inv: "kahn_inv steps deg (i # queue) seen" and d: "distinct (map st_id steps)" and new: "i \<notin> set seen"
    and relax: "relax i steps deg queue = (deg', queue')"
  shows "kahn_inv steps deg' queue' (i # seen)"
proof -
  note r = relax_spec [OF relax d]
  have count: "deg (st_id s) = int (length (depends_on s)) - int (card (set (depends_on s) \<inter> set seen))"
    and zero: "deg (st_id s) = 0 \<longleftrightarrow> st_id s \<in> set (i # queue) \<union> set seen" if "s \<in> set steps" for s
    using inv that unfolding kahn_inv_def by blast+
  have card: "card (set (depends_on s) \<inter> insert i (set seen)) =
      card (set (depends_on s) \<inter> set seen) + (if i \<in> set (depends_on s) then 1 else 0)" for s
    using new by simp
  have positive: "deg (st_id s) \<ge> 1" if "s \<in> set steps" "i \<in> set (depends_on s)" for s
  proof -
    have "card (set (depends_on s) \<inter> set seen) < card (set (depends_on s))"
      using that(2) new by (intro psubset_card_mono) auto
    also have "\<dots> \<le> length (depends_on s)" by (rule card_length)
    finally show ?thesis using count [OF that(1)] by simp
  qed
  have "deg' (st_id s) = int (length (depends_on s)) - int (card (set (depends_on s) \<inter> set (i # seen)))"
    if "s \<in> set steps" for s
    using r that count [OF that] card [of s] by simp
  moreover have "deg' (st_id s) = 0 \<longleftrightarrow> st_id s \<in> set queue' \<union> set (i # seen)" if s: "s \<in> set steps" for s
  proof (cases "i \<in> set (depends_on s)")
    case True
    have "deg' (st_id s) = deg (st_id s) - 1" using r s True by simp
    moreover have "deg (st_id s) \<noteq> 0" using positive [OF s True] by simp
    then have "st_id s \<notin> set (i # queue) \<union> set seen" using zero [OF s] by simp
    moreover have "st_id s \<in> set queue' \<longleftrightarrow> st_id s \<in> set queue \<or> deg (st_id s) = 1"
      using r s True d by (auto dest: eq_key_imp_eq_value simp: distinct_map inj_on_def)
    ultimately show ?thesis by auto
  next
    case False
    have "deg' (st_id s) = deg (st_id s)" using r s False by simp
    moreover have "st_id s \<in> set queue' \<longleftrightarrow> st_id s \<in> set queue"
      using r s False d by (auto simp: distinct_map inj_on_def)
    ultimately show ?thesis using zero [OF s] by auto
  qed
  moreover have "set queue' \<union> set (i # seen) \<subseteq> st_id ` set steps"
    using r inv by (auto simp: kahn_inv_def)
  moreover have "distinct (i # seen)" using inv new by (simp add: kahn_inv_def)
  ultimately show ?thesis by (simp add: kahn_inv_def)
qed

lemma kahn_result:
  assumes "kahn_inv steps deg queue seen" and "distinct (map st_id steps)"
  shows "\<exists>deg'. kahn_inv steps deg' [] (kahn steps deg queue seen)"
  using assms
proof (induction steps deg queue seen rule: kahn.induct)
  case (2 steps deg i queue seen)
  show ?case
  proof (cases "i \<in> set seen")
    case True
    then have "kahn_inv steps deg queue seen" using 2(3) by (auto simp: kahn_inv_def)
    then show ?thesis using 2(1) [OF True] 2(4) True by simp
  next
    case False
    obtain deg' queue' where r: "relax i steps deg queue = (deg', queue')" by fastforce
    from 2(2) [OF False r [symmetric] kahn_inv_relax [OF 2(3,4) False r] 2(4)] False r show ?thesis
      by simp
  qed
qed auto

lemma in_degree_step:
  assumes "distinct (map st_id steps)" and "s \<in> set steps"
  shows "in_degree steps (st_id s) = int (length (depends_on s))"
  using assms
proof (induction steps)
  case (Cons t steps)
  have none: "in_degree ss k = 0" if "k \<notin> st_id ` set ss" for ss k
    using that by (induction ss) (auto simp: in_degree_def)
  from Cons show ?case
    by (cases "s = t") (auto simp: in_degree_def none [unfolded in_degree_def] image_iff)
qed simp

lemma kahn_seen_fixpoint:
  assumes "distinct (map st_id steps)"
  shows "distinct (kahn_seen steps) \<and> set (kahn_seen steps) \<subseteq> st_id ` set steps \<and>
    (\<forall>s \<in> set steps. st_id s \<in> set (kahn_seen steps) \<longleftrightarrow>
       length (depends_on s) = card (set (depends_on s) \<inter> set (kahn_seen steps)))"
proof -
  let ?deg = "in_degree steps"
  have "kahn_inv steps ?deg (map st_id (filter (\<lambda>s. ?deg (st_id s) = 0) steps)) []"
  proof -
    have "in_degree steps (st_id s) = 0 \<longleftrightarrow> st_id s \<in> st_id ` {t \<in> set steps. in_degree steps (st_id t) = 0}"
      if "s \<in> set steps" for s
      using that by (auto simp: image_iff)
    then show ?thesis using assms by (auto simp: kahn_inv_def in_degree_step [OF assms])
  qed
  from kahn_result [OF this assms] obtain deg where "kahn_inv steps deg [] (kahn_seen steps)"
    unfolding kahn_seen_def Let_def by blast
  then show ?thesis unfolding kahn_inv_def by auto
qed

lemma cycle_check_iff:
  assumes "distinct (map st_id steps)" and backwards: "depends_backwards steps"
  shows "check_cycle steps = Inr () \<longleftrightarrow> (\<forall>s \<in> set steps. distinct (depends_on s))"
proof -
  let ?r = "kahn_seen steps"
  note fixpoint = kahn_seen_fixpoint [OF assms(1)]
  have all: "length ?r = length steps \<longleftrightarrow> st_id ` set steps \<subseteq> set ?r"
  proof
    assume "length ?r = length steps"
    then have "card (set ?r) = card (st_id ` set steps)"
      using fixpoint assms(1) by (metis distinct_card length_map set_map)
    then show "st_id ` set steps \<subseteq> set ?r"
      using fixpoint by (metis card_subset_eq finite_imageI finite_set order_refl)
  next
    assume "st_id ` set steps \<subseteq> set ?r"
    then have "set ?r = st_id ` set steps" using fixpoint by blast
    then show "length ?r = length steps"
      using fixpoint assms(1) by (metis distinct_card length_map set_map)
  qed
  have "st_id ` set steps \<subseteq> set ?r \<longleftrightarrow> (\<forall>s \<in> set steps. distinct (depends_on s))"
  proof
    assume sub: "st_id ` set steps \<subseteq> set ?r"
    show "\<forall>s \<in> set steps. distinct (depends_on s)"
    proof
      fix s assume s: "s \<in> set steps"
      with sub fixpoint have "length (depends_on s) = card (set (depends_on s) \<inter> set ?r)" by blast
      moreover have "card (set (depends_on s) \<inter> set ?r) \<le> card (set (depends_on s))" by (simp add: card_mono)
      ultimately have "length (depends_on s) \<le> card (set (depends_on s))" by simp
      then show "distinct (depends_on s)" by (simp add: card_distinct card_length le_antisym)
    qed
  next
    assume dist: "\<forall>s \<in> set steps. distinct (depends_on s)"
    have "st_id (steps ! i) \<in> set ?r" if "i < length steps" for i
      using that
    proof (induction i rule: less_induct)
      case (less i)
      have "set (depends_on (steps ! i)) \<subseteq> set ?r"
      proof
        fix d assume "d \<in> set (depends_on (steps ! i))"
        then obtain j where "j < i" "st_id (steps ! j) = d"
          using backwards less.prems by (auto simp: depends_backwards_def)
        then show "d \<in> set ?r" using less.IH [of j] less.prems by simp
      qed
      then have "length (depends_on (steps ! i)) = card (set (depends_on (steps ! i)) \<inter> set ?r)"
        using dist less.prems by (simp add: distinct_card Int_absorb2)
      then show ?case using fixpoint less.prems by (meson nth_mem)
    qed
    then show "st_id ` set steps \<subseteq> set ?r" by (auto simp: in_set_conv_nth)
  qed
  with all show ?thesis by (simp add: check_cycle_def)
qed

text \<open>
  C25. The cycle check after the forward check finds no cycles, since dependencies only point
  backwards: it fails exactly when a step lists the same dependency twice, and then it reports a
  cycle that does not exist.
\<close>

theorem cycle_check_rejects_repetition:
  assumes "distinct (map st_id steps)" and "check_dependencies steps = Inr ()"
  shows "check_cycle steps = Inr () \<longleftrightarrow> (\<forall>s \<in> set steps. distinct (depends_on s))"
  using cycle_check_iff check_dependencies_iff assms by blast

definition repeating_steps :: "playbook_step list" where
  "repeating_steps =
     [\<lparr>st_id = ''read'', st_description = None, st_depends = None, st_body = Summarize_step Deterministic\<rparr>,
      \<lparr>st_id = ''report'', st_description = None, st_depends = Some [''read'', ''read''], st_body = Summarize_step Deterministic\<rparr>]"

theorem cycle_check_rejects_repetition_witness:
  "check_dependencies repeating_steps = Inr () \<and> check_cycle repeating_steps = Inl (Step_cycle, None)"
proof -
  have checks: "distinct (map st_id repeating_steps)" "check_dependencies repeating_steps = Inr ()"
    by (simp_all add: repeating_steps_def check_dependencies_def check_dependency_def depends_on_def)
  have "\<not> (\<forall>s \<in> set repeating_steps. distinct (depends_on s))"
    by (simp add: repeating_steps_def depends_on_def)
  then have "check_cycle repeating_steps \<noteq> Inr ()"
    using cycle_check_rejects_repetition [OF checks] by simp
  with checks show ?thesis by (simp add: check_cycle_def guard_res_def split: if_splits)
qed

section \<open>What validation accepts\<close>

definition resolved :: "tool_resolver \<Rightarrow> string \<times> int \<Rightarrow> tool_meta option" where
  "resolved resolve r =
     (case resolve (fst r) (snd r) of None \<Rightarrow> None | Some m \<Rightarrow> if tm_version m = snd r then Some m else None)"

lemma require_tool_Inr: "require_tool resolve sid r = Inr m \<longleftrightarrow> resolved resolve r = Some m"
  by (auto simp: require_tool_def resolved_def split: option.splits)

text \<open>The rule for a step on its own.\<close>

fun body_ok :: "tool_resolver \<Rightarrow> step_body \<Rightarrow> bool" where
  "body_ok resolve (Read_step tool version template) \<longleftrightarrow>
     (\<exists>m. resolved resolve (tool, version) = Some m \<and> tm_risk m = Read_risk)"
| "body_ok resolve (Summarize_step mode) \<longleftrightarrow> True"
| "body_ok resolve (Propose_step mode declared) \<longleftrightarrow> mode = Transient_preview \<or> declared = Some True"
| "body_ok resolve (Checkpoint_step diff) \<longleftrightarrow> diff"
| "body_ok resolve (Execute_step tool version template risk) \<longleftrightarrow>
     (\<exists>m. resolved resolve (tool, version) = Some m \<and> tm_risk m \<noteq> Read_risk \<and> (\<forall>r. risk = Some r \<longrightarrow> r = tm_risk m))"
| "body_ok resolve (Verify_step refs) \<longleftrightarrow>
     (\<forall>r \<in> set refs. \<exists>m. resolved resolve r = Some m \<and> tm_risk m = Read_risk)"

lemma check_body_Inr: "check_body resolve sid b = Inr () \<longleftrightarrow> body_ok resolve b"
  by (cases b) (auto simp: bind_res_Inr_iff require_tool_Inr each_res_Inr intro: propose_mode.exhaust split: if_splits)

text \<open>A playbook the validator should accept.\<close>

definition playbook_valid :: "playbook \<Rightarrow> tool_resolver \<Rightarrow> bool" where
  "playbook_valid p resolve \<longleftrightarrow>
     (let steps = pb_steps p in
      distinct (map st_id steps) \<and> depends_backwards steps \<and>
      (\<forall>s \<in> set steps. distinct (depends_on s)) \<and>
      (\<forall>s \<in> set steps. body_ok resolve (st_body s) \<and>
         (\<forall>r \<in> set (tool_refs_of_step (st_body s)).
            \<exists>m. resolved resolve r = Some m \<and> scope_compatible (pb_kinds p) (tm_scopes m))) \<and>
      (\<forall>i < length steps. is_execute (st_body (steps ! i)) \<longrightarrow>
         (\<exists>j < i. is_checkpoint (st_body (steps ! j)) \<and>
            (Suc j = i \<or> st_id (steps ! j) \<in> set (depends_on (steps ! i)))) \<and>
         (\<exists>j < length steps. i < j \<and> is_verify (st_body (steps ! j)))) \<and>
      (\<forall>s \<in> set steps. \<forall>t \<in> set_option (template_of_step (st_body s)).
         set (collect_references t) \<subseteq> units ` va_name ` set (pb_variables p)) \<and>
      (Sku_set \<in> set (pb_kinds p) \<longrightarrow> pb_max_skus p \<le> 200) \<and> \<not> mixed_versions steps)"

lemma check_step_Inr:
  "check_step resolve p s = Inr () \<longleftrightarrow> body_ok resolve (st_body s) \<and>
     (\<forall>r \<in> set (tool_refs_of_step (st_body s)).
        \<exists>m. resolved resolve r = Some m \<and> scope_compatible (pb_kinds p) (tm_scopes m))"
  by (auto simp: check_step_def check_ref_def bind_res_Inr_iff each_res_Inr require_tool_Inr check_body_Inr)

lemma check_approvals_Inr:
  assumes "distinct (map st_id steps)" and "depends_backwards steps"
  shows "check_approvals steps = Inr () \<longleftrightarrow>
    (\<forall>i < length steps. is_execute (st_body (steps ! i)) \<longrightarrow>
       (\<exists>j < i. is_checkpoint (st_body (steps ! j)) \<and>
          (Suc j = i \<or> st_id (steps ! j) \<in> set (depends_on (steps ! i)))))"
proof -
  have dep: "checkpoint_dependency steps (steps ! i) \<longleftrightarrow>
      (\<exists>j < i. is_checkpoint (st_body (steps ! j)) \<and> st_id (steps ! j) \<in> set (depends_on (steps ! i)))"
    if i: "i < length steps" for i
  proof
    assume "checkpoint_dependency steps (steps ! i)"
    then obtain d j where d: "d \<in> set (depends_on (steps ! i))" and j: "position d steps = Some j"
      and c: "is_checkpoint (st_body (steps ! j))"
      by (auto simp: checkpoint_dependency_def)
    from assms(2) i d obtain k where "k < i" "st_id (steps ! k) = d" by (auto simp: depends_backwards_def)
    moreover have "position d steps = Some k"
      using position_nth [OF assms(1), of k] calculation i by simp
    ultimately show "\<exists>j < i. is_checkpoint (st_body (steps ! j)) \<and> st_id (steps ! j) \<in> set (depends_on (steps ! i))"
      using j c d by auto
  next
    assume "\<exists>j < i. is_checkpoint (st_body (steps ! j)) \<and> st_id (steps ! j) \<in> set (depends_on (steps ! i))"
    then obtain j where "j < i" "is_checkpoint (st_body (steps ! j))" "st_id (steps ! j) \<in> set (depends_on (steps ! i))"
      by blast
    moreover from this have "position (st_id (steps ! j)) steps = Some j"
      using position_nth [OF assms(1)] i by simp
    ultimately show "checkpoint_dependency steps (steps ! i)"
      by (auto simp: checkpoint_dependency_def)
  qed
  have before: "checkpoint_before steps i \<longleftrightarrow> (\<exists>j < i. is_checkpoint (st_body (steps ! j)) \<and> Suc j = i)" for i
    by (cases i) (auto simp: checkpoint_before_def)
  have "check_approvals steps = Inr () \<longleftrightarrow> (\<forall>i < length steps. is_execute (st_body (steps ! i)) \<longrightarrow>
      checkpoint_dependency steps (steps ! i) \<or> checkpoint_before steps i)"
    by (auto simp: check_approvals_def each_res_Inr)
  also have "\<dots> \<longleftrightarrow> (\<forall>i < length steps. is_execute (st_body (steps ! i)) \<longrightarrow>
       (\<exists>j < i. is_checkpoint (st_body (steps ! j)) \<and>
          (Suc j = i \<or> st_id (steps ! j) \<in> set (depends_on (steps ! i)))))"
    using dep before by blast
  finally show ?thesis .
qed

lemma check_verification_Inr:
  "check_verification steps = Inr () \<longleftrightarrow>
     (\<forall>i < length steps. is_execute (st_body (steps ! i)) \<longrightarrow>
        (\<exists>j < length steps. i < j \<and> is_verify (st_body (steps ! j))))"
proof -
  have after: "(\<exists>s \<in> set (drop (Suc i) steps). is_verify (st_body s)) \<longleftrightarrow>
      (\<exists>j < length steps. i < j \<and> is_verify (st_body (steps ! j)))" for i
  proof
    assume "\<exists>s \<in> set (drop (Suc i) steps). is_verify (st_body s)"
    then obtain k where "k < length steps - Suc i" "is_verify (st_body (steps ! (Suc i + k)))"
      by (auto simp: in_set_conv_nth)
    then show "\<exists>j < length steps. i < j \<and> is_verify (st_body (steps ! j))"
      by (intro exI [of _ "Suc i + k"]) auto
  next
    assume "\<exists>j < length steps. i < j \<and> is_verify (st_body (steps ! j))"
    then obtain j where j: "j < length steps" "i < j" "is_verify (st_body (steps ! j))" by blast
    then have "drop (Suc i) steps ! (j - Suc i) = steps ! j" "j - Suc i < length (drop (Suc i) steps)" by simp_all
    then have "steps ! j \<in> set (drop (Suc i) steps)" by (metis nth_mem)
    with j(3) show "\<exists>s \<in> set (drop (Suc i) steps). is_verify (st_body s)" by blast
  qed
  show ?thesis
  proof (cases "last_mutation steps")
    case None
    then have "\<forall>i < length steps. \<not> is_execute (st_body (steps ! i))"
      by (auto simp: last_mutation_def find_None_all)
    with None show ?thesis by (simp add: check_verification_def)
  next
    case (Some m)
    then obtain k where k: "k < length (rev [0..<length steps])" "rev [0..<length steps] ! k = m"
      "is_execute (st_body (steps ! m))"
      and first: "\<forall>j < k. \<not> is_execute (st_body (steps ! (rev [0..<length steps] ! j)))"
      by (auto simp: last_mutation_def find_Some_iff)
    have m: "m < length steps" and above: "i \<le> m" if "i < length steps" "is_execute (st_body (steps ! i))" for i
    proof -
      show "m < length steps" using k by (auto simp: rev_nth)
      show "i \<le> m"
      proof (rule ccontr)
        assume "\<not> i \<le> m"
        then have "length steps - 1 - i < k" "rev [0..<length steps] ! (length steps - 1 - i) = i"
          using that(1) k(1,2) by (auto simp: rev_nth)
        then show False using first that(2) by auto
      qed
    qed
    have "m < length steps" using k by (auto simp: rev_nth)
    with k(3) above after [of m] Some show ?thesis
      by (auto simp: check_verification_def) (meson le_less_trans)
  qed
qed


end
