(* ===== verification/Spec2Isabelle.thy ===== *)
theory Spec2Isabelle
  imports DriftSamples StageVocabulary Gtin ProductFilePath ContentHash PaidEffectSamples PaidEffectCoordinator
    AcquisitionBudget ListingGate CircuitBreaker Ssrf WorkStatePages ToolSamples PlaybookValidator
begin

text \<open>
  Verification of the Bay State CMS core.

  The program is a content system for a shop: products are onboarded from spreadsheets through a
  pipeline of stages (routing, discovery, extraction, listing preparation, review, drafts), partly
  by calls to paid services, until a change set is exported to the store. The theories model the
  parts that decide what is shown, spent and released.

  Shared foundations.
  \<open>Prelude\<close>: results with errors as values, the string operations of JavaScript on Latin-1 text,
  list lemmas. \<open>UnitText\<close>: the same operations on UTF-16 code units and reads of parsed JSON.
  \<open>CanonicalJson\<close> (\<open>shared/stable-id.ts\<close>): validation of a value into the JSON domain and the
  emitter with sorted keys; the text is injective and independent of key order. \<open>Sha256\<close>
  (\<open>shared/hash.ts\<close>): the fallback digest on 32-bit words, against the message schedule and padding
  of the standard. \<open>ContentHash\<close>: UTF-8, the content hash, its legacy predecessor; equal hashes of
  different values exhibit a digest collision.

  Identifiers and vocabulary.
  \<open>StageVocabulary\<close> (\<open>shared/onboarding-stage-vocabulary.ts\<close>): the two spellings of a stage and
  their parsers, with the interface \<open>stage_codec\<close>. \<open>Gtin\<close> (\<open>shared/gtin.ts\<close>): check digits and
  matching. \<open>ProductFilePath\<close> (\<open>git/product-file-path.ts\<close>): SKU to file name and back, with the
  collisions of the lossy fallback.

  Paid effects.
  \<open>Reservations\<close>: the life cycle of an attempt as a step relation and the interface
  \<open>attempt_journal\<close> every ledger of attempts meets. \<open>PaidEffectSchemas\<close>, \<open>PaidEffectLedger\<close>
  (\<open>db/repositories/paid-effect-budget-repo.ts\<close>): contracts, pricing, reservation, dispatch,
  settlement and release over an explicit ledger; the invariant bounds what can ever be spent by
  the authorised ceiling. \<open>PaidEffectCoordinator\<close> (\<open>ai/paid-effect-budget.ts\<close>): the parent that
  guards requests of children and the client that runs a paid call; \<open>PaidEffectSamples\<close> holds a
  concrete run that the witnesses use. \<open>AcquisitionBudget\<close>
  (\<open>db/repositories/item-acquisition-budget-repo.ts\<close>): the same life cycle for item acquisition,
  with limits per item and batch.

  ShopSite drift: keeping the approved catalog and the live store apart or together.
  \<open>ControlledValues\<close> (\<open>shared/controlled-values.ts\<close>) matches text to canonical values.
  \<open>CatalogProduct\<close> (\<open>shared/schemas/product.ts\<close>) is the product record and its page operations,
  \<open>FileNames\<close> (\<open>shopsite/file-name.ts\<close>) the assignment of unique page file names.
  \<open>CatalogComparison\<close> (\<open>shopsite/catalog-comparison.ts\<close>) projects a product to the values compared
  and diffs two projections into hunks. \<open>DriftHunks\<close> and \<open>DriftMerge\<close> (\<open>shopsite/drift-hunks.ts\<close>): the
  stored finding, held hunks, and the merge of one field, which removes exactly that field's
  differences. \<open>DriftQueue\<close> (\<open>db/repositories/drift-repo.ts\<close>, \<open>drift-hunk-repo.ts\<close>): the table of findings
  and its idempotent upsert; at most one outstanding finding for a product. \<open>ProductStore\<close>: the
  workspace files, HEAD, the catalog index, pages and change sets the services write.
  \<open>DriftDetect\<close> (\<open>detectDrift\<close> of \<open>shopsite/drift.ts\<close>), \<open>DriftResolve\<close>
  (\<open>shopsite/drift-hunk-service.ts\<close>) and \<open>DriftReconcile\<close> (\<open>shopsite/drift-reconcile-service.ts\<close>,
  \<open>acceptRemoteForDrift\<close>, the action endpoint) are state passing over one record of that shared state,
  \<open>drift_world\<close>; a refusal leaves the state the code had reached. \<open>DriftLifecycle\<close> and
  \<open>DriftAccept\<close> state what the composition guarantees (a finding reads back as written, a rejected
  hunk stays hidden, an accepted one lands in the file and at HEAD) and where it falls short (a
  moved HEAD, page identities after an accept); \<open>DriftSamples\<close> is the sample workspace of the
  witnesses. Git processes, fresh identifiers, times, Unicode normalisation, number parsing and
  collation are arguments; the XML codec is not modelled, detection starts at decoded products.

  Store Manager: tools on behalf of a model or a playbook, under the operator's approval.
  \<open>JsonObjects\<close>: objects as the code writes them, their canonical texts and what equal digests
  mean. \<open>ActionDiff\<close> (\<open>shared/schemas/store-manager-diff.ts\<close>,
  \<open>store-manager/runtime/action-preview.ts\<close>): the preview an operator approves and its content
  hash. \<open>ToolGate\<close> (\<open>store-manager/runtime/tool-registry.ts\<close>, \<open>policy.ts\<close>,
  \<open>server/services/store-manager-tools.ts\<close>): registration, policy, the approval gate and the whole
  dispatch of a tool; what a run of a tool implies. \<open>ToolRuns\<close>: several dispatches interleaved at
  their suspensions, single use of approvals through the interface \<open>single_use_registry\<close>, the call
  budget; \<open>ToolSamples\<close> holds concrete calls and a run in which overlapping calls exceed the budget.
  \<open>PlaybookSchema\<close> (\<open>shared/schemas/store-manager-playbook.ts\<close>) is the step language with its
  templates, \<open>PlaybookValidator\<close> (\<open>store-manager/playbooks/validator.ts\<close>) the checks of a playbook
  against the registered tools, equal to a declarative notion of a valid playbook. Tools, their input
  schemas and their previews are arguments.

  Release and operator views.
  \<open>ListingGate\<close> (\<open>classification/listing-evidence-gate.ts\<close>): both release gates, characterised
  exactly. \<open>WorkState\<close> (\<open>onboarding/onboarding-work-state.ts\<close>): the mapping table from an item to its
  operator state, one definition per stage, and its type and safety properties. \<open>WorkStateContext\<close>
  (\<open>db/repositories/onboarding-work-state-repo.ts\<close> and the context builder): bulk reads over
  tables, failures as health issues. \<open>WorkStatePages\<close>: filters, cursors, the chunked read and the
  endpoints; the interface \<open>cursor_pages\<close> states what a paged source promises, and its lemmas
  (paging ends, pages cover the rows) are used through the interpretation on the items endpoint.

  Guards.
  \<open>CircuitBreaker\<close> (\<open>onboarding/vlm-circuit-breaker.ts\<close>): the breaker in front of the vision model,
  over histories of checks and outcomes. \<open>Ssrf\<close> (\<open>shared/ssrf.ts\<close>): the address classifier on
  32-bit words against the special-purpose blocks, and the destination guard.

  Conventions. State is passed explicitly; a thrown error is the left side of a sum, a missing value
  is \<^term>\<open>None\<close>. A database table is a list of rows in table order, a transaction returns the new
  state or an error and no state. Clocks, environment variables, the URL parser, the DNS resolver,
  collation, the printing of binary fractions and services outside a component are arguments.
  Fuel occurs only in \<open>fetch_pages\<close>, a client that follows cursors; one more than the number of rows
  is enough, which is a theorem.

  Bounds. Text is Latin-1 (\<^typ>\<open>string\<close>) or UTF-16 code units; letter case is mapped for ASCII and
  Latin-1. Integers are unbounded where the code uses safe integers, and words where it uses 32-bit
  operations.

  Not modelled: the user interface, HTTP routes, migrations, the classification pipeline beyond its
  release gates, workers around network, browser and model calls, the XML codec and the HTTP client
  of the store, the push of product families, bulk drift resolution and drift retention, and the
  Store Manager's model-driven executor, its commands, schedules and history. Cohort views, review rows, draft links and item readiness enter the work-state
  model as parameters.
\<close>

end
